theory Spec2Isabelle
  imports Complex_Main "HOL-Library.Sublist" "HOL-Library.List_Lexorder" "HOL-Library.Char_ord"
    "HOL-Library.Log_Nat"
begin

section \<open>JavaScript values and the built-ins the backends call\<close>

text \<open>
  The backends of the dashboard (\<^verbatim>\<open>umm-dashboard-react/backend/server.js\<close>,
  \<^verbatim>\<open>server-sqlite.js\<close> and the prototype backend that loads
  \<^verbatim>\<open>umm_area_outage_events.csv\<close>) are JavaScript. A decoded JSON document is a
  \<open>jsval\<close>; \<^verbatim>\<open>undefined\<close> is \<open>None\<close> of \<open>jsval option\<close>. A number of a
  document is a finite double, given by its exact value. Strings are lists of code units,
  those below 256.
\<close>

datatype jsval = JNull | JBool bool | JNum rat | JStr string
  | JArr "jsval list" | JObj "(string \<times> jsval) list"

datatype error = TypeError

subsection \<open>Double arithmetic\<close>

text \<open>
  The result of an addition or a division is the double nearest to the exact result (ties
  to the even mantissa), or an infinity when that lies beyond the largest double. \<open>jsnum\<close>
  holds the numbers other than \<^verbatim>\<open>NaN\<close>; where \<^verbatim>\<open>NaN\<close> can occur it is \<open>None\<close> of
  \<open>jsnum option\<close>. The two zeros are not told apart: no output of the backends does.
\<close>

datatype jsnum = Fin rat | PosInf | NegInf

definition pow2 :: "int \<Rightarrow> rat" where
  "pow2 k = (if 0 \<le> k then 2 ^ nat k else 1 / 2 ^ nat (- k))"

text \<open>For \<open>a > 0\<close>: the exponent \<open>e\<close> with \<open>2^e \<le> a < 2^(e+1)\<close>.\<close>

definition floor_log2 :: "rat \<Rightarrow> int" where
  "floor_log2 a =
     (let nd = quotient_of a;
          e0 = bitlen (fst nd) - bitlen (snd nd)
      in if pow2 e0 \<le> a then e0 else e0 - 1)"

definition round_half_even :: "rat \<Rightarrow> int" where
  "round_half_even m =
     (let f = \<lfloor>m\<rfloor>; d = m - of_int f
      in if d < 1 / 2 then f
         else if 1 / 2 < d then f + 1
         else if even f then f else f + 1)"

text \<open>A mantissa of 53 bits and a unit in the last place of \<open>2^k\<close> with \<open>k\<close> at
  least \<open>-1074\<close>. The result is infinite from \<open>2^1024\<close> on: when \<open>k\<close> is above 971,
  or is 971 and the mantissa is rounded up to \<open>2^53\<close>.\<close>

definition to_double :: "rat \<Rightarrow> jsnum" where
  "to_double q =
     (if q = 0 then Fin 0
      else (let k = max (floor_log2 \<bar>q\<bar> - 52) (- 1074);
                r = round_half_even (\<bar>q\<bar> / pow2 k)
            in if 971 \<le> k \<and> (972 \<le> k \<or> r = 2 ^ 53)
               then (if 0 < q then PosInf else NegInf)
               else Fin (if 0 < q then of_int r * pow2 k else - (of_int r * pow2 k))))"

text \<open>\<^verbatim>\<open>a + b\<close> for a number \<open>a\<close> and a finite \<open>b\<close>.\<close>

definition dadd :: "jsnum \<Rightarrow> rat \<Rightarrow> jsnum" where
  "dadd a b = (case a of Fin x \<Rightarrow> to_double (x + b) | PosInf \<Rightarrow> PosInf | NegInf \<Rightarrow> NegInf)"

text \<open>\<^verbatim>\<open>a + b\<close> in general; \<open>None\<close> is \<^verbatim>\<open>NaN\<close>.\<close>

definition nan_add :: "jsnum option \<Rightarrow> jsnum \<Rightarrow> jsnum option" where
  "nan_add a b =
     (case a of None \<Rightarrow> None
      | Some x \<Rightarrow>
          (case b of Fin y \<Rightarrow> Some (dadd x y)
           | PosInf \<Rightarrow> (if x = NegInf then None else Some PosInf)
           | NegInf \<Rightarrow> (if x = PosInf then None else Some NegInf)))"

text \<open>\<^verbatim>\<open>a > 0\<close> and \<^verbatim>\<open>a >= b\<close>\<close>

definition jsnum_pos :: "jsnum \<Rightarrow> bool" where
  "jsnum_pos a = (case a of Fin x \<Rightarrow> 0 < x | PosInf \<Rightarrow> True | NegInf \<Rightarrow> False)"

text \<open>The order of the numbers, for the sorts that compare by a difference: the difference
  of two equal infinities is \<^verbatim>\<open>NaN\<close>, which a comparator returns for equal elements.\<close>

instantiation jsnum :: linorder
begin

definition less_eq_jsnum :: "jsnum \<Rightarrow> jsnum \<Rightarrow> bool" where
  "less_eq_jsnum a b =
     (case a of NegInf \<Rightarrow> True
      | Fin x \<Rightarrow> (case b of NegInf \<Rightarrow> False | Fin y \<Rightarrow> x \<le> y | PosInf \<Rightarrow> True)
      | PosInf \<Rightarrow> b = PosInf)"

definition less_jsnum :: "jsnum \<Rightarrow> jsnum \<Rightarrow> bool" where
  "less_jsnum a b = (a \<le> b \<and> \<not> b \<le> (a::jsnum))"

instance
  by standard (auto simp: less_eq_jsnum_def less_jsnum_def split: jsnum.splits)

end

definition jsnum_neg :: "jsnum \<Rightarrow> jsnum" where
  "jsnum_neg a = (case a of Fin x \<Rightarrow> Fin (- x) | PosInf \<Rightarrow> NegInf | NegInf \<Rightarrow> PosInf)"

subsection \<open>Library functions\<close>

text \<open>The total kept for an area by \<^verbatim>\<open>/api/outages/summary\<close>: a count, or a text
  when the total was started from a property inherited from \<^verbatim>\<open>Object.prototype\<close>.\<close>

datatype tally = Count nat | Text

text \<open>
  Library functions of the language are parameters of the model, collected in one record:
  \<^verbatim>\<open>JSON.parse\<close> (\<open>None\<close> when it throws), number formatting, the conversion of a
  string to a number, \<^verbatim>\<open>parseFloat\<close>, \<^verbatim>\<open>parseInt\<close>,
  \<^verbatim>\<open>new Date(s).getFullYear()\<close> (each \<open>None\<close> for \<^verbatim>\<open>NaN\<close>; the numbers that
  \<^verbatim>\<open>parseFloat\<close> returns are finite), and the order in which \<^verbatim>\<open>sort\<close> leaves
  the entries of \<^verbatim>\<open>areaTotals\<close> when its comparator is not consistent, which the
  language leaves to the implementation.
\<close>

record builtins =
  JSON_parse :: "string \<Rightarrow> jsval option"
  Number_toString :: "jsnum \<Rightarrow> string"
  String_toNumber :: "string \<Rightarrow> jsnum option"
  parseFloat :: "string \<Rightarrow> rat option"
  parseInt :: "string \<Rightarrow> int option"
  getFullYear :: "string option \<Rightarrow> int option"
  unspecified_order :: "(string \<times> tally) list \<Rightarrow> (string \<times> tally) list"

subsection \<open>Values\<close>

fun truthy :: "jsval \<Rightarrow> bool" where
  "truthy JNull = False"
| "truthy (JBool b) = b"
| "truthy (JNum q) = (q \<noteq> 0)"
| "truthy (JStr s) = (s \<noteq> [])"
| "truthy (JArr xs) = True"
| "truthy (JObj kvs) = True"

definition truthy_opt :: "jsval option \<Rightarrow> bool" where
  "truthy_opt v = (case v of None \<Rightarrow> False | Some x \<Rightarrow> truthy x)"

text \<open>\<^verbatim>\<open>item.k\<close>: a \<^verbatim>\<open>TypeError\<close> on \<^verbatim>\<open>null\<close>, the property of an object,
  \<^verbatim>\<open>undefined\<close> on every other value (none of the property names read by the
  backends is defined on a number, boolean, string or array, or inherited by an object).\<close>

definition member :: "jsval \<Rightarrow> string \<Rightarrow> error + jsval option" where
  "member v k = (case v of JNull \<Rightarrow> Inl TypeError
                 | JObj kvs \<Rightarrow> Inr (map_of kvs k)
                 | _ \<Rightarrow> Inr None)"

text \<open>\<^verbatim>\<open>v[0]\<close> on a value already known to be truthy.\<close>

fun index0 :: "jsval \<Rightarrow> jsval option" where
  "index0 (JArr xs) = (case xs of [] \<Rightarrow> None | x # _ \<Rightarrow> Some x)"
| "index0 (JStr s) = (case s of [] \<Rightarrow> None | c # _ \<Rightarrow> Some (JStr [c]))"
| "index0 (JObj kvs) = map_of kvs ''0''"
| "index0 _ = None"

definition bindE :: "error + 'a \<Rightarrow> ('a \<Rightarrow> error + 'b) \<Rightarrow> error + 'b" where
  "bindE m f = (case m of Inl e \<Rightarrow> Inl e | Inr x \<Rightarrow> f x)"

fun join_comma :: "string list \<Rightarrow> string" where
  "join_comma [] = []"
| "join_comma [s] = s"
| "join_comma (s # t # ss) = s @ '','' @ join_comma (t # ss)"

text \<open>
  \<^verbatim>\<open>String(v)\<close>, as the template literals, \<^verbatim>\<open>+\<close>, property keys and the default
  \<^verbatim>\<open>sort\<close> apply it. A decoded object has no callable property of its own, so its
  conversion calls the inherited \<^verbatim>\<open>toString\<close>, unless the object has a key
  \<^verbatim>\<open>toString\<close>: that value is not callable, the inherited \<^verbatim>\<open>valueOf\<close> (or an own
  one) yields no primitive, and the conversion throws a \<^verbatim>\<open>TypeError\<close>. An array joins
  the string forms of its elements, \<^verbatim>\<open>null\<close> giving the empty string.
\<close>

fun js_toString :: "(jsnum \<Rightarrow> string) \<Rightarrow> jsval \<Rightarrow> error + string"
  and elements_toString :: "(jsnum \<Rightarrow> string) \<Rightarrow> jsval list \<Rightarrow> error + string list" where
  "js_toString ns JNull = Inr ''null''"
| "js_toString ns (JBool b) = Inr (if b then ''true'' else ''false'')"
| "js_toString ns (JNum q) = Inr (ns (Fin q))"
| "js_toString ns (JStr s) = Inr s"
| "js_toString ns (JArr xs) =
     (case elements_toString ns xs of Inl e \<Rightarrow> Inl e | Inr ss \<Rightarrow> Inr (join_comma ss))"
| "js_toString ns (JObj kvs) =
     (if ''toString'' \<in> set (map fst kvs) then Inl TypeError else Inr ''[object Object]'')"
| "elements_toString ns [] = Inr []"
| "elements_toString ns (x # xs) =
     (case (if x = JNull then Inr [] else js_toString ns x) of
        Inl e \<Rightarrow> Inl e
      | Inr s \<Rightarrow> (case elements_toString ns xs of Inl e \<Rightarrow> Inl e | Inr ss \<Rightarrow> Inr (s # ss)))"

text \<open>\<^verbatim>\<open>v || 0\<close>.\<close>

definition or_zero :: "jsval option \<Rightarrow> jsval" where
  "or_zero v = (case v of None \<Rightarrow> JNum 0 | Some x \<Rightarrow> if truthy x then x else JNum 0)"

text \<open>A running total of \<^verbatim>\<open>extractCapacityInfo\<close>: a number, or a string once
  \<^verbatim>\<open>+=\<close> has concatenated.\<close>

datatype total = TNum jsnum | TStr string

text \<open>\<^verbatim>\<open>total += v\<close>: the number is added when \<open>v\<close> is a number or a boolean; a
  string, an array or an object is converted to a string and appended to the string form
  of the total.\<close>

definition js_plus :: "(jsnum \<Rightarrow> string) \<Rightarrow> total \<Rightarrow> jsval \<Rightarrow> error + total" where
  "js_plus ns t v =
     (case t of
        TNum a \<Rightarrow>
          (case v of JNum q \<Rightarrow> Inr (TNum (dadd a q))
           | JBool b \<Rightarrow> Inr (TNum (dadd a (if b then 1 else 0)))
           | JNull \<Rightarrow> Inr (TNum (dadd a 0))
           | _ \<Rightarrow> bindE (js_toString ns v) (\<lambda>sv. Inr (TStr (ns a @ sv))))
      | TStr s \<Rightarrow> bindE (js_toString ns v) (\<lambda>sv. Inr (TStr (s @ sv))))"

text \<open>\<^verbatim>\<open>total > 0\<close>\<close>

definition gt_zero :: "builtins \<Rightarrow> total \<Rightarrow> bool" where
  "gt_zero B t = (case t of TNum a \<Rightarrow> jsnum_pos a
                  | TStr s \<Rightarrow> (case String_toNumber B s of None \<Rightarrow> False
                               | Some a \<Rightarrow> jsnum_pos a))"

text \<open>\<^verbatim>\<open>forEach\<close> with a callback that may throw: the first exception ends the loop.\<close>

fun forEachE :: "('s \<Rightarrow> 'a \<Rightarrow> error + 's) \<Rightarrow> 'a list \<Rightarrow> 's \<Rightarrow> error + 's" where
  "forEachE f [] s = Inr s"
| "forEachE f (x # xs) s = (case f s x of Inl e \<Rightarrow> Inl e | Inr s' \<Rightarrow> forEachE f xs s')"

section \<open>\<^verbatim>\<open>parseJSON\<close> (server.js and server-sqlite.js)\<close>

definition parseJSON :: "builtins \<Rightarrow> string option \<Rightarrow> jsval list" where
  "parseJSON B v =
     (case v of None \<Rightarrow> []
      | Some s \<Rightarrow>
          if s = [] \<or> s = ''null'' \<or> s = [] then []
          else (case JSON_parse B s of
                  None \<Rightarrow> []
                | Some parsed \<Rightarrow> (case parsed of JArr xs \<Rightarrow> xs | _ \<Rightarrow> [parsed])))"

section \<open>Record normalisation (server.js)\<close>

text \<open>A row as \<^verbatim>\<open>csv-parser\<close> delivers it: every column is a string, or absent.\<close>

record raw_row =
  areas_json :: "string option"
  production_units_json :: "string option"
  generation_units_json :: "string option"
  transmission_units_json :: "string option"
  message_type :: "string option"
  unavailability_type :: "string option"
  remarks :: "string option"
  publication_date :: "string option"

text \<open>A \<^verbatim>\<open>Set\<close> in insertion order. Primitive values are compared by value, arrays
  and objects by identity: two decoded objects are never the same element.\<close>

definition is_reference :: "jsval \<Rightarrow> bool" where
  "is_reference v = (case v of JArr _ \<Rightarrow> True | JObj _ \<Rightarrow> True | _ \<Rightarrow> False)"

definition set_add :: "jsval list \<Rightarrow> jsval \<Rightarrow> jsval list" where
  "set_add s v = (if \<not> is_reference v \<and> v \<in> set s then s else s @ [v])"

text \<open>\<^verbatim>\<open>if (item.k) areas.add(item.k)\<close>\<close>

definition add_prop :: "string \<Rightarrow> jsval list \<Rightarrow> jsval \<Rightarrow> error + jsval list" where
  "add_prop k areas item =
     bindE (member item k)
       (\<lambda>v. Inr (case v of None \<Rightarrow> areas
                  | Some x \<Rightarrow> if truthy x then set_add areas x else areas))"

definition add_in_out :: "jsval list \<Rightarrow> jsval \<Rightarrow> error + jsval list" where
  "add_in_out areas item =
     bindE (add_prop ''inAreaName'' areas item) (\<lambda>a. add_prop ''outAreaName'' a item)"

text \<open>The four loops of \<^verbatim>\<open>extractAreaNames\<close>, before the final sort.\<close>

definition collectAreaNames :: "builtins \<Rightarrow> raw_row \<Rightarrow> error + jsval list" where
  "collectAreaNames B row =
     bindE (forEachE (add_prop ''name'') (parseJSON B (areas_json row)) []) (\<lambda>a1.
     bindE (forEachE (add_prop ''areaName'') (parseJSON B (production_units_json row)) a1) (\<lambda>a2.
     bindE (forEachE (add_prop ''areaName'') (parseJSON B (generation_units_json row)) a2) (\<lambda>a3.
     forEachE add_in_out (parseJSON B (transmission_units_json row)) a3)))"

text \<open>
  \<^verbatim>\<open>Array.from(areas).sort()\<close>: the default sort is stable and compares the string
  forms of the elements. It converts two elements at each comparison, and an array of two
  or more elements cannot be sorted without comparing each of them: the sort throws as
  soon as one of two or more elements has no string form, and converts nothing when there
  is one element or none.
\<close>

definition string_form :: "builtins \<Rightarrow> jsval \<Rightarrow> string" where
  "string_form B v = (case js_toString (Number_toString B) v of Inl e \<Rightarrow> [] | Inr s \<Rightarrow> s)"

definition array_sort :: "builtins \<Rightarrow> jsval list \<Rightarrow> error + jsval list" where
  "array_sort B xs =
     (if 2 \<le> length xs \<and> list_ex (\<lambda>x. isl (js_toString (Number_toString B) x)) xs
      then Inl TypeError
      else Inr (sort_key (string_form B) xs))"

definition extractAreaNames :: "builtins \<Rightarrow> raw_row \<Rightarrow> error + jsval list" where
  "extractAreaNames B row = bindE (collectAreaNames B row) (array_sort B)"

text \<open>\<^verbatim>\<open>extractUnitNames\<close>:
  \<^verbatim>\<open>const name = item.name || item.productionUnitName || item.generationUnitName\<close>\<close>

definition add_unit_name :: "jsval list \<Rightarrow> jsval \<Rightarrow> error + jsval list" where
  "add_unit_name names item =
     bindE (member item ''name'') (\<lambda>n.
       if truthy_opt n then Inr (set_add names (or_zero n))
       else bindE (member item ''productionUnitName'') (\<lambda>p.
         if truthy_opt p then Inr (set_add names (or_zero p))
         else bindE (member item ''generationUnitName'') (\<lambda>g.
           Inr (if truthy_opt g then set_add names (or_zero g) else names))))"

definition extractUnitNames :: "builtins \<Rightarrow> string option \<Rightarrow> error + jsval list" where
  "extractUnitNames B jsonArray =
     bindE (forEachE add_unit_name (parseJSON B jsonArray) []) (array_sort B)"

text \<open>
  \<^verbatim>\<open>extractCapacityInfo\<close>. The three totals start at the number 0 and are updated with
  \<^verbatim>\<open>+=\<close>. Of the fuel-type labels the model keeps what can throw: a truthy
  \<^verbatim>\<open>unit.fuelType\<close> is converted to a property key of \<^verbatim>\<open>fuelMap\<close>. The label set
  itself and the \<^verbatim>\<open>fuelType\<close> string of the result are left out; sorting and joining
  the labels does not throw, a label being a string or a value inherited by \<^verbatim>\<open>fuelMap\<close>.
\<close>

record capacity_acc =
  totalInstalled :: total
  totalUnavailable :: total
  totalAvailable :: total

text \<open>\<^verbatim>\<open>if (unit.fuelType) fuelTypes.add(fuelMap[unit.fuelType] || ...)\<close>\<close>

definition fuel_key :: "(jsnum \<Rightarrow> string) \<Rightarrow> jsval option \<Rightarrow> error + unit" where
  "fuel_key ns f =
     (case f of None \<Rightarrow> Inr ()
      | Some x \<Rightarrow> if truthy x then bindE (js_toString ns x) (\<lambda>k. Inr ()) else Inr ())"

definition capacity_step :: "(jsnum \<Rightarrow> string) \<Rightarrow> capacity_acc \<Rightarrow> jsval \<Rightarrow> error + capacity_acc" where
  "capacity_step ns acc unit =
     bindE (member unit ''installedCapacity'') (\<lambda>ic.
     bindE (js_plus ns (totalInstalled acc) (or_zero ic)) (\<lambda>ti.
     bindE (member unit ''fuelType'') (\<lambda>ft.
     bindE (fuel_key ns ft) (\<lambda>u0.
     bindE (member unit ''timePeriods'') (\<lambda>tp.
       let acc1 = acc\<lparr>totalInstalled := ti\<rparr> in
       (case tp of None \<Rightarrow> Inr acc1
        | Some t \<Rightarrow>
            if \<not> truthy t then Inr acc1
            else (case index0 t of None \<Rightarrow> Inr acc1
                  | Some p \<Rightarrow>
                      if \<not> truthy p then Inr acc1
                      else bindE (member p ''unavailableCapacity'') (\<lambda>u.
                           bindE (js_plus ns (totalUnavailable acc1) (or_zero u)) (\<lambda>tu.
                           bindE (member p ''availableCapacity'') (\<lambda>a.
                           bindE (js_plus ns (totalAvailable acc1) (or_zero a)) (\<lambda>ta.
                             Inr (acc1\<lparr>totalUnavailable := tu, totalAvailable := ta\<rparr>))))))))))))"

text \<open>The result; \<open>None\<close> is \<^verbatim>\<open>null\<close>.\<close>

record capacity_info =
  installedMW :: "total option"
  unavailableMW :: "total option"
  availableMW :: "total option"

definition positive_or_null :: "builtins \<Rightarrow> total \<Rightarrow> total option" where
  "positive_or_null B v = (if gt_zero B v then Some v else None)"

definition extractCapacityInfo :: "builtins \<Rightarrow> raw_row \<Rightarrow> error + capacity_info" where
  "extractCapacityInfo B row =
     bindE (forEachE (capacity_step (Number_toString B))
              (parseJSON B (production_units_json row))
              \<lparr>totalInstalled = TNum (Fin 0), totalUnavailable = TNum (Fin 0),
               totalAvailable = TNum (Fin 0)\<rparr>)
       (\<lambda>a1.
     bindE (forEachE (capacity_step (Number_toString B))
              (parseJSON B (generation_units_json row)) a1)
       (\<lambda>a2.
     Inr \<lparr>installedMW = positive_or_null B (totalInstalled a2),
          unavailableMW = positive_or_null B (totalUnavailable a2),
          availableMW = positive_or_null B (totalAvailable a2)\<rparr>))"

section \<open>Planned / unplanned classification (server.js)\<close>

datatype planned_status = Planned | Unplanned | Unknown

definition plannedKeywords :: "string list" where
  "plannedKeywords = [''planned'', ''maintenance'', ''scheduled'']"

definition unplannedKeywords :: "string list" where
  "unplannedKeywords = [''unplanned'', ''unexpected'', ''fault'', ''failure'', ''emergency'']"

text \<open>\<^verbatim>\<open>toLowerCase\<close>, on the letters A to Z: the keywords are written with the
  letters a to z.\<close>

definition lower_char :: "char \<Rightarrow> char" where
  "lower_char c =
     (case map_of (zip ''ABCDEFGHIJKLMNOPQRSTUVWXYZ'' ''abcdefghijklmnopqrstuvwxyz'') c of
        None \<Rightarrow> c | Some l \<Rightarrow> l)"

definition toLowerCase :: "string \<Rightarrow> string" where
  "toLowerCase s = map lower_char s"

text \<open>\<^verbatim>\<open>s.includes(w)\<close>\<close>

fun includes_str :: "string \<Rightarrow> string \<Rightarrow> bool" where
  "includes_str [] w = (w = [])"
| "includes_str (c # cs) w = (prefix w (c # cs) \<or> includes_str cs w)"

text \<open>\<^verbatim>\<open>row.unavailability_type ? parseFloat(row.unavailability_type) : null\<close>; the
  results \<^verbatim>\<open>null\<close> and \<^verbatim>\<open>NaN\<close> are both \<open>None\<close>, neither is equal to 1 or 2.\<close>

definition unavailabilityType :: "builtins \<Rightarrow> raw_row \<Rightarrow> rat option" where
  "unavailabilityType B row =
     (case unavailability_type row of None \<Rightarrow> None
      | Some s \<Rightarrow> if s = [] then None else parseFloat B s)"

definition remarks_lower :: "raw_row \<Rightarrow> string" where
  "remarks_lower row = toLowerCase (case remarks row of None \<Rightarrow> [] | Some s \<Rightarrow> s)"

text \<open>The classification inside \<^verbatim>\<open>/api/outages/summary\<close>.\<close>

definition plannedStatus_of :: "builtins \<Rightarrow> raw_row \<Rightarrow> planned_status" where
  "plannedStatus_of B row =
     (if unavailabilityType B row = Some 1 then Planned
      else if unavailabilityType B row = Some 2 then Unplanned
      else if list_ex (\<lambda>word. includes_str (remarks_lower row) word) plannedKeywords then Planned
      else if list_ex (\<lambda>word. includes_str (remarks_lower row) word) unplannedKeywords then Unplanned
      else Unknown)"

text \<open>The counters of \<^verbatim>\<open>plannedUnplannedBreakdown\<close> in \<^verbatim>\<open>/api/units/:unitName\<close>.\<close>

record breakdown =
  nPlanned :: nat
  nUnplanned :: nat
  nUnknown :: nat

definition breakdown_step :: "builtins \<Rightarrow> breakdown \<Rightarrow> raw_row \<Rightarrow> breakdown" where
  "breakdown_step B bd row =
     (if unavailabilityType B row = Some 1 then bd\<lparr>nPlanned := nPlanned bd + 1\<rparr>
      else if unavailabilityType B row = Some 2 then bd\<lparr>nUnplanned := nUnplanned bd + 1\<rparr>
      else
        (let isPlanned = list_ex (\<lambda>kw. includes_str (remarks_lower row) kw) plannedKeywords;
             isUnplanned = list_ex (\<lambda>kw. includes_str (remarks_lower row) kw) unplannedKeywords
         in if isPlanned then bd\<lparr>nPlanned := nPlanned bd + 1\<rparr>
            else if isUnplanned then bd\<lparr>nUnplanned := nUnplanned bd + 1\<rparr>
            else bd\<lparr>nUnknown := nUnknown bd + 1\<rparr>))"

definition plannedUnplannedBreakdown :: "builtins \<Rightarrow> raw_row list \<Rightarrow> breakdown" where
  "plannedUnplannedBreakdown B unitData =
     foldl (breakdown_step B) \<lparr>nPlanned = 0, nUnplanned = 0, nUnknown = 0\<rparr> unitData"

text \<open>The rules as the specification words them, for comparison.\<close>

definition classifyStatus_spec :: "rat option \<Rightarrow> string \<Rightarrow> planned_status" where
  "classifyStatus_spec code remarks_text =
     (if code = Some 1 then Planned
      else if code = Some 2 then Unplanned
      else if \<exists>kw \<in> set plannedKeywords. includes_str (toLowerCase remarks_text) kw then Planned
      else if \<exists>kw \<in> set unplannedKeywords. includes_str (toLowerCase remarks_text) kw then Unplanned
      else Unknown)"

section \<open>Plain objects used as dictionaries\<close>

text \<open>
  An object literal \<^verbatim>\<open>{}\<close> filled by \<^verbatim>\<open>obj[key] = v\<close> is an association list
  of its own properties in creation order; assigning to an existing key keeps its place.
  \<^verbatim>\<open>Object.keys\<close>, \<^verbatim>\<open>Object.values\<close> and \<^verbatim>\<open>Object.entries\<close> list the
  keys that are array indices first, in ascending numeric order, and the other keys in
  creation order after them.
\<close>

type_synonym 'v js_object = "(string \<times> 'v) list"

definition obj_get :: "'v js_object \<Rightarrow> string \<Rightarrow> 'v option" where
  "obj_get obj k = map_of obj k"

fun obj_set :: "'v js_object \<Rightarrow> string \<Rightarrow> 'v \<Rightarrow> 'v js_object" where
  "obj_set [] k v = [(k, v)]"
| "obj_set (p # ps) k v = (if fst p = k then (k, v) # ps else p # obj_set ps k v)"

text \<open>
  A lookup \<^verbatim>\<open>obj[key]\<close> that finds no own property goes on to \<^verbatim>\<open>Object.prototype\<close>.
  These are its properties, as the language standard lists them; each is a function,
  \<^verbatim>\<open>__proto__\<close> reads as \<^verbatim>\<open>Object.prototype\<close> itself, so all of them are truthy.
  The backends add none that is truthy.
\<close>

definition Object_prototype_names :: "string list" where
  "Object_prototype_names =
     [''constructor'', ''__defineGetter__'', ''__defineSetter__'', ''hasOwnProperty'',
      ''__lookupGetter__'', ''__lookupSetter__'', ''isPrototypeOf'', ''propertyIsEnumerable'',
      ''toString'', ''valueOf'', ''__proto__'', ''toLocaleString'']"

definition inherited :: "string \<Rightarrow> bool" where
  "inherited k = (k \<in> set Object_prototype_names)"

text \<open>\<^verbatim>\<open>obj[key]\<close> on a dictionary: an own property, an inherited one, or
  \<^verbatim>\<open>undefined\<close>.\<close>

datatype 'v lookup = Own 'v | Inherited | Absent

definition obj_lookup :: "'v js_object \<Rightarrow> string \<Rightarrow> 'v lookup" where
  "obj_lookup obj k =
     (case obj_get obj k of Some v \<Rightarrow> Own v
      | None \<Rightarrow> if inherited k then Inherited else Absent)"

definition digit_value :: "char \<Rightarrow> int option" where
  "digit_value c = map_of (zip ''0123456789'' [0, 1, 2, 3, 4, 5, 6, 7, 8, 9]) c"

definition index_value :: "string \<Rightarrow> int" where
  "index_value k = foldl (\<lambda>n c. 10 * n + (case digit_value c of None \<Rightarrow> 0 | Some d \<Rightarrow> d)) 0 k"

text \<open>An array index: the canonical decimal form of an integer from 0 to \<open>2^32 - 2\<close>.\<close>

definition is_array_index :: "string \<Rightarrow> bool" where
  "is_array_index k =
     (k \<noteq> [] \<and> list_all (\<lambda>c. digit_value c \<noteq> None) k
      \<and> (k = ''0'' \<or> take 1 k \<noteq> ''0'') \<and> index_value k < 4294967295)"

definition obj_entries :: "'v js_object \<Rightarrow> (string \<times> 'v) list" where
  "obj_entries obj =
     sort_key (\<lambda>p. index_value (fst p)) (filter (\<lambda>p. is_array_index (fst p)) obj)
     @ filter (\<lambda>p. \<not> is_array_index (fst p)) obj"

definition obj_values :: "'v js_object \<Rightarrow> 'v list" where
  "obj_values obj = map snd (obj_entries obj)"

section \<open>\<^verbatim>\<open>/api/outages/summary\<close> (server.js)\<close>

text \<open>The query of a request; a parameter is a string, or absent.\<close>

record summary_query =
  q_year :: "string option"
  q_areas :: "string option"
  q_messageType :: "string option"
  q_topN :: "string option"

record summary_row =
  area :: jsval
  year :: "int option"
  messageType :: "string option"
  plannedStatus :: planned_status
  count :: nat

text \<open>\<^verbatim>\<open>s.split(',')\<close>\<close>

fun split_comma :: "string \<Rightarrow> string list" where
  "split_comma [] = [[]]"
| "split_comma (c # cs) =
     (if c = CHR '','' then [] # split_comma cs
      else (case split_comma cs of [] \<Rightarrow> [[c]] | w # ws \<Rightarrow> (c # w) # ws))"

text \<open>\<^verbatim>\<open>new Date(row.publication_date).getFullYear()\<close>; \<open>None\<close> is \<^verbatim>\<open>NaN\<close>.\<close>

definition eventYear :: "builtins \<Rightarrow> raw_row \<Rightarrow> int option" where
  "eventYear B row = getFullYear B (publication_date row)"

text \<open>\<^verbatim>\<open>parseInt(row.message_type)\<close> is 1, 2 or 3.\<close>

definition is_outage :: "builtins \<Rightarrow> raw_row \<Rightarrow> bool" where
  "is_outage B row =
     (case message_type row of None \<Rightarrow> False
      | Some s \<Rightarrow> parseInt B s = Some 1 \<or> parseInt B s = Some 2 \<or> parseInt B s = Some 3)"

text \<open>\<^verbatim>\<open>eventYear === parseInt(year)\<close>: \<^verbatim>\<open>NaN\<close> is equal to nothing.\<close>

definition same_number :: "int option \<Rightarrow> int option \<Rightarrow> bool" where
  "same_number a b = (case a of None \<Rightarrow> False | Some x \<Rightarrow> b = Some x)"

text \<open>\<^verbatim>\<open>row.message_type === parseInt(messageType)\<close>: the left side is a string of the
  CSV row (or \<^verbatim>\<open>undefined\<close>), the right side a number, so strict equality is false.\<close>

definition field_is_number :: "string option \<Rightarrow> int option \<Rightarrow> bool" where
  "field_is_number f n = False"

text \<open>\<^verbatim>\<open>rowAreas.some(area => areaList.includes(area))\<close>: only a string can be equal to
  an element of \<^verbatim>\<open>areaList\<close>.\<close>

definition in_area_list :: "string list \<Rightarrow> jsval \<Rightarrow> bool" where
  "in_area_list areaList a = (case a of JStr s \<Rightarrow> s \<in> set areaList | _ \<Rightarrow> False)"

fun filterE :: "('a \<Rightarrow> error + bool) \<Rightarrow> 'a list \<Rightarrow> error + 'a list" where
  "filterE p [] = Inr []"
| "filterE p (x # xs) =
     bindE (p x) (\<lambda>keep. bindE (filterE p xs) (\<lambda>rest. Inr (if keep then x # rest else rest)))"

definition filter_rows :: "builtins \<Rightarrow> summary_query \<Rightarrow> raw_row list \<Rightarrow> error + raw_row list" where
  "filter_rows B q data =
     (let f1 = filter (is_outage B) data;
          f2 = (case q_year q of None \<Rightarrow> f1
                | Some y \<Rightarrow> if y \<noteq> [] \<and> y \<noteq> ''all''
                            then filter (\<lambda>row. same_number (eventYear B row) (parseInt B y)) f1
                            else f1);
          f3 = (case q_messageType q of None \<Rightarrow> f2
                | Some m \<Rightarrow> if m \<noteq> []
                            then filter (\<lambda>row. field_is_number (message_type row) (parseInt B m)) f2
                            else f2)
      in (case q_areas q of None \<Rightarrow> Inr f3
          | Some a \<Rightarrow> if a \<noteq> []
                      then filterE (\<lambda>row. bindE (extractAreaNames B row)
                               (\<lambda>rowAreas. Inr (list_ex (in_area_list (split_comma a)) rowAreas))) f3
                      else Inr f3))"

definition status_label :: "planned_status \<Rightarrow> string" where
  "status_label st = (case st of Planned \<Rightarrow> ''Planned'' | Unplanned \<Rightarrow> ''Unplanned''
                      | Unknown \<Rightarrow> ''Unknown'')"

text \<open>The template \<^verbatim>\<open>`${area}|${eventYear}|${messageType}|${plannedStatus}`\<close>. The key
  contains \<^verbatim>\<open>|\<close>: it is neither an array index nor the name of an inherited
  property.\<close>

definition summary_key ::
  "builtins \<Rightarrow> jsval \<Rightarrow> int option \<Rightarrow> string option \<Rightarrow> planned_status
     \<Rightarrow> error + string" where
  "summary_key B a y mt st =
     bindE (js_toString (Number_toString B) a) (\<lambda>sa.
       Inr (sa @ ''|''
            @ (case y of None \<Rightarrow> ''NaN'' | Some n \<Rightarrow> Number_toString B (Fin (of_int n))) @ ''|''
            @ (case mt of None \<Rightarrow> ''undefined'' | Some m \<Rightarrow> m) @ ''|''
            @ status_label st))"

definition summary_add ::
  "builtins \<Rightarrow> int option \<Rightarrow> string option \<Rightarrow> planned_status
     \<Rightarrow> summary_row js_object \<Rightarrow> jsval \<Rightarrow> error + summary_row js_object" where
  "summary_add B y mt st summary a =
     bindE (summary_key B a y mt st) (\<lambda>key.
       let summary1 = (case obj_get summary key of
                         None \<Rightarrow> obj_set summary key
                                  \<lparr>area = a, year = y, messageType = mt, plannedStatus = st,
                                   count = 0\<rparr>
                       | Some r \<Rightarrow> summary)
       in Inr (case obj_get summary1 key of
                 None \<Rightarrow> summary1
               | Some r \<Rightarrow> obj_set summary1 key (r\<lparr>count := count r + 1\<rparr>)))"

definition summary_step ::
  "builtins \<Rightarrow> summary_row js_object \<Rightarrow> raw_row \<Rightarrow> error + summary_row js_object" where
  "summary_step B summary row =
     bindE (extractAreaNames B row)
       (\<lambda>rowAreas. forEachE (summary_add B (eventYear B row) (message_type row)
                               (plannedStatus_of B row)) rowAreas summary)"

definition build_summary :: "builtins \<Rightarrow> raw_row list \<Rightarrow> error + summary_row js_object" where
  "build_summary B filtered = forEachE (summary_step B) filtered []"

text \<open>
  \<^verbatim>\<open>if (!areaTotals[item.area]) areaTotals[item.area] = 0; areaTotals[item.area] += item.count\<close>.
  When the key is the name of an inherited property and the object has no such property
  of its own, the lookup finds the inherited value, which is truthy, and \<^verbatim>\<open>+=\<close> appends
  the count to its string form: the assignment creates an own property holding that text,
  except under \<^verbatim>\<open>__proto__\<close>, where assigning a string changes nothing.
\<close>

definition totals_add :: "builtins \<Rightarrow> tally js_object \<Rightarrow> summary_row \<Rightarrow> error + tally js_object" where
  "totals_add B areaTotals item =
     bindE (js_toString (Number_toString B) (area item)) (\<lambda>k.
       let t1 = (case obj_lookup areaTotals k of
                   Absent \<Rightarrow> obj_set areaTotals k (Count 0)
                 | Own t \<Rightarrow> if t = Count 0 then obj_set areaTotals k (Count 0) else areaTotals
                 | Inherited \<Rightarrow> areaTotals)
       in Inr (case obj_lookup t1 k of
                 Own t \<Rightarrow> obj_set t1 k (case t of Count n \<Rightarrow> Count (n + count item)
                                         | Text \<Rightarrow> Text)
               | Inherited \<Rightarrow> if k = ''__proto__'' then t1 else obj_set t1 k Text
               | Absent \<Rightarrow> t1))"

definition areaTotals_of :: "builtins \<Rightarrow> summary_row list \<Rightarrow> error + tally js_object" where
  "areaTotals_of B summaryArray = forEachE (totals_add B) summaryArray []"

text \<open>\<^verbatim>\<open>xs.slice(0, n)\<close> for the number \<open>n\<close> that \<^verbatim>\<open>parseInt\<close> returned.\<close>

definition slice0 :: "'a list \<Rightarrow> int option \<Rightarrow> 'a list" where
  "slice0 xs n =
     (case n of None \<Rightarrow> []
      | Some k \<Rightarrow> if k < 0 then take (nat (int (length xs) + k)) xs else take (nat k) xs)"

text \<open>\<^verbatim>\<open>topN = 10\<close> when the query has none; \<^verbatim>\<open>parseInt(10)\<close> is 10.\<close>

definition topN_number :: "builtins \<Rightarrow> string option \<Rightarrow> int option" where
  "topN_number B t = (case t of None \<Rightarrow> Some 10 | Some s \<Rightarrow> parseInt B s)"

text \<open>
  \<^verbatim>\<open>Object.entries(areaTotals).sort((a, b) => b[1] - a[1])\<close>. On counts the comparator
  is consistent and the sort, which is stable, orders by descending count. A text makes
  the difference \<^verbatim>\<open>NaN\<close>; the order is then the implementation's.
\<close>

definition is_count :: "tally \<Rightarrow> bool" where
  "is_count t = (case t of Count n \<Rightarrow> True | Text \<Rightarrow> False)"

definition count_of :: "tally \<Rightarrow> nat" where
  "count_of t = (case t of Count n \<Rightarrow> n | Text \<Rightarrow> 0)"

definition sort_totals :: "builtins \<Rightarrow> (string \<times> tally) list \<Rightarrow> (string \<times> tally) list" where
  "sort_totals B es =
     (if list_all (\<lambda>e. is_count (snd e)) es then sort_key (\<lambda>e. - int (count_of (snd e))) es
      else unspecified_order B es)"

text \<open>\<^verbatim>\<open>.slice(0, parseInt(topN)).map(([area]) => area)\<close>\<close>

definition topAreas_of :: "builtins \<Rightarrow> int option \<Rightarrow> summary_row list \<Rightarrow> error + string list" where
  "topAreas_of B n summaryArray =
     bindE (areaTotals_of B summaryArray)
       (\<lambda>areaTotals. Inr (map fst (slice0 (sort_totals B (obj_entries areaTotals)) n)))"

text \<open>The response, without the lists of years and areas offered to the filter controls
  and without the table of labels: building them throws nothing that building the
  summary has not thrown before.\<close>

record summary_response =
  summary :: "summary_row list"
  topAreas :: "string list"
  totalRecords :: nat

definition outage_summary ::
  "builtins \<Rightarrow> summary_query \<Rightarrow> raw_row list \<Rightarrow> error + summary_response" where
  "outage_summary B q data =
     bindE (filter_rows B q data) (\<lambda>filtered.
     bindE (build_summary B filtered) (\<lambda>summary_obj.
       let summaryArray = obj_values summary_obj
       in bindE (topAreas_of B (topN_number B (q_topN q)) summaryArray) (\<lambda>top.
            Inr \<lparr>summary = summaryArray, topAreas = top, totalRecords = length filtered\<rparr>)))"

section \<open>Loading and caching the dataset (server.js)\<close>

text \<open>
  What happens when the CSV file is read by
  \<^verbatim>\<open>fs.createReadStream(path).pipe(csv()).on('data', ...).on('end', ...).on('error', ...)\<close>:
  the file is absent, the read stream fails, the parser delivers rows and then reports an
  error, or the parser delivers the rows and ends.
\<close>

datatype 'r file_state = Missing | Unreadable | Unparsable "'r list" | Readable "'r list"

text \<open>
  The three listeners are registered on the stream that \<^verbatim>\<open>pipe\<close> returns, the
  parser. An error of the parser rejects the promise. An error of the read stream (the file
  is missing or cannot be read) has no listener, and an exception thrown by the row handler
  is caught by nobody: either ends the process.
\<close>

datatype 'a settled = Resolved 'a | Rejected | Exited

text \<open>The object pushed for each row by the \<^verbatim>\<open>data\<close> handler of \<^verbatim>\<open>loadData\<close>
  (without the \<^verbatim>\<open>duration\<close> string, which is computed from two dates and cannot
  throw).\<close>

record loaded_row =
  src_row :: raw_row
  area_names :: "jsval list"
  production_unit_names :: "jsval list"
  generation_unit_names :: "jsval list"
  capacity :: capacity_info

definition process_row :: "builtins \<Rightarrow> raw_row \<Rightarrow> error + loaded_row" where
  "process_row B row =
     bindE (extractAreaNames B row) (\<lambda>areas.
     bindE (extractUnitNames B (production_units_json row)) (\<lambda>productionUnits.
     bindE (extractUnitNames B (generation_units_json row)) (\<lambda>generationUnits.
     bindE (extractCapacityInfo B row) (\<lambda>cap.
       Inr \<lparr>src_row = row, area_names = areas, production_unit_names = productionUnits,
            generation_unit_names = generationUnits, capacity = cap\<rparr>))))"

definition process_rows :: "builtins \<Rightarrow> raw_row list \<Rightarrow> error + loaded_row list" where
  "process_rows B rows =
     forEachE (\<lambda>data row. bindE (process_row B row) (\<lambda>r. Inr (data @ [r]))) rows []"

record cache_state =
  cachedData :: "loaded_row list option"
  cacheTime :: "int option"

definition CACHE_DURATION :: int where
  "CACHE_DURATION = 10 * 60 * 1000"

text \<open>\<^verbatim>\<open>cachedData && cacheTime && Date.now() - cacheTime < CACHE_DURATION\<close>\<close>

definition cache_valid :: "int \<Rightarrow> cache_state \<Rightarrow> bool" where
  "cache_valid now c =
     (case cachedData c of None \<Rightarrow> False
      | Some d \<Rightarrow> (case cacheTime c of None \<Rightarrow> False
                   | Some t \<Rightarrow> t \<noteq> 0 \<and> now - t < CACHE_DURATION))"

text \<open>
  \<^verbatim>\<open>loadData\<close>, called at clock value \<open>now\<close>; \<open>finished\<close> is the clock value
  read in the \<^verbatim>\<open>end\<close> handler. The cache is written in the \<^verbatim>\<open>end\<close> handler only.
\<close>

definition loadData ::
  "builtins \<Rightarrow> int \<Rightarrow> int \<Rightarrow> raw_row file_state \<Rightarrow> cache_state
     \<Rightarrow> loaded_row list settled \<times> cache_state" where
  "loadData B now finished file c =
     (case (if cache_valid now c then cachedData c else None) of
        Some d \<Rightarrow> (Resolved d, c)
      | None \<Rightarrow>
          (case file of
             Missing \<Rightarrow> (Exited, c)
           | Unreadable \<Rightarrow> (Exited, c)
           | Unparsable rows \<Rightarrow>
               (case process_rows B rows of Inl e \<Rightarrow> (Exited, c) | Inr data \<Rightarrow> (Rejected, c))
           | Readable rows \<Rightarrow>
               (case process_rows B rows of
                  Inl e \<Rightarrow> (Exited, c)
                | Inr data \<Rightarrow>
                    (Resolved data, \<lparr>cachedData = Some data, cacheTime = Some finished\<rparr>))))"

text \<open>What a request gets: a JSON body, an error status with a message, or nothing when
  the process has ended.\<close>

datatype 'a response = Json 'a | Failed nat string | NoResponse

text \<open>The route handler of \<^verbatim>\<open>/api/outages/summary\<close>: one \<^verbatim>\<open>try\<close> around the load
  and the computation.\<close>

definition get_outage_summary ::
  "builtins \<Rightarrow> int \<Rightarrow> int \<Rightarrow> raw_row file_state \<Rightarrow> summary_query \<Rightarrow> cache_state
     \<Rightarrow> summary_response response \<times> cache_state" where
  "get_outage_summary B now finished file q c =
     (case loadData B now finished file c of
        (Exited, c') \<Rightarrow> (NoResponse, c')
      | (Rejected, c') \<Rightarrow> (Failed 500 ''Failed to load outage summary'', c')
      | (Resolved data, c') \<Rightarrow>
          (case outage_summary B q (map src_row data) of
             Inl e \<Rightarrow> (Failed 500 ''Failed to load outage summary'', c')
           | Inr r \<Rightarrow> (Json r, c')))"

section \<open>The prototype backend that loads \<^verbatim>\<open>umm_area_outage_events.csv\<close>\<close>

record event_csv_row =
  csv_area :: "string option"
  csv_mw :: "string option"
  csv_status :: "string option"
  csv_publication_date :: "string option"
  csv_remarks :: "string option"

text \<open>The message built for a row: the fields that the statistics below read and the
  texts copied from the row. The numeric fields and the message type are left out.\<close>

record umm_message =
  message_id :: nat
  m_area_names :: string
  event_status :: string
  m_publication_date :: string
  message_text :: string

definition or_empty :: "string option \<Rightarrow> string" where
  "or_empty v = (case v of None \<Rightarrow> [] | Some s \<Rightarrow> s)"

text \<open>\<^verbatim>\<open>row.status || 'Unknown'\<close>\<close>

definition or_unknown :: "string option \<Rightarrow> string" where
  "or_unknown v = (case v of None \<Rightarrow> ''Unknown'' | Some s \<Rightarrow> if s = [] then ''Unknown'' else s)"

definition push_message :: "umm_message list \<Rightarrow> event_csv_row \<Rightarrow> umm_message list" where
  "push_message messages row =
     messages @
     [\<lparr>message_id = length messages + 1,
       m_area_names = or_empty (csv_area row),
       event_status = or_unknown (csv_status row),
       m_publication_date = or_empty (csv_publication_date row),
       message_text = or_empty (csv_remarks row)\<rparr>]"

text \<open>
  \<^verbatim>\<open>loadCSVData\<close>: \<^verbatim>\<open>if (!fs.existsSync(csvPath)) { console.error(...); resolve([]); return; }\<close>,
  then the same chain of streams and listeners as in \<^verbatim>\<open>loadData\<close>; the row handler
  does not throw.
\<close>

definition loadCSVData :: "event_csv_row file_state \<Rightarrow> umm_message list settled" where
  "loadCSVData file =
     (case file of
        Missing \<Rightarrow> Resolved []
      | Unreadable \<Rightarrow> Exited
      | Unparsable rows \<Rightarrow> Rejected
      | Readable rows \<Rightarrow> Resolved (foldl push_message [] rows))"

record server_state =
  ummMessages :: "umm_message list"
  dataLoaded :: bool

text \<open>\<^verbatim>\<open>initData\<close>, awaited before the server listens; \<open>None\<close> when the process has
  ended.\<close>

definition initData :: "event_csv_row file_state \<Rightarrow> server_state option" where
  "initData file =
     (case loadCSVData file of
        Resolved messages \<Rightarrow> Some \<lparr>ummMessages = messages, dataLoaded = True\<rparr>
      | Rejected \<Rightarrow> Some \<lparr>ummMessages = [], dataLoaded = False\<rparr>
      | Exited \<Rightarrow> None)"

record umm_stats =
  totalMessages :: nat
  activeOutages :: nat

definition is_active :: "umm_message \<Rightarrow> bool" where
  "is_active m = (event_status m = ''Active'' \<or> event_status m = ''Unplanned'')"

text \<open>\<^verbatim>\<open>/api/umm/stats\<close>, without its two capacity sums; the requests never start a
  load.\<close>

definition get_umm_stats :: "server_state \<Rightarrow> umm_stats response" where
  "get_umm_stats st =
     (if \<not> dataLoaded st then Failed 503 ''Data not loaded yet''
      else Json \<lparr>totalMessages = length (ummMessages st),
                 activeOutages = length (filter is_active (ummMessages st))\<rparr>)"

section \<open>\<^verbatim>\<open>/api/outages/area-events\<close> (server.js)\<close>

text \<open>
  The route reads \<^verbatim>\<open>umm_area_outage_events.csv\<close>, which has one row for each area
  of a message. The model starts from the rows that the parser has delivered.
\<close>

record csv_event =
  ce_area :: "string option"
  ce_mw :: rat
  ce_status :: "string option"
  ce_publicationDate :: "string option"
  ce_remarks :: "string option"

text \<open>\<^verbatim>\<open>parseFloat(data.mw) || 0\<close>\<close>

definition parseFloat_or_zero :: "builtins \<Rightarrow> string option \<Rightarrow> rat" where
  "parseFloat_or_zero B v =
     (case v of None \<Rightarrow> 0 | Some s \<Rightarrow> (case parseFloat B s of None \<Rightarrow> 0 | Some q \<Rightarrow> q))"

definition results_of :: "builtins \<Rightarrow> event_csv_row list \<Rightarrow> csv_event list" where
  "results_of B rows =
     map (\<lambda>data. \<lparr>ce_area = csv_area data, ce_mw = parseFloat_or_zero B (csv_mw data),
                  ce_status = csv_status data, ce_publicationDate = csv_publication_date data,
                  ce_remarks = csv_remarks data\<rparr>) rows"

text \<open>The query of a request; a parameter is a string, or absent.\<close>

record area_query =
  aq_mwThreshold :: "string option"
  aq_status :: "string option"
  aq_areas :: "string option"

text \<open>\<^verbatim>\<open>const { mwThreshold = 400, status = 'Both', areas } = req.query\<close> and
  \<^verbatim>\<open>parseFloat(mwThreshold)\<close>; \<open>None\<close> is \<^verbatim>\<open>NaN\<close>.\<close>

definition threshold_of :: "builtins \<Rightarrow> area_query \<Rightarrow> rat option" where
  "threshold_of B q = (case aq_mwThreshold q of None \<Rightarrow> Some 400 | Some s \<Rightarrow> parseFloat B s)"

text \<open>\<^verbatim>\<open>event.mw >= parseFloat(mwThreshold)\<close>\<close>

definition reaches :: "rat option \<Rightarrow> csv_event \<Rightarrow> bool" where
  "reaches thr event = (case thr of None \<Rightarrow> False | Some t \<Rightarrow> t \<le> ce_mw event)"

definition filter_events :: "builtins \<Rightarrow> area_query \<Rightarrow> csv_event list \<Rightarrow> csv_event list" where
  "filter_events B q results =
     (let f1 = filter (reaches (threshold_of B q)) results;
          f2 = (case aq_status q of None \<Rightarrow> f1
                | Some s \<Rightarrow> if s \<noteq> ''Both'' then filter (\<lambda>event. ce_status event = Some s) f1
                            else f1)
      in (case aq_areas q of None \<Rightarrow> f2
          | Some a \<Rightarrow> if a \<noteq> []
                      then filter (\<lambda>event. case ce_area event of None \<Rightarrow> False
                                            | Some x \<Rightarrow> x \<in> set (split_comma a)) f2
                      else f2))"

record area_stat =
  st_area :: "string option"
  totalMW :: jsnum
  st_count :: nat

text \<open>The property key made of \<^verbatim>\<open>event.area\<close>.\<close>

definition area_key_of :: "string option \<Rightarrow> string" where
  "area_key_of a = (case a of None \<Rightarrow> ''undefined'' | Some s \<Rightarrow> s)"

text \<open>
  The \<^verbatim>\<open>areaStats\<close> loop. An inherited property is truthy, so no row is made for
  its name; the two updates then go to the inherited object and leave \<^verbatim>\<open>areaStats\<close>
  as it is.
\<close>

definition stats_add :: "area_stat js_object \<Rightarrow> csv_event \<Rightarrow> area_stat js_object" where
  "stats_add areaStats event =
     (let k = area_key_of (ce_area event);
          s1 = (case obj_lookup areaStats k of
                  Absent \<Rightarrow> obj_set areaStats k
                             \<lparr>st_area = ce_area event, totalMW = Fin 0, st_count = 0\<rparr>
                | _ \<Rightarrow> areaStats)
      in (case obj_lookup s1 k of
            Own r \<Rightarrow> obj_set s1 k (r\<lparr>totalMW := dadd (totalMW r) (ce_mw event),
                                     st_count := st_count r + 1\<rparr>)
          | _ \<Rightarrow> s1))"

definition areaStats_of :: "csv_event list \<Rightarrow> area_stat js_object" where
  "areaStats_of events = foldl stats_add [] events"

text \<open>\<^verbatim>\<open>Object.values(areaStats).sort((a, b) => b.totalMW - a.totalMW)\<close>; the totals
  are numbers other than \<^verbatim>\<open>NaN\<close>, on which the comparator is consistent.\<close>

definition area_summary :: "csv_event list \<Rightarrow> area_stat list" where
  "area_summary events = sort_key (\<lambda>r. jsnum_neg (totalMW r)) (obj_values (areaStats_of events))"

text \<open>The response, without the list of areas offered to the filter control.\<close>

record area_events_response =
  ae_events :: "csv_event list"
  ae_summary :: "area_stat list"
  ae_totalEvents :: nat

definition area_events :: "builtins \<Rightarrow> area_query \<Rightarrow> event_csv_row list \<Rightarrow> area_events_response" where
  "area_events B q rows =
     (let filtered = filter_events B q (results_of B rows)
      in \<lparr>ae_events = filtered, ae_summary = area_summary filtered,
           ae_totalEvents = length filtered\<rparr>)"

section \<open>\<^verbatim>\<open>/api/outages/area-events\<close> (server-sqlite.js)\<close>

text \<open>A row of the query result: \<^verbatim>\<open>area_names\<close> is the comma-separated list stored
  with the message, \<^verbatim>\<open>unavailable_mw\<close> a number or \<^verbatim>\<open>NULL\<close>.\<close>

record sqlite_row =
  db_area_names :: "string option"
  db_unavailable_mw :: "rat option"
  db_unavailability_type :: "string option"
  db_publication_date :: "string option"
  db_remarks :: "string option"

text \<open>\<^verbatim>\<open>trim\<close> removes white space at both ends; of the white space of the language
  the code units below 256 are modelled.\<close>

definition is_js_space :: "char \<Rightarrow> bool" where
  "is_js_space c = (c \<in> set [CHR 0x09, CHR 0x0A, CHR 0x0B, CHR 0x0C, CHR 0x0D, CHR 0x20, CHR 0xA0])"

definition trim :: "string \<Rightarrow> string" where
  "trim s = rev (dropWhile is_js_space (rev (dropWhile is_js_space s)))"

record db_event =
  ev_area :: string
  ev_mw :: jsnum
  ev_status :: planned_status
  ev_publicationDate :: "string option"
  ev_remarks :: "string option"
  ev_totalMessageMW :: rat
  ev_affectedAreas :: nat

text \<open>\<^verbatim>\<open>row.area_names ? row.area_names.split(',').map(a => a.trim()).filter(a => a) : []\<close>\<close>

definition areaList_of :: "sqlite_row \<Rightarrow> string list" where
  "areaList_of row =
     (case db_area_names row of None \<Rightarrow> []
      | Some s \<Rightarrow> if s = [] then [] else filter (\<lambda>a. a \<noteq> []) (map trim (split_comma s)))"

text \<open>\<^verbatim>\<open>areaList.length || 1\<close> and \<^verbatim>\<open>row.unavailable_mw || 0\<close>\<close>

definition numAreas_of :: "sqlite_row \<Rightarrow> nat" where
  "numAreas_of row = (if length (areaList_of row) = 0 then 1 else length (areaList_of row))"

definition message_mw :: "sqlite_row \<Rightarrow> rat" where
  "message_mw row = (case db_unavailable_mw row of None \<Rightarrow> 0 | Some m \<Rightarrow> if m = 0 then 0 else m)"

text \<open>\<^verbatim>\<open>(row.unavailable_mw || 0) / numAreas\<close>, a division of doubles.\<close>

definition mwPerArea :: "sqlite_row \<Rightarrow> jsnum" where
  "mwPerArea row = to_double (message_mw row / of_nat (numAreas_of row))"

definition eventStatus_of :: "sqlite_row \<Rightarrow> planned_status" where
  "eventStatus_of row =
     (if db_unavailability_type row = Some ''1'' then Planned
      else if db_unavailability_type row = Some ''2'' then Unplanned
      else Unknown)"

definition events_of_row :: "sqlite_row \<Rightarrow> db_event list" where
  "events_of_row row =
     map (\<lambda>a. \<lparr>ev_area = trim a, ev_mw = mwPerArea row, ev_status = eventStatus_of row,
               ev_publicationDate = db_publication_date row, ev_remarks = db_remarks row,
               ev_totalMessageMW = message_mw row, ev_affectedAreas = numAreas_of row\<rparr>)
         (areaList_of row)"

definition db_events :: "sqlite_row list \<Rightarrow> db_event list" where
  "db_events rows = foldl (\<lambda>events row. events @ events_of_row row) [] rows"

text \<open>A row of \<^verbatim>\<open>areaStats\<close>; the total is \<open>None\<close> when it is \<^verbatim>\<open>NaN\<close>.\<close>

record db_area_stat =
  db_area :: string
  db_totalMW :: "jsnum option"
  db_count :: nat

text \<open>The \<^verbatim>\<open>areaStats\<close> loop of the route, the same statements as in server.js.\<close>

definition db_stats_add :: "db_area_stat js_object \<Rightarrow> db_event \<Rightarrow> db_area_stat js_object" where
  "db_stats_add areaStats event =
     (let k = ev_area event;
          s1 = (case obj_lookup areaStats k of
                  Absent \<Rightarrow> obj_set areaStats k
                             \<lparr>db_area = ev_area event, db_totalMW = Some (Fin 0), db_count = 0\<rparr>
                | _ \<Rightarrow> areaStats)
      in (case obj_lookup s1 k of
            Own r \<Rightarrow> obj_set s1 k (r\<lparr>db_totalMW := nan_add (db_totalMW r) (ev_mw event),
                                     db_count := db_count r + 1\<rparr>)
          | _ \<Rightarrow> s1))"

definition db_areaStats_of :: "db_event list \<Rightarrow> db_area_stat js_object" where
  "db_areaStats_of events = foldl db_stats_add [] events"

section \<open>Sample documents and built-ins for the worked examples\<close>

definition doc_units_A :: string where
  \<open>doc_units_A = ''[{"areaName":"NO2","timePeriods":[{"unavailableCapacity":120}]}]''\<close>

definition doc_two_periods :: string where
  \<open>doc_two_periods =
     ''[{"areaName":"NO2","timePeriods":[{"unavailableCapacity":120},{"unavailableCapacity":30}]}]''\<close>

definition doc_gen_NO1 :: string where
  \<open>doc_gen_NO1 = ''[{"areaName":"NO1"}]''\<close>

definition doc_area_SE3 :: string where
  \<open>doc_area_SE3 = ''{"name":"SE3"}''\<close>

definition doc_fraction :: string where
  \<open>doc_fraction = ''[{"timePeriods":[{"unavailableCapacity":120.25}]}]''\<close>

definition doc_true_capacity :: string where
  \<open>doc_true_capacity = ''[{"timePeriods":[{"unavailableCapacity":true}]}]''\<close>

definition doc_padded :: string where
  \<open>doc_padded = ''[{"areaName":" no2 "}]''\<close>

definition doc_null_item :: string where
  \<open>doc_null_item = ''[null]''\<close>

definition doc_area_B :: string where
  \<open>doc_area_B = ''[{"areaName":"B"}]''\<close>

definition doc_area_7 :: string where
  \<open>doc_area_7 = ''[{"areaName":"7"}]''\<close>

definition doc_area_proto :: string where
  \<open>doc_area_proto = ''[{"areaName":"__proto__"}]''\<close>

definition doc_own_toString :: string where
  \<open>doc_own_toString = ''[{"name":{"toString":1}},{"name":"A"}]''\<close>

definition doc_one_own_toString :: string where
  \<open>doc_one_own_toString = ''[{"name":{"toString":1}}]''\<close>

definition doc_broken :: string where
  \<open>doc_broken = ''[{"areaName":''\<close>

text \<open>The table gives \<^verbatim>\<open>JSON.parse\<close> on the sample documents; every other string is
  taken to be rejected. The other tables hold the few strings and numbers that the
  examples convert.\<close>

definition demo_builtins :: builtins where
  "demo_builtins =
     \<lparr>JSON_parse = map_of
        [(doc_units_A,
          JArr [JObj [(''areaName'', JStr ''NO2''),
                      (''timePeriods'', JArr [JObj [(''unavailableCapacity'', JNum 120)]])]]),
         (doc_two_periods,
          JArr [JObj [(''areaName'', JStr ''NO2''),
                      (''timePeriods'', JArr [JObj [(''unavailableCapacity'', JNum 120)],
                                              JObj [(''unavailableCapacity'', JNum 30)]])]]),
         (doc_gen_NO1, JArr [JObj [(''areaName'', JStr ''NO1'')]]),
         (doc_area_B, JArr [JObj [(''areaName'', JStr ''B'')]]),
         (doc_area_7, JArr [JObj [(''areaName'', JStr ''7'')]]),
         (doc_area_proto, JArr [JObj [(''areaName'', JStr ''__proto__'')]]),
         (doc_own_toString,
          JArr [JObj [(''name'', JObj [(''toString'', JNum 1)])], JObj [(''name'', JStr ''A'')]]),
         (doc_one_own_toString, JArr [JObj [(''name'', JObj [(''toString'', JNum 1)])]]),
         (doc_null_item, JArr [JNull]),
         (doc_padded, JArr [JObj [(''areaName'', JStr '' no2 '')]]),
         (doc_fraction,
          JArr [JObj [(''timePeriods'', JArr [JObj [(''unavailableCapacity'', JNum (481 / 4))]])]]),
         (doc_true_capacity,
          JArr [JObj [(''timePeriods'', JArr [JObj [(''unavailableCapacity'', JBool True)]])]]),
         (doc_area_SE3, JObj [(''name'', JStr ''SE3'')])],
      Number_toString = (\<lambda>q. if q = Fin 2024 then ''2024'' else ''0''),
      String_toNumber = (\<lambda>s. None),
      parseFloat = map_of [(''1'', 1), (''2'', 2), (''30'', 30), (''50'', 50), (''60'', 60),
                           (''80'', 80), (''100'', 100)],
      parseInt = map_of [(''1'', 1), (''2'', 2), (''3'', 3), (''-1'', - 1)],
      getFullYear = (\<lambda>d. if d = Some ''2024-03-01'' then Some 2024 else None),
      unspecified_order = (\<lambda>es. es)\<rparr>"

definition blank_row :: raw_row where
  "blank_row =
     \<lparr>areas_json = None, production_units_json = None, generation_units_json = None,
      transmission_units_json = None, message_type = None, unavailability_type = None,
      remarks = None, publication_date = None\<rparr>"

definition row_code1 :: raw_row where
  "row_code1 = blank_row\<lparr>unavailability_type := Some ''1'', remarks := Some ''Generator fault''\<rparr>"

definition row_code2 :: raw_row where
  "row_code2 = blank_row\<lparr>unavailability_type := Some ''2'', remarks := Some ''Planned work''\<rparr>"

definition row_both_keywords :: raw_row where
  "row_both_keywords = blank_row\<lparr>remarks := Some ''Emergency maintenance''\<rparr>"

definition row_failure :: raw_row where
  "row_failure = blank_row\<lparr>remarks := Some ''Turbine failure''\<rparr>"

definition row_no_keyword :: raw_row where
  "row_no_keyword = blank_row\<lparr>remarks := Some ''Reduced output''\<rparr>"

definition row_units_A :: raw_row where
  "row_units_A = blank_row\<lparr>production_units_json := Some doc_units_A, message_type := Some ''1'',
     unavailability_type := Some ''1'', publication_date := Some ''2024-03-01''\<rparr>"

definition row_two_areas :: raw_row where
  "row_two_areas = blank_row\<lparr>production_units_json := Some doc_units_A,
     generation_units_json := Some doc_gen_NO1, message_type := Some ''1'',
     unavailability_type := Some ''2'', publication_date := Some ''2024-03-01''\<rparr>"

definition row_all_broken :: raw_row where
  "row_all_broken = blank_row\<lparr>areas_json := Some doc_broken,
     production_units_json := Some doc_broken, generation_units_json := Some doc_broken,
     transmission_units_json := Some doc_broken, message_type := Some ''1'',
     publication_date := Some ''2024-03-01''\<rparr>"

definition row_two_periods :: raw_row where
  "row_two_periods = blank_row\<lparr>production_units_json := Some doc_two_periods\<rparr>"

definition row_fraction :: raw_row where
  "row_fraction = blank_row\<lparr>generation_units_json := Some doc_fraction\<rparr>"

definition row_true_capacity :: raw_row where
  "row_true_capacity = blank_row\<lparr>generation_units_json := Some doc_true_capacity\<rparr>"

definition row_padded :: raw_row where
  "row_padded = blank_row\<lparr>production_units_json := Some doc_padded\<rparr>"

definition row_null_item :: raw_row where
  "row_null_item = blank_row\<lparr>production_units_json := Some doc_null_item\<rparr>"

definition row_own_toString :: raw_row where
  "row_own_toString = blank_row\<lparr>areas_json := Some doc_own_toString\<rparr>"

definition row_one_own_toString :: raw_row where
  "row_one_own_toString = blank_row\<lparr>areas_json := Some doc_one_own_toString,
     message_type := Some ''1'', publication_date := Some ''2024-03-01''\<rparr>"

definition row_area_B :: raw_row where
  "row_area_B = blank_row\<lparr>production_units_json := Some doc_area_B, message_type := Some ''1'',
     publication_date := Some ''2024-03-01''\<rparr>"

definition row_area_7 :: raw_row where
  "row_area_7 = blank_row\<lparr>production_units_json := Some doc_area_7, message_type := Some ''1'',
     publication_date := Some ''2024-03-01''\<rparr>"

definition row_area_proto :: raw_row where
  "row_area_proto = blank_row\<lparr>production_units_json := Some doc_area_proto,
     message_type := Some ''1'', publication_date := Some ''2024-03-01''\<rparr>"

definition no_filter :: summary_query where
  "no_filter = \<lparr>q_year = None, q_areas = None, q_messageType = None, q_topN = None\<rparr>"

definition top_minus_one :: summary_query where
  "top_minus_one = no_filter\<lparr>q_topN := Some ''-1''\<rparr>"

definition scenario_C :: sqlite_row where
  "scenario_C = \<lparr>db_area_names = Some ''NO1,NO2'', db_unavailable_mw = Some 100,
     db_unavailability_type = Some ''2'', db_publication_date = Some ''2024-03-01'',
     db_remarks = None\<rparr>"

definition message_proto_NO1 :: sqlite_row where
  "message_proto_NO1 = scenario_C\<lparr>db_area_names := Some ''__proto__,NO1''\<rparr>"

definition empty_cache :: cache_state where
  "empty_cache = \<lparr>cachedData = None, cacheTime = None\<rparr>"

text \<open>Rows of the events file and queries of the threshold view.\<close>

definition event_row :: "string \<Rightarrow> string \<Rightarrow> event_csv_row" where
  "event_row a m = \<lparr>csv_area = Some a, csv_mw = Some m, csv_status = Some ''Unplanned'',
     csv_publication_date = Some ''2024-03-01'', csv_remarks = None\<rparr>"

definition default_query :: area_query where
  "default_query = \<lparr>aq_mwThreshold = None, aq_status = None, aq_areas = None\<rparr>"

definition threshold_50 :: area_query where
  "threshold_50 = default_query\<lparr>aq_mwThreshold := Some ''50''\<rparr>"

section \<open>Notions used to state the properties of the summaries\<close>

text \<open>The grouping tuple of a summary row.\<close>

definition grouping_key :: "summary_row \<Rightarrow> jsval \<times> int option \<times> string option \<times> planned_status" where
  "grouping_key r = (area r, year r, messageType r, plannedStatus r)"

text \<open>The count that the summary holds under a key, 0 when there is no such row.\<close>

definition count_at :: "summary_row js_object \<Rightarrow> string \<Rightarrow> nat" where
  "count_at S k = (case obj_get S k of None \<Rightarrow> 0 | Some r \<Rightarrow> count r)"

text \<open>A value that has a string form: every value but an object with a key
  \<^verbatim>\<open>toString\<close>, or an array that holds one.\<close>

definition convertible :: "builtins \<Rightarrow> jsval \<Rightarrow> bool" where
  "convertible B v = (\<not> isl (js_toString (Number_toString B) v))"

text \<open>The invariant of the summary object: its keys are distinct and every row lies under
  the key built from its own fields.\<close>

definition keyed :: "builtins \<Rightarrow> summary_row js_object \<Rightarrow> bool" where
  "keyed B S \<longleftrightarrow> distinct (map fst S) \<and>
     (\<forall>(k, r) \<in> set S.
        summary_key B (area r) (year r) (messageType r) (plannedStatus r) = Inr k)"

section \<open>Notions used to state the handling of undecodable sub-documents\<close>

text \<open>A field whose text \<^verbatim>\<open>JSON.parse\<close> rejects.\<close>

definition decode_fails :: "builtins \<Rightarrow> string option \<Rightarrow> bool" where
  "decode_fails B v = (case v of None \<Rightarrow> False | Some s \<Rightarrow> JSON_parse B s = None)"

text \<open>The row with every such field taken out.\<close>

definition drop_undecodable :: "builtins \<Rightarrow> string option \<Rightarrow> string option" where
  "drop_undecodable B v = (if decode_fails B v then None else v)"

definition without_undecodable :: "builtins \<Rightarrow> raw_row \<Rightarrow> raw_row" where
  "without_undecodable B row =
     row\<lparr>areas_json := drop_undecodable B (areas_json row),
         production_units_json := drop_undecodable B (production_units_json row),
         generation_units_json := drop_undecodable B (generation_units_json row),
         transmission_units_json := drop_undecodable B (transmission_units_json row)\<rparr>"

text \<open>What normalisation yields for a row without any decodable sub-document.\<close>

definition empty_normalised :: "raw_row \<Rightarrow> loaded_row" where
  "empty_normalised row =
     \<lparr>src_row = row, area_names = [], production_unit_names = [], generation_unit_names = [],
      capacity = \<lparr>installedMW = None, unavailableMW = None, availableMW = None\<rparr>\<rparr>"

section \<open>Notions used to state capacity and area extraction\<close>

text \<open>
  Capacity as the specification words it: the sum of \<^verbatim>\<open>unavailableCapacity\<close> over
  all time-period entries of all production and generation sub-units, a missing or
  non-numeric value counting 0, rounded to one decimal place.
\<close>

definition periods_of :: "jsval \<Rightarrow> jsval list" where
  "periods_of u = (case member u ''timePeriods'' of Inr (Some (JArr ps)) \<Rightarrow> ps | _ \<Rightarrow> [])"

definition numeric_capacity :: "jsval \<Rightarrow> rat" where
  "numeric_capacity p =
     (case member p ''unavailableCapacity'' of Inr (Some (JNum q)) \<Rightarrow> q | _ \<Rightarrow> 0)"

definition round1 :: "rat \<Rightarrow> rat" where
  "round1 q = (if q < 0 then - (of_int (round (- q * 10)) / 10)
               else of_int (round (q * 10)) / 10)"

definition capacityAffectedMw_spec :: "builtins \<Rightarrow> raw_row \<Rightarrow> rat" where
  "capacityAffectedMw_spec B row =
     round1 (sum_list (map numeric_capacity
       (concat (map periods_of (parseJSON B (production_units_json row)
                                @ parseJSON B (generation_units_json row))))))"

text \<open>A document without any object that has a key \<^verbatim>\<open>toString\<close>.\<close>

fun plain :: "jsval \<Rightarrow> bool"
  and plain_all :: "jsval list \<Rightarrow> bool"
  and plain_fields :: "(string \<times> jsval) list \<Rightarrow> bool" where
  "plain (JArr xs) = plain_all xs"
| "plain (JObj kvs) = plain_fields kvs"
| "plain JNull = True"
| "plain (JBool b) = True"
| "plain (JNum q) = True"
| "plain (JStr s) = True"
| "plain_all [] = True"
| "plain_all (x # xs) = (plain x \<and> plain_all xs)"
| "plain_fields [] = True"
| "plain_fields (kv # kvs) = (fst kv \<noteq> ''toString'' \<and> plain (snd kv) \<and> plain_fields kvs)"

text \<open>What \<^verbatim>\<open>extractCapacityInfo\<close> reads on one unit: the
  \<^verbatim>\<open>unavailableCapacity\<close> of the first time period, 0 when the period has none; nothing
  when the unit has no first time period.\<close>

definition first_period :: "jsval \<Rightarrow> jsval option" where
  "first_period u =
     (case member u ''timePeriods'' of
        Inr (Some t) \<Rightarrow>
          if truthy t
          then (case index0 t of Some p \<Rightarrow> if truthy p then Some p else None | None \<Rightarrow> None)
          else None
      | _ \<Rightarrow> None)"

definition first_period_value :: "jsval \<Rightarrow> jsval list" where
  "first_period_value u =
     (case first_period u of None \<Rightarrow> []
      | Some p \<Rightarrow> [case member p ''unavailableCapacity'' of Inr v \<Rightarrow> or_zero v
                                                           | Inl e \<Rightarrow> JNum 0])"

definition is_number :: "jsval \<Rightarrow> bool" where
  "is_number v = (case v of JNum q \<Rightarrow> True | _ \<Rightarrow> False)"

definition number_of :: "jsval \<Rightarrow> rat" where
  "number_of v = (case v of JNum q \<Rightarrow> q | _ \<Rightarrow> 0)"

definition first_period_capacity :: "jsval \<Rightarrow> rat list" where
  "first_period_capacity u = map number_of (first_period_value u)"

text \<open>The sum of a list of numbers as a loop of \<^verbatim>\<open>+=\<close> computes it from 0: in the order
  of the list, every addition rounded to a double.\<close>

definition double_sum :: "rat list \<Rightarrow> jsnum" where
  "double_sum qs = foldl dadd (Fin 0) qs"

text \<open>Every area once, in the order of first mention.\<close>

primrec first_seen :: "string list \<Rightarrow> string list" where
  "first_seen [] = []"
| "first_seen (k # ks) = k # removeAll k (first_seen ks)"

text \<open>
  Areas: the candidates in the order explicit areas, production units, generation units,
  transmission units (in, then out), each upper-cased and trimmed, the empty ones dropped,
  every area once, in the order of collection.
\<close>

definition string_prop :: "string \<Rightarrow> jsval \<Rightarrow> string list" where
  "string_prop k item = (case member item k of Inr (Some (JStr s)) \<Rightarrow> [s] | _ \<Rightarrow> [])"

definition area_candidates_spec :: "builtins \<Rightarrow> raw_row \<Rightarrow> string list" where
  "area_candidates_spec B row =
     concat (map (string_prop ''name'') (parseJSON B (areas_json row)))
     @ concat (map (string_prop ''areaName'') (parseJSON B (production_units_json row)))
     @ concat (map (string_prop ''areaName'') (parseJSON B (generation_units_json row)))
     @ concat (map (\<lambda>item. string_prop ''inAreaName'' item @ string_prop ''outAreaName'' item)
                 (parseJSON B (transmission_units_json row)))"

definition upper_char :: "char \<Rightarrow> char" where
  "upper_char c =
     (case map_of (zip ''abcdefghijklmnopqrstuvwxyz'' ''ABCDEFGHIJKLMNOPQRSTUVWXYZ'') c of
        None \<Rightarrow> c | Some u \<Rightarrow> u)"

definition toUpperCase :: "string \<Rightarrow> string" where
  "toUpperCase s = map upper_char s"

definition extractAreaNames_spec :: "builtins \<Rightarrow> raw_row \<Rightarrow> string list" where
  "extractAreaNames_spec B row =
     first_seen (filter (\<lambda>s. s \<noteq> [])
       (map (\<lambda>s. toUpperCase (trim s)) (area_candidates_spec B row)))"

text \<open>What \<^verbatim>\<open>extractAreaNames\<close> adds for one item: the property when it is truthy,
  as it is.\<close>

definition truthy_prop :: "string \<Rightarrow> jsval \<Rightarrow> jsval list" where
  "truthy_prop k item =
     (case member item k of Inr (Some v) \<Rightarrow> if truthy v then [v] else [] | _ \<Rightarrow> [])"

definition area_candidates :: "builtins \<Rightarrow> raw_row \<Rightarrow> jsval list" where
  "area_candidates B row =
     concat (map (truthy_prop ''name'') (parseJSON B (areas_json row)))
     @ concat (map (truthy_prop ''areaName'') (parseJSON B (production_units_json row)))
     @ concat (map (truthy_prop ''areaName'') (parseJSON B (generation_units_json row)))
     @ concat (map (\<lambda>item. truthy_prop ''inAreaName'' item @ truthy_prop ''outAreaName'' item)
                 (parseJSON B (transmission_units_json row)))"

section \<open>Notions used to state the ranking\<close>

text \<open>
  Top-N ranking as the specification words it: the areas in the order in which the
  grouped rows first mention them, each with its count summed over the other dimensions,
  sorted by descending total with ties left in that order, cut to N.
\<close>

definition area_key :: "builtins \<Rightarrow> summary_row \<Rightarrow> string" where
  "area_key B r = string_form B (area r)"

definition area_total :: "builtins \<Rightarrow> summary_row list \<Rightarrow> string \<Rightarrow> nat" where
  "area_total B rows a = sum_list (map count (filter (\<lambda>r. area_key B r = a) rows))"

definition topAreas_spec :: "builtins \<Rightarrow> nat \<Rightarrow> summary_row list \<Rightarrow> string list" where
  "topAreas_spec B n rows =
     take n (sort_key (\<lambda>a. - int (area_total B rows a)) (first_seen (map (area_key B) rows)))"

text \<open>How the keys of a dictionary grow: a new key goes to the end.\<close>

definition add_new :: "string list \<Rightarrow> string \<Rightarrow> string list" where
  "add_new acc k = (if k \<in> set acc then acc else acc @ [k])"

text \<open>The totals as a dictionary of counts, one more row added.\<close>

definition totals_plus :: "builtins \<Rightarrow> nat js_object \<Rightarrow> summary_row \<Rightarrow> nat js_object" where
  "totals_plus B T item =
     obj_set T (area_key B item)
       ((case obj_get T (area_key B item) of None \<Rightarrow> 0 | Some t \<Rightarrow> t) + count item)"

definition counts :: "nat js_object \<Rightarrow> tally js_object" where
  "counts T = map (\<lambda>p. (fst p, Count (snd p))) T"

section \<open>Notions used to state the area statistics\<close>

text \<open>The count and the capacity total that \<^verbatim>\<open>areaStats\<close> holds for an area; an area
  without a row has count 0 and total 0.\<close>

definition db_stat_count :: "db_area_stat js_object \<Rightarrow> string \<Rightarrow> nat" where
  "db_stat_count S a = (case obj_get S a of None \<Rightarrow> 0 | Some r \<Rightarrow> db_count r)"

definition db_stat_total :: "db_area_stat js_object \<Rightarrow> string \<Rightarrow> jsnum option" where
  "db_stat_total S a = (case obj_get S a of None \<Rightarrow> Some (Fin 0) | Some r \<Rightarrow> db_totalMW r)"

text \<open>The events of the threshold view of server.js that pass the filters and belong to
  the area with key \<open>a\<close>, in the order of the file.\<close>

definition events_in :: "builtins \<Rightarrow> area_query \<Rightarrow> event_csv_row list \<Rightarrow> string \<Rightarrow> csv_event list" where
  "events_in B q rows a =
     filter (\<lambda>e. area_key_of (ce_area e) = a) (filter_events B q (results_of B rows))"

text \<open>The row that stands for the events \<open>es\<close> of one area.\<close>

definition row_for :: "csv_event list \<Rightarrow> area_stat" where
  "row_for es =
     \<lparr>st_area = (case es of [] \<Rightarrow> None | e # _ \<Rightarrow> ce_area e),
      totalMW = double_sum (map ce_mw es), st_count = length es\<rparr>"

section \<open>\<^verbatim>\<open>parseJSON\<close> always yields a list\<close>

text \<open>
  Claim C10. \<^verbatim>\<open>parseJSON\<close> is a total function into lists. An absent or empty field,
  the string \<^verbatim>\<open>null\<close> and every string that \<^verbatim>\<open>JSON.parse\<close> rejects give the empty
  list; a string that decodes to an array gives that array; a string that decodes to an
  object, a number, a string or a boolean gives the list with that one value.
\<close>

theorem parseJSON_list_cases:
  "parseJSON B None = [] \<and> parseJSON B (Some []) = [] \<and> parseJSON B (Some ''null'') = []
   \<and> (JSON_parse B s1 = None \<longrightarrow> parseJSON B (Some s1) = [])
   \<and> (s2 \<noteq> [] \<and> s2 \<noteq> ''null'' \<and> JSON_parse B s2 = Some (JArr xs)
        \<longrightarrow> parseJSON B (Some s2) = xs)
   \<and> (s3 \<noteq> [] \<and> s3 \<noteq> ''null'' \<and> JSON_parse B s3 = Some v
        \<and> (v = JObj kvs \<or> v = JNum q \<or> v = JStr t \<or> v = JBool b)
        \<longrightarrow> parseJSON B (Some s3) = [v])"
  by (auto simp: parseJSON_def)

theorem parseJSON_list_cases_witness:
  "JSON_parse demo_builtins doc_broken = None
   \<and> parseJSON demo_builtins (Some doc_broken) = []
   \<and> doc_gen_NO1 \<noteq> [] \<and> doc_gen_NO1 \<noteq> ''null''
   \<and> JSON_parse demo_builtins doc_gen_NO1 = Some (JArr [JObj [(''areaName'', JStr ''NO1'')]])
   \<and> parseJSON demo_builtins (Some doc_gen_NO1) = [JObj [(''areaName'', JStr ''NO1'')]]
   \<and> doc_area_SE3 \<noteq> [] \<and> doc_area_SE3 \<noteq> ''null''
   \<and> JSON_parse demo_builtins doc_area_SE3 = Some (JObj [(''name'', JStr ''SE3'')])
   \<and> parseJSON demo_builtins (Some doc_area_SE3) = [JObj [(''name'', JStr ''SE3'')]]"
proof -
  have h: "JSON_parse demo_builtins doc_broken = None"
    "doc_gen_NO1 \<noteq> []" "doc_gen_NO1 \<noteq> ''null''"
    "JSON_parse demo_builtins doc_gen_NO1 = Some (JArr [JObj [(''areaName'', JStr ''NO1'')]])"
    "doc_area_SE3 \<noteq> []" "doc_area_SE3 \<noteq> ''null''"
    "JSON_parse demo_builtins doc_area_SE3 = Some (JObj [(''name'', JStr ''SE3'')])"
    by code_simp+
  show ?thesis
    using h parseJSON_list_cases [of demo_builtins doc_broken doc_gen_NO1
      "[JObj [(''areaName'', JStr ''NO1'')]]" doc_area_SE3
      "JObj [(''name'', JStr ''SE3'')]" "[(''name'', JStr ''SE3'')]"]
    by blast
qed

section \<open>Classification: first match wins\<close>

lemma breakdown_foldl:
  "foldl (breakdown_step B) bd rows =
     \<lparr>nPlanned = nPlanned bd + length (filter (\<lambda>r. plannedStatus_of B r = Planned) rows),
      nUnplanned = nUnplanned bd + length (filter (\<lambda>r. plannedStatus_of B r = Unplanned) rows),
      nUnknown = nUnknown bd + length (filter (\<lambda>r. plannedStatus_of B r = Unknown) rows)\<rparr>"
proof (induction rows arbitrary: bd)
  case Nil
  then show ?case by simp
next
  case (Cons r rows)
  show ?case
    unfolding foldl_Cons Cons.IH
    by (simp add: breakdown_step_def plannedStatus_of_def Let_def)
qed

lemma status_partition:
  "length (filter (\<lambda>r. f r = Planned) rows) + length (filter (\<lambda>r. f r = Unplanned) rows)
     + length (filter (\<lambda>r. f r = Unknown) rows) = length rows"
proof (induction rows)
  case Nil
  then show ?case by simp
next
  case (Cons r rows)
  then show ?case by (cases "f r") simp_all
qed

lemma plannedStatus_spec:
  "plannedStatus_of B row = classifyStatus_spec (unavailabilityType B row) (or_empty (remarks row))"
  by (simp add: plannedStatus_of_def classifyStatus_spec_def remarks_lower_def or_empty_def
      list_ex_iff)

text \<open>
  Claim C2. The classification tests its rules in a fixed order and the first match wins:
  code 1 gives Planned and code 2 gives Unplanned whatever the remarks say; otherwise a
  planned keyword in the lower-cased remarks gives Planned, even when an unplanned keyword
  occurs too; otherwise an unplanned keyword gives Unplanned; otherwise the status is
  Unknown. The code agrees with the rules as the specification words them, the counters
  of the unit view count the same classification, and the three counters add up to the
  number of messages: every message has exactly one label.
\<close>

theorem classifyStatus_first_match:
  "(unavailabilityType B r1 = Some 1 \<longrightarrow> plannedStatus_of B r1 = Planned)
   \<and> (unavailabilityType B r2 = Some 2 \<longrightarrow> plannedStatus_of B r2 = Unplanned)
   \<and> (unavailabilityType B r3 \<noteq> Some 1 \<and> unavailabilityType B r3 \<noteq> Some 2
        \<and> list_ex (includes_str (remarks_lower r3)) plannedKeywords
        \<longrightarrow> plannedStatus_of B r3 = Planned)
   \<and> (unavailabilityType B r4 \<noteq> Some 1 \<and> unavailabilityType B r4 \<noteq> Some 2
        \<and> \<not> list_ex (includes_str (remarks_lower r4)) plannedKeywords
        \<and> list_ex (includes_str (remarks_lower r4)) unplannedKeywords
        \<longrightarrow> plannedStatus_of B r4 = Unplanned)
   \<and> (unavailabilityType B r5 \<noteq> Some 1 \<and> unavailabilityType B r5 \<noteq> Some 2
        \<and> \<not> list_ex (includes_str (remarks_lower r5)) plannedKeywords
        \<and> \<not> list_ex (includes_str (remarks_lower r5)) unplannedKeywords
        \<longrightarrow> plannedStatus_of B r5 = Unknown)
   \<and> plannedStatus_of B row
        = classifyStatus_spec (unavailabilityType B row) (or_empty (remarks row))
   \<and> plannedUnplannedBreakdown B rows =
        \<lparr>nPlanned = length (filter (\<lambda>r. plannedStatus_of B r = Planned) rows),
         nUnplanned = length (filter (\<lambda>r. plannedStatus_of B r = Unplanned) rows),
         nUnknown = length (filter (\<lambda>r. plannedStatus_of B r = Unknown) rows)\<rparr>
   \<and> nPlanned (plannedUnplannedBreakdown B rows) + nUnplanned (plannedUnplannedBreakdown B rows)
        + nUnknown (plannedUnplannedBreakdown B rows) = length rows"
proof -
  have counts: "plannedUnplannedBreakdown B rows =
        \<lparr>nPlanned = length (filter (\<lambda>r. plannedStatus_of B r = Planned) rows),
         nUnplanned = length (filter (\<lambda>r. plannedStatus_of B r = Unplanned) rows),
         nUnknown = length (filter (\<lambda>r. plannedStatus_of B r = Unknown) rows)\<rparr>"
    by (simp add: plannedUnplannedBreakdown_def breakdown_foldl)
  have total: "nPlanned (plannedUnplannedBreakdown B rows)
        + nUnplanned (plannedUnplannedBreakdown B rows)
        + nUnknown (plannedUnplannedBreakdown B rows) = length rows"
    unfolding counts using status_partition [of "plannedStatus_of B" rows] by simp
  have rules: "(unavailabilityType B r1 = Some 1 \<longrightarrow> plannedStatus_of B r1 = Planned)
     \<and> (unavailabilityType B r2 = Some 2 \<longrightarrow> plannedStatus_of B r2 = Unplanned)"
    by (simp add: plannedStatus_of_def)
  have words: "plannedStatus_of B r3 = Planned"
    if "unavailabilityType B r3 \<noteq> Some 1" "unavailabilityType B r3 \<noteq> Some 2"
       "list_ex (includes_str (remarks_lower r3)) plannedKeywords"
    using that by (simp add: plannedStatus_of_def)
  have words2: "plannedStatus_of B r4 = Unplanned"
    if "unavailabilityType B r4 \<noteq> Some 1" "unavailabilityType B r4 \<noteq> Some 2"
       "\<not> list_ex (includes_str (remarks_lower r4)) plannedKeywords"
       "list_ex (includes_str (remarks_lower r4)) unplannedKeywords"
    using that by (simp add: plannedStatus_of_def)
  have words3: "plannedStatus_of B r5 = Unknown"
    if "unavailabilityType B r5 \<noteq> Some 1" "unavailabilityType B r5 \<noteq> Some 2"
       "\<not> list_ex (includes_str (remarks_lower r5)) plannedKeywords"
       "\<not> list_ex (includes_str (remarks_lower r5)) unplannedKeywords"
    using that by (simp add: plannedStatus_of_def)
  show ?thesis
    using counts total rules words words2 words3 plannedStatus_spec [of B row] by blast
qed

theorem classifyStatus_first_match_witness:
  "unavailabilityType demo_builtins row_code1 = Some 1
   \<and> plannedStatus_of demo_builtins row_code1 = Planned
   \<and> unavailabilityType demo_builtins row_code2 = Some 2
   \<and> plannedStatus_of demo_builtins row_code2 = Unplanned
   \<and> unavailabilityType demo_builtins row_both_keywords = None
   \<and> list_ex (includes_str (remarks_lower row_both_keywords)) plannedKeywords
   \<and> list_ex (includes_str (remarks_lower row_both_keywords)) unplannedKeywords
   \<and> plannedStatus_of demo_builtins row_both_keywords = Planned
   \<and> unavailabilityType demo_builtins row_failure = None
   \<and> \<not> list_ex (includes_str (remarks_lower row_failure)) plannedKeywords
   \<and> list_ex (includes_str (remarks_lower row_failure)) unplannedKeywords
   \<and> plannedStatus_of demo_builtins row_failure = Unplanned
   \<and> unavailabilityType demo_builtins row_no_keyword = None
   \<and> \<not> list_ex (includes_str (remarks_lower row_no_keyword)) plannedKeywords
   \<and> \<not> list_ex (includes_str (remarks_lower row_no_keyword)) unplannedKeywords
   \<and> plannedStatus_of demo_builtins row_no_keyword = Unknown
   \<and> nPlanned (plannedUnplannedBreakdown demo_builtins
          [row_code1, row_code2, row_both_keywords, row_failure, row_no_keyword])
       + nUnplanned (plannedUnplannedBreakdown demo_builtins
          [row_code1, row_code2, row_both_keywords, row_failure, row_no_keyword])
       + nUnknown (plannedUnplannedBreakdown demo_builtins
          [row_code1, row_code2, row_both_keywords, row_failure, row_no_keyword]) = 5"
proof -
  have h: "unavailabilityType demo_builtins row_code1 = Some 1
     \<and> unavailabilityType demo_builtins row_code2 = Some 2
     \<and> unavailabilityType demo_builtins row_both_keywords = None
     \<and> list_ex (includes_str (remarks_lower row_both_keywords)) plannedKeywords
     \<and> list_ex (includes_str (remarks_lower row_both_keywords)) unplannedKeywords
     \<and> unavailabilityType demo_builtins row_failure = None
     \<and> \<not> list_ex (includes_str (remarks_lower row_failure)) plannedKeywords
     \<and> list_ex (includes_str (remarks_lower row_failure)) unplannedKeywords
     \<and> unavailabilityType demo_builtins row_no_keyword = None
     \<and> \<not> list_ex (includes_str (remarks_lower row_no_keyword)) plannedKeywords
     \<and> \<not> list_ex (includes_str (remarks_lower row_no_keyword)) unplannedKeywords"
    by code_simp
  show ?thesis
    using h classifyStatus_first_match [of demo_builtins row_code1 row_code2 row_both_keywords
      row_failure row_no_keyword row_both_keywords
      "[row_code1, row_code2, row_both_keywords, row_failure, row_no_keyword]"]
    by simp
qed

text \<open>The keyword \<^verbatim>\<open>unplanned\<close> contains \<^verbatim>\<open>planned\<close>, and the planned
  keywords are tested first: remarks that say "unplanned" and carry no code are Planned.\<close>

lemma unplanned_keyword_reads_planned:
  "plannedStatus_of demo_builtins (blank_row\<lparr>remarks := Some ''Unplanned trip due to fault''\<rparr>)
     = Planned"
  by code_simp

section \<open>Objects as dictionaries: lookup and update\<close>

lemma obj_get_set: "obj_get (obj_set obj k v) k' = (if k' = k then Some v else obj_get obj k')"
  by (induction obj) (auto simp: obj_get_def)

lemma keys_obj_set: "fst ` set (obj_set obj k v) = insert k (fst ` set obj)"
  by (induction obj) auto

lemma distinct_obj_set: "distinct (map fst obj) \<Longrightarrow> distinct (map fst (obj_set obj k v))"
proof (induction obj)
  case Nil
  then show ?case by simp
next
  case (Cons p ps)
  then show ?case by (auto simp: keys_obj_set)
qed

lemma obj_get_None_iff: "obj_get obj k = None \<longleftrightarrow> k \<notin> fst ` set obj"
  by (simp add: obj_get_def map_of_eq_None_iff)

lemma obj_get_Some_mem: "distinct (map fst obj) \<Longrightarrow> obj_get obj k = Some v \<longleftrightarrow> (k, v) \<in> set obj"
  by (simp add: obj_get_def)

lemma map_snd_keys: "(\<And>k e. (k, e) \<in> set L \<Longrightarrow> g e = k) \<Longrightarrow> map g (map snd L) = map fst L"
  by (induction L) auto

lemma distinct_map_sort_key:
  "distinct (map g xs) \<Longrightarrow> distinct (map g (sort_key f xs))"
  by (simp add: distinct_map)

lemma obj_set_twice: "obj_set (obj_set S k v) k w = obj_set S k w"
  by (induction S) auto

lemma set_obj_set: "set (obj_set S k v) \<subseteq> insert (k, v) (set S)"
  by (induction S) auto

lemma set_obj_entries: "set (obj_entries S) = set S"
  by (auto simp: obj_entries_def)

lemma distinct_obj_entries: "distinct S \<Longrightarrow> distinct (obj_entries S)"
  by (auto simp: obj_entries_def)

lemma distinct_map_entries: "distinct (map g S) \<Longrightarrow> distinct (map g (obj_entries S))"
  by (simp add: distinct_map set_obj_entries distinct_obj_entries)

lemma forEachE_append:
  "forEachE f (xs @ ys) s = (case forEachE f xs s of Inl e \<Rightarrow> Inl e | Inr s' \<Rightarrow> forEachE f ys s')"
  by (induction xs arbitrary: s) (auto split: sum.splits)


lemma obj_lookup_set:
  "obj_lookup (obj_set obj k v) k' = (if k' = k then Own v else obj_lookup obj k')"
  by (simp add: obj_lookup_def obj_get_set)

lemma obj_lookup_plain:
  "\<not> inherited k \<Longrightarrow> obj_lookup obj k = (case obj_get obj k of None \<Rightarrow> Absent | Some v \<Rightarrow> Own v)"
  by (simp add: obj_lookup_def split: option.splits)

lemma obj_lookup_inherited:
  "inherited k \<Longrightarrow> obj_get obj k = None \<Longrightarrow> obj_lookup obj k = Inherited"
  by (simp add: obj_lookup_def)

section \<open>String forms\<close>

lemma convertible_string: "convertible B (JStr s)"
  by (simp add: convertible_def)

lemma convertible_form:
  "convertible B v \<Longrightarrow> js_toString (Number_toString B) v = Inr (string_form B v)"
  by (cases "js_toString (Number_toString B) v") (simp_all add: convertible_def string_form_def)

lemma js_toString_convertible: "js_toString (Number_toString B) v = Inr s \<Longrightarrow> convertible B v"
  by (simp add: convertible_def)

lemma js_toString_form: "js_toString (Number_toString B) v = Inr s \<Longrightarrow> string_form B v = s"
  by (simp add: string_form_def)

lemma array_sort_convertible:
  "\<forall>v \<in> set xs. convertible B v \<Longrightarrow> array_sort B xs = Inr (sort_key (string_form B) xs)"
  by (auto simp: array_sort_def convertible_def list_ex_iff)

lemma array_sort_short: "length xs < 2 \<Longrightarrow> array_sort B xs = Inr (sort_key (string_form B) xs)"
  by (simp add: array_sort_def)

lemma array_sort_Nil: "array_sort B [] = Inr []"
  by (simp add: array_sort_def)

lemma array_sort_set: "array_sort B xs = Inr ys \<Longrightarrow> set ys = set xs"
  by (auto simp: array_sort_def split: if_splits)

section \<open>Undecodable sub-documents\<close>

lemma parseJSON_decode_fails: "decode_fails B v \<Longrightarrow> parseJSON B v = []"
  by (auto simp: decode_fails_def parseJSON_def split: option.splits)

lemma parseJSON_drop: "parseJSON B (drop_undecodable B v) = parseJSON B v"
  by (auto simp: drop_undecodable_def parseJSON_decode_fails) (simp add: parseJSON_def)

lemma extractAreaNames_drop:
  "extractAreaNames B (without_undecodable B row) = extractAreaNames B row"
  by (simp add: extractAreaNames_def collectAreaNames_def without_undecodable_def parseJSON_drop)

lemma extractCapacityInfo_drop:
  "extractCapacityInfo B (without_undecodable B row) = extractCapacityInfo B row"
  by (simp add: extractCapacityInfo_def without_undecodable_def parseJSON_drop)

lemma extractUnitNames_drop:
  "extractUnitNames B (drop_undecodable B v) = extractUnitNames B v"
  by (simp add: extractUnitNames_def parseJSON_drop)

lemma extractAreaNames_empty:
  assumes "parseJSON B (areas_json row) = []" "parseJSON B (production_units_json row) = []"
    "parseJSON B (generation_units_json row) = []" "parseJSON B (transmission_units_json row) = []"
  shows "extractAreaNames B row = Inr []"
  using assms by (simp add: extractAreaNames_def collectAreaNames_def bindE_def array_sort_Nil)

lemma extractUnitNames_empty: "parseJSON B v = [] \<Longrightarrow> extractUnitNames B v = Inr []"
  by (simp add: extractUnitNames_def bindE_def array_sort_Nil)

lemma extractCapacityInfo_empty:
  assumes "parseJSON B (production_units_json row) = []" "parseJSON B (generation_units_json row) = []"
  shows "extractCapacityInfo B row
           = Inr \<lparr>installedMW = None, unavailableMW = None, availableMW = None\<rparr>"
  using assms by (simp add: extractCapacityInfo_def bindE_def positive_or_null_def gt_zero_def jsnum_pos_def)

lemma process_row_empty:
  assumes "parseJSON B (areas_json row) = []" "parseJSON B (production_units_json row) = []"
    "parseJSON B (generation_units_json row) = []" "parseJSON B (transmission_units_json row) = []"
  shows "process_row B row = Inr (empty_normalised row)"
  using assms
  by (simp add: process_row_def extractAreaNames_empty extractUnitNames_empty
      extractCapacityInfo_empty bindE_def empty_normalised_def)

lemma forEachE_push_acc:
  "forEachE (\<lambda>data row. bindE (g row) (\<lambda>r. Inr (data @ [r]))) rows acc =
     bindE (forEachE (\<lambda>data row. bindE (g row) (\<lambda>r. Inr (data @ [r]))) rows [])
       (\<lambda>d. Inr (acc @ d))"
proof (induction rows arbitrary: acc)
  case Nil
  then show ?case by (simp add: bindE_def)
next
  case (Cons r rows)
  show ?case
  proof (cases "g r")
    case (Inl e)
    then show ?thesis by (simp add: bindE_def)
  next
    case (Inr x)
    then show ?thesis
      using Cons [of "acc @ [x]"] Cons [of "[x]"]
      by (simp add: bindE_def split: sum.splits)
  qed
qed

lemma process_rows_Cons:
  "process_rows B (r # rows) =
     bindE (process_row B r) (\<lambda>x. bindE (process_rows B rows) (\<lambda>d. Inr (x # d)))"
proof (cases "process_row B r")
  case (Inl e)
  then show ?thesis by (simp add: process_rows_def bindE_def)
next
  case (Inr x)
  let ?F = "\<lambda>data row. bindE (process_row B row) (\<lambda>r. Inr (data @ [r]))"
  have "forEachE ?F rows [x] = bindE (forEachE ?F rows []) (\<lambda>d. Inr ([x] @ d))"
    by (rule forEachE_push_acc)
  moreover have "forEachE ?F (r # rows) [] = forEachE ?F rows [x]"
    using Inr by (simp add: bindE_def)
  ultimately show ?thesis
    unfolding process_rows_def using Inr by (simp add: bindE_def)
qed

lemma process_rows_append:
  "process_rows B (xs @ ys) =
     bindE (process_rows B xs) (\<lambda>d1. bindE (process_rows B ys) (\<lambda>d2. Inr (d1 @ d2)))"
proof (induction xs)
  case Nil
  then show ?case by (simp add: process_rows_def bindE_def split: sum.splits)
next
  case (Cons x xs)
  show ?case
    unfolding append_Cons process_rows_Cons Cons
    by (simp add: bindE_def split: sum.splits)
qed

lemma process_row_drop:
  "process_row B row =
     map_sum id (\<lambda>r. r\<lparr>src_row := row\<rparr>) (process_row B (without_undecodable B row))"
proof -
  have p: "production_units_json (without_undecodable B row)
            = drop_undecodable B (production_units_json row)"
    and g: "generation_units_json (without_undecodable B row)
            = drop_undecodable B (generation_units_json row)"
    by (simp_all add: without_undecodable_def)
  show ?thesis
    unfolding process_row_def [of B "without_undecodable B row"] process_row_def [of B row]
      extractAreaNames_drop extractCapacityInfo_drop p g extractUnitNames_drop
    by (simp add: bindE_def split: sum.splits)
qed

text \<open>
  Claim C8. A sub-document that \<^verbatim>\<open>JSON.parse\<close> rejects yields the empty list, and
  the failure goes no further: the areas, the unit names and the capacity figures of a
  row are those of the same row with its undecodable fields taken out, and so is the
  outcome of normalising it. A row whose four sub-documents are all undecodable
  normalises to empty areas, empty unit names and no capacity; inside a dataset such a row
  takes its place in the result and the rows before and after it are loaded as they would
  be without it.
\<close>

theorem undecodable_subdocuments_absorbed:
  "(decode_fails B v \<longrightarrow> parseJSON B v = [])
   \<and> extractAreaNames B (without_undecodable B row) = extractAreaNames B row
   \<and> extractUnitNames B (drop_undecodable B v) = extractUnitNames B v
   \<and> extractCapacityInfo B (without_undecodable B row) = extractCapacityInfo B row
   \<and> process_row B row =
        map_sum id (\<lambda>r. r\<lparr>src_row := row\<rparr>) (process_row B (without_undecodable B row))
   \<and> (decode_fails B (areas_json bad) \<and> decode_fails B (production_units_json bad)
        \<and> decode_fails B (generation_units_json bad)
        \<and> decode_fails B (transmission_units_json bad)
        \<longrightarrow> process_row B bad = Inr (empty_normalised bad)
            \<and> (process_rows B pre = Inr d1 \<and> process_rows B post = Inr d2
                 \<longrightarrow> process_rows B (pre @ [bad] @ post)
                       = Inr (d1 @ [empty_normalised bad] @ d2)))"
proof -
  have one: "process_row B bad = Inr (empty_normalised bad)"
    if "decode_fails B (areas_json bad)" "decode_fails B (production_units_json bad)"
       "decode_fails B (generation_units_json bad)" "decode_fails B (transmission_units_json bad)"
    using that by (intro process_row_empty parseJSON_decode_fails)
  have all: "process_rows B (pre @ [bad] @ post) = Inr (d1 @ [empty_normalised bad] @ d2)"
    if "process_row B bad = Inr (empty_normalised bad)"
       "process_rows B pre = Inr d1" "process_rows B post = Inr d2"
    using that by (simp add: process_rows_append process_rows_Cons bindE_def)
  show ?thesis
    using one all parseJSON_decode_fails [of B v] extractAreaNames_drop [of B row]
      extractUnitNames_drop [of B v] extractCapacityInfo_drop [of B row]
      process_row_drop [of B row]
    by blast
qed

theorem undecodable_subdocuments_absorbed_witness:
  "decode_fails demo_builtins (Some doc_broken)
   \<and> parseJSON demo_builtins (Some doc_broken) = []
   \<and> decode_fails demo_builtins (areas_json row_all_broken)
   \<and> decode_fails demo_builtins (production_units_json row_all_broken)
   \<and> decode_fails demo_builtins (generation_units_json row_all_broken)
   \<and> decode_fails demo_builtins (transmission_units_json row_all_broken)
   \<and> process_row demo_builtins row_all_broken = Inr (empty_normalised row_all_broken)
   \<and> process_rows demo_builtins [row_units_A] =
        Inr [\<lparr>src_row = row_units_A, area_names = [JStr ''NO2''], production_unit_names = [],
              generation_unit_names = [],
              capacity = \<lparr>installedMW = None, unavailableMW = Some (TNum (Fin 120)),
                          availableMW = None\<rparr>\<rparr>]
   \<and> process_rows demo_builtins [row_two_areas] =
        Inr [\<lparr>src_row = row_two_areas, area_names = [JStr ''NO1'', JStr ''NO2''],
              production_unit_names = [], generation_unit_names = [],
              capacity = \<lparr>installedMW = None, unavailableMW = Some (TNum (Fin 120)),
                          availableMW = None\<rparr>\<rparr>]
   \<and> process_rows demo_builtins ([row_units_A] @ [row_all_broken] @ [row_two_areas]) =
        Inr ([\<lparr>src_row = row_units_A, area_names = [JStr ''NO2''], production_unit_names = [],
               generation_unit_names = [],
               capacity = \<lparr>installedMW = None, unavailableMW = Some (TNum (Fin 120)),
                          availableMW = None\<rparr>\<rparr>]
             @ [empty_normalised row_all_broken]
             @ [\<lparr>src_row = row_two_areas, area_names = [JStr ''NO1'', JStr ''NO2''],
                 production_unit_names = [], generation_unit_names = [],
                 capacity = \<lparr>installedMW = None, unavailableMW = Some (TNum (Fin 120)),
                          availableMW = None\<rparr>\<rparr>])"
proof -
  have h: "decode_fails demo_builtins (Some doc_broken)"
    "decode_fails demo_builtins (areas_json row_all_broken)"
    "decode_fails demo_builtins (production_units_json row_all_broken)"
    "decode_fails demo_builtins (generation_units_json row_all_broken)"
    "decode_fails demo_builtins (transmission_units_json row_all_broken)"
    by code_simp+
  have d1: "process_rows demo_builtins [row_units_A] =
        Inr [\<lparr>src_row = row_units_A, area_names = [JStr ''NO2''], production_unit_names = [],
              generation_unit_names = [],
              capacity = \<lparr>installedMW = None, unavailableMW = Some (TNum (Fin 120)),
                          availableMW = None\<rparr>\<rparr>]"
    by code_simp
  have d2: "process_rows demo_builtins [row_two_areas] =
        Inr [\<lparr>src_row = row_two_areas, area_names = [JStr ''NO1'', JStr ''NO2''],
              production_unit_names = [], generation_unit_names = [],
              capacity = \<lparr>installedMW = None, unavailableMW = Some (TNum (Fin 120)),
                          availableMW = None\<rparr>\<rparr>]"
    by code_simp
  show ?thesis
    using h d1 d2
      undecodable_subdocuments_absorbed [of demo_builtins "Some doc_broken" row_all_broken
        row_all_broken "[row_units_A]" _ "[row_two_areas]"]
    by blast
qed

section \<open>Capacity extraction\<close>

lemma member_not_null: "u \<noteq> JNull \<Longrightarrow> \<exists>v. member u k = Inr v"
  by (cases u) (simp_all add: member_def)

lemma truthy_not_null: "truthy p \<Longrightarrow> p \<noteq> JNull"
  by (cases p) simp_all

lemma plain_fields_keys: "plain_fields kvs \<Longrightarrow> ''toString'' \<notin> set (map fst kvs)"
  by (induction kvs) auto

lemma plain_toString:
  "plain v \<Longrightarrow> \<exists>s. js_toString ns v = Inr s"
  "plain_all xs \<Longrightarrow> \<exists>ss. elements_toString ns xs = Inr ss"
  "plain_fields kvs \<Longrightarrow> True"
proof (induction v and xs and kvs rule: plain_plain_all_plain_fields.induct)
  case (1 xs)
  then show ?case by auto
next
  case (2 kvs)
  then show ?case using plain_fields_keys [of kvs] by simp
next
  case (8 x xs)
  then show ?case by (cases "x = JNull") auto
qed simp_all

lemma plain_convertible: "plain v \<Longrightarrow> convertible B v"
  using plain_toString(1) [of v "Number_toString B"] by (auto simp: convertible_def)

lemma plain_fields_map_of: "plain_fields kvs \<Longrightarrow> map_of kvs k = Some x \<Longrightarrow> plain x"
  by (induction kvs) (auto split: if_splits)

lemma plain_member: "plain u \<Longrightarrow> member u k = Inr (Some x) \<Longrightarrow> plain x"
  by (cases u) (auto simp: member_def plain_fields_map_of)

lemma plain_index0: "plain t \<Longrightarrow> index0 t = Some p \<Longrightarrow> plain p"
  by (cases t) (auto simp: plain_fields_map_of split: list.splits)

lemma plain_or_zero: "(\<And>x. v = Some x \<Longrightarrow> plain x) \<Longrightarrow> plain (or_zero v)"
  by (auto simp: or_zero_def split: option.splits)

lemma js_plus_plain: "plain v \<Longrightarrow> \<exists>t'. js_plus ns t v = Inr t'"
proof -
  assume "plain v"
  then obtain s where "js_toString ns v = Inr s" using plain_toString(1) by blast
  then show ?thesis
    by (cases t; cases v) (simp_all add: js_plus_def bindE_def)
qed

lemma js_plus_number: "js_plus ns (TNum a) (JNum q) = Inr (TNum (dadd a q))"
  by (simp add: js_plus_def)

lemma fuel_key_plain: "(\<And>x. f = Some x \<Longrightarrow> plain x) \<Longrightarrow> fuel_key ns f = Inr ()"
  using plain_toString(1) [of _ ns]
  by (fastforce simp: fuel_key_def bindE_def split: option.splits)

lemma capacity_step_number:
  assumes "u \<noteq> JNull" "plain u" "list_all is_number (first_period_value u)"
    and "totalUnavailable acc = TNum a"
  shows "\<exists>acc'. capacity_step ns acc u = Inr acc'
           \<and> totalUnavailable acc' = TNum (foldl dadd a (first_period_capacity u))"
proof -
  from assms(1) obtain ic tp ft where
    ic: "member u ''installedCapacity'' = Inr ic" and tp: "member u ''timePeriods'' = Inr tp"
    and ft: "member u ''fuelType'' = Inr ft"
    using member_not_null by blast
  have "plain (or_zero ic)"
    by (rule plain_or_zero) (use plain_member [OF assms(2)] ic in auto)
  then obtain ti where ti: "js_plus ns (totalInstalled acc) (or_zero ic) = Inr ti"
    using js_plus_plain by blast
  have fk: "fuel_key ns ft = Inr ()"
    by (rule fuel_key_plain) (use plain_member [OF assms(2)] ft in auto)
  let ?acc1 = "acc\<lparr>totalInstalled := ti\<rparr>"
  have u1: "totalUnavailable ?acc1 = TNum a" using assms(4) by simp
  show ?thesis
  proof (cases "first_period u")
    case None
    then have "capacity_step ns acc u = Inr ?acc1"
      by (auto simp: capacity_step_def ic ti ft fk tp bindE_def first_period_def Let_def
          split: option.splits if_splits)
    moreover have "first_period_capacity u = []"
      using None by (simp add: first_period_capacity_def first_period_value_def)
    ultimately show ?thesis using u1 by simp
  next
    case (Some p)
    then obtain t where t: "tp = Some t" "truthy t" "index0 t = Some p" "truthy p"
      by (auto simp: first_period_def tp split: option.splits if_splits)
    have pp: "plain p"
      using plain_index0 [OF plain_member [OF assms(2)] t(3)] tp t(1) by simp
    from truthy_not_null [OF t(4)] obtain uv av where
      uv: "member p ''unavailableCapacity'' = Inr uv" and av: "member p ''availableCapacity'' = Inr av"
      using member_not_null by blast
    have fv: "first_period_value u = [or_zero uv]"
      by (simp add: first_period_value_def Some uv)
    with assms(3) obtain q where q: "or_zero uv = JNum q"
      by (cases "or_zero uv") (simp_all add: is_number_def)
    have "plain (or_zero av)"
      by (rule plain_or_zero) (use plain_member [OF pp] av in auto)
    then obtain ta where ta: "js_plus ns (totalAvailable ?acc1) (or_zero av) = Inr ta"
      using js_plus_plain by blast
    have "capacity_step ns acc u
            = Inr (?acc1\<lparr>totalUnavailable := TNum (dadd a q), totalAvailable := ta\<rparr>)"
      using ta
      by (simp add: capacity_step_def ic ti ft fk tp t uv av q assms(4) js_plus_number
          bindE_def Let_def)
    moreover have "first_period_capacity u = [q]"
      by (simp add: first_period_capacity_def fv q number_of_def)
    ultimately show ?thesis by simp
  qed
qed

lemma capacity_fold_number:
  assumes "\<forall>u \<in> set us. u \<noteq> JNull \<and> plain u \<and> list_all is_number (first_period_value u)"
    and "totalUnavailable acc = TNum a"
  shows "\<exists>acc'. forEachE (capacity_step ns) us acc = Inr acc'
           \<and> totalUnavailable acc' = TNum (foldl dadd a (concat (map first_period_capacity us)))"
  using assms
proof (induction us arbitrary: acc a)
  case Nil
  then show ?case by simp
next
  case (Cons u us)
  from Cons.prems obtain acc1 where a1: "capacity_step ns acc u = Inr acc1"
    "totalUnavailable acc1 = TNum (foldl dadd a (first_period_capacity u))"
    using capacity_step_number [of u acc a ns] by auto
  from Cons.IH [OF _ a1(2)] Cons.prems(1)
  obtain acc' where "forEachE (capacity_step ns) us acc1 = Inr acc'"
    "totalUnavailable acc' = TNum (foldl dadd (foldl dadd a (first_period_capacity u))
        (concat (map first_period_capacity us)))"
    by auto
  then show ?case using a1 by simp
qed

lemma extractCapacityInfo_first_periods:
  assumes "\<forall>u \<in> set (parseJSON B (production_units_json row)
                      @ parseJSON B (generation_units_json row)).
             u \<noteq> JNull \<and> plain u \<and> list_all is_number (first_period_value u)"
  shows "\<exists>info. extractCapacityInfo B row = Inr info
     \<and> unavailableMW info =
         (if jsnum_pos (double_sum (concat (map first_period_capacity
                     (parseJSON B (production_units_json row)
                      @ parseJSON B (generation_units_json row)))))
          then Some (TNum (double_sum (concat (map first_period_capacity
                     (parseJSON B (production_units_json row)
                      @ parseJSON B (generation_units_json row))))))
          else None)"
proof -
  let ?P = "parseJSON B (production_units_json row)"
  let ?G = "parseJSON B (generation_units_json row)"
  let ?a0 = "\<lparr>totalInstalled = TNum (Fin 0), totalUnavailable = TNum (Fin 0),
              totalAvailable = TNum (Fin 0)\<rparr>"
  from assms
  have p: "\<forall>u \<in> set ?P. u \<noteq> JNull \<and> plain u \<and> list_all is_number (first_period_value u)"
    and g: "\<forall>u \<in> set ?G. u \<noteq> JNull \<and> plain u \<and> list_all is_number (first_period_value u)"
    by auto
  from capacity_fold_number [OF p, of ?a0 "Fin 0" "Number_toString B"]
  obtain a1 where a1: "forEachE (capacity_step (Number_toString B)) ?P ?a0 = Inr a1"
    "totalUnavailable a1 = TNum (foldl dadd (Fin 0) (concat (map first_period_capacity ?P)))"
    by auto
  from capacity_fold_number [OF g a1(2), of "Number_toString B"]
  obtain a2 where a2: "forEachE (capacity_step (Number_toString B)) ?G a1 = Inr a2"
    "totalUnavailable a2 = TNum (foldl dadd (foldl dadd (Fin 0)
        (concat (map first_period_capacity ?P))) (concat (map first_period_capacity ?G)))"
    by auto
  show ?thesis
    by (simp add: extractCapacityInfo_def a1 a2 bindE_def positive_or_null_def gt_zero_def
        double_sum_def)
qed

text \<open>
  Claim C3, as the code has it. For every row whose production and generation sub-units
  are not \<^verbatim>\<open>null\<close>, hold no object with a key \<^verbatim>\<open>toString\<close> and have a number (or
  nothing) as the capacity of their first time period, the extracted capacity is the sum
  of the \<^verbatim>\<open>unavailableCapacity\<close> of the first time-period entry of each production and
  generation sub-unit that has one, a missing value counting 0. The sum is the one the
  loop computes: in the order of the document, in double arithmetic. It is not rounded to
  a decimal place, and the result is \<^verbatim>\<open>null\<close> when the sum is not positive.
\<close>

theorem first_period_capacity_sum:
  assumes "\<forall>u \<in> set (parseJSON B (production_units_json row)
                      @ parseJSON B (generation_units_json row)).
             u \<noteq> JNull \<and> plain u \<and> list_all is_number (first_period_value u)"
  shows "\<exists>info. extractCapacityInfo B row = Inr info
     \<and> unavailableMW info =
         (if jsnum_pos (double_sum (concat (map first_period_capacity
                     (parseJSON B (production_units_json row)
                      @ parseJSON B (generation_units_json row)))))
          then Some (TNum (double_sum (concat (map first_period_capacity
                     (parseJSON B (production_units_json row)
                      @ parseJSON B (generation_units_json row))))))
          else None)"
  using assms by (rule extractCapacityInfo_first_periods)

text \<open>
  The claim as the specification states it (all time periods, a value that is not a
  number counting 0, rounded to one decimal, 0 when nothing is derivable) fails: with
  periods of 120 and 30 the code yields 120, not 150; a capacity of 120.25 stays 120.25,
  not 120.3; a capacity of \<^verbatim>\<open>true\<close> counts 1; and a row without units yields
  \<^verbatim>\<open>null\<close>, not 0.
\<close>

theorem capacity_all_periods_counterexample:
  "extractCapacityInfo demo_builtins row_two_periods =
     Inr \<lparr>installedMW = None, unavailableMW = Some (TNum (Fin 120)), availableMW = None\<rparr>
   \<and> capacityAffectedMw_spec demo_builtins row_two_periods = 150
   \<and> extractCapacityInfo demo_builtins row_fraction =
     Inr \<lparr>installedMW = None, unavailableMW = Some (TNum (Fin (481 / 4))), availableMW = None\<rparr>
   \<and> capacityAffectedMw_spec demo_builtins row_fraction = 1203 / 10
   \<and> extractCapacityInfo demo_builtins row_true_capacity =
     Inr \<lparr>installedMW = None, unavailableMW = Some (TNum (Fin 1)), availableMW = None\<rparr>
   \<and> capacityAffectedMw_spec demo_builtins row_true_capacity = 0
   \<and> extractCapacityInfo demo_builtins blank_row =
     Inr \<lparr>installedMW = None, unavailableMW = None, availableMW = None\<rparr>
   \<and> capacityAffectedMw_spec demo_builtins blank_row = 0"
  by code_simp

theorem first_period_capacity_sum_witness:
  "list_all (\<lambda>u. u \<noteq> JNull \<and> plain u \<and> list_all is_number (first_period_value u))
       (parseJSON demo_builtins (production_units_json row_two_periods)
        @ parseJSON demo_builtins (generation_units_json row_two_periods))
   \<and> concat (map first_period_capacity
         (parseJSON demo_builtins (production_units_json row_two_periods)
          @ parseJSON demo_builtins (generation_units_json row_two_periods))) = [120]
   \<and> double_sum [120] = Fin 120
   \<and> (\<exists>info. extractCapacityInfo demo_builtins row_two_periods = Inr info
        \<and> unavailableMW info = Some (TNum (Fin 120)))"
proof -
  have l: "list_all (\<lambda>u. u \<noteq> JNull \<and> plain u \<and> list_all is_number (first_period_value u))
       (parseJSON demo_builtins (production_units_json row_two_periods)
        @ parseJSON demo_builtins (generation_units_json row_two_periods))"
    by code_simp
  then have h: "\<forall>u \<in> set (parseJSON demo_builtins (production_units_json row_two_periods)
                      @ parseJSON demo_builtins (generation_units_json row_two_periods)).
             u \<noteq> JNull \<and> plain u \<and> list_all is_number (first_period_value u)"
    by (simp only: list_all_iff)
  have s: "concat (map first_period_capacity
         (parseJSON demo_builtins (production_units_json row_two_periods)
          @ parseJSON demo_builtins (generation_units_json row_two_periods))) = [120]"
    by code_simp
  have d: "double_sum [120] = Fin 120" by code_simp
  have p: "jsnum_pos (Fin 120)" by code_simp
  show ?thesis
    using l s d first_period_capacity_sum [OF h] by (simp add: p)
qed

section \<open>Area extraction\<close>

lemma add_prop_not_null:
  "item \<noteq> JNull \<Longrightarrow> add_prop k areas item = Inr (foldl set_add areas (truthy_prop k item))"
  using member_not_null [of item k]
  by (auto simp: add_prop_def truthy_prop_def bindE_def split: option.splits)

lemma add_in_out_not_null:
  "item \<noteq> JNull \<Longrightarrow>
     add_in_out areas item =
       Inr (foldl set_add areas (truthy_prop ''inAreaName'' item @ truthy_prop ''outAreaName'' item))"
  by (simp add: add_in_out_def add_prop_not_null bindE_def)

lemma forEachE_foldl:
  assumes "\<And>acc x. x \<in> set xs \<Longrightarrow> f acc x = Inr (foldl g acc (h x))"
  shows "forEachE f xs acc = Inr (foldl g acc (concat (map h xs)))"
  using assms by (induction xs arbitrary: acc) simp_all

lemma collectAreaNames_candidates:
  assumes "\<forall>item \<in> set (parseJSON B (areas_json row) @ parseJSON B (production_units_json row)
              @ parseJSON B (generation_units_json row)
              @ parseJSON B (transmission_units_json row)). item \<noteq> JNull"
  shows "collectAreaNames B row = Inr (foldl set_add [] (area_candidates B row))"
proof -
  have a: "forEachE (add_prop ''name'') (parseJSON B (areas_json row)) acc =
      Inr (foldl set_add acc (concat (map (truthy_prop ''name'') (parseJSON B (areas_json row)))))"
    for acc
    by (rule forEachE_foldl) (use assms in \<open>auto simp: add_prop_not_null\<close>)
  have p: "forEachE (add_prop ''areaName'') (parseJSON B (production_units_json row)) acc =
      Inr (foldl set_add acc
        (concat (map (truthy_prop ''areaName'') (parseJSON B (production_units_json row)))))"
    for acc
    by (rule forEachE_foldl) (use assms in \<open>auto simp: add_prop_not_null\<close>)
  have g: "forEachE (add_prop ''areaName'') (parseJSON B (generation_units_json row)) acc =
      Inr (foldl set_add acc
        (concat (map (truthy_prop ''areaName'') (parseJSON B (generation_units_json row)))))"
    for acc
    by (rule forEachE_foldl) (use assms in \<open>auto simp: add_prop_not_null\<close>)
  have t: "forEachE add_in_out (parseJSON B (transmission_units_json row)) acc =
      Inr (foldl set_add acc
        (concat (map (\<lambda>item. truthy_prop ''inAreaName'' item @ truthy_prop ''outAreaName'' item)
            (parseJSON B (transmission_units_json row)))))"
    for acc
    by (rule forEachE_foldl) (use assms in \<open>auto simp: add_in_out_not_null\<close>)
  show ?thesis
    by (simp add: collectAreaNames_def a p g t bindE_def area_candidates_def)
qed

lemma set_foldl_set_add: "set (foldl set_add acc vs) = set acc \<union> set vs"
  by (induction vs arbitrary: acc) (auto simp: set_add_def)

lemma distinct_prims_set_add:
  "distinct (filter (\<lambda>v. \<not> is_reference v) acc)
     \<Longrightarrow> distinct (filter (\<lambda>v. \<not> is_reference v) (set_add acc v))"
  by (auto simp: set_add_def)

lemma distinct_prims_foldl:
  "distinct (filter (\<lambda>v. \<not> is_reference v) acc)
     \<Longrightarrow> distinct (filter (\<lambda>v. \<not> is_reference v) (foldl set_add acc vs))"
  by (induction vs arbitrary: acc) (simp_all add: distinct_prims_set_add)

text \<open>
  Claim C4, as the code has it. The candidates are collected in the order explicit areas,
  production units, generation units, transmission units (in, then out); a candidate is
  kept when it is truthy, as it is: it is neither upper-cased nor trimmed. For every row
  whose decoded sub-documents hold no \<^verbatim>\<open>null\<close> element and whose candidates have a
  string form (as every string has) the result is defined: it is the de-duplicated set of
  the candidates, sorted ascending by string comparison. For a row whose sub-documents are
  all absent or undecodable it is the empty list.
\<close>

theorem extractAreaNames_sorted_set:
  "((\<forall>item \<in> set (parseJSON B (areas_json row) @ parseJSON B (production_units_json row)
              @ parseJSON B (generation_units_json row)
              @ parseJSON B (transmission_units_json row)). item \<noteq> JNull)
     \<and> (\<forall>v \<in> set (area_candidates B row). convertible B v)
     \<longrightarrow> extractAreaNames B row
           = Inr (sort_key (string_form B) (foldl set_add [] (area_candidates B row)))
       \<and> (\<exists>areas. extractAreaNames B row = Inr areas
            \<and> set areas = set (area_candidates B row)
            \<and> distinct (filter (\<lambda>v. \<not> is_reference v) areas)
            \<and> sorted (map (string_form B) areas)))
   \<and> ((areas_json row0 = None \<or> decode_fails B (areas_json row0))
       \<and> (production_units_json row0 = None \<or> decode_fails B (production_units_json row0))
       \<and> (generation_units_json row0 = None \<or> decode_fails B (generation_units_json row0))
       \<and> (transmission_units_json row0 = None \<or> decode_fails B (transmission_units_json row0))
     \<longrightarrow> extractAreaNames B row0 = Inr [])"
proof -
  let ?S = "foldl set_add [] (area_candidates B row)"
  let ?R = "sort_key (string_form B) ?S"
  have main: "extractAreaNames B row = Inr ?R"
    if "\<forall>item \<in> set (parseJSON B (areas_json row) @ parseJSON B (production_units_json row)
              @ parseJSON B (generation_units_json row)
              @ parseJSON B (transmission_units_json row)). item \<noteq> JNull"
       "\<forall>v \<in> set (area_candidates B row). convertible B v"
  proof -
    have "\<forall>v \<in> set ?S. convertible B v" using that(2) by (simp add: set_foldl_set_add)
    then show ?thesis
      by (simp add: extractAreaNames_def collectAreaNames_candidates [OF that(1)] bindE_def
          array_sort_convertible)
  qed
  have s: "set ?R = set (area_candidates B row)"
    by (simp add: set_foldl_set_add)
  have "distinct (filter (\<lambda>v. \<not> is_reference v) ?S)"
    by (rule distinct_prims_foldl) simp
  then have d: "distinct (filter (\<lambda>v. \<not> is_reference v) ?R)"
    by (simp add: filter_sort)
  have o: "sorted (map (string_form B) ?R)"
    by (rule sorted_sort_key)
  have e: "parseJSON B v = []" if "v = None \<or> decode_fails B v" for v
    using that parseJSON_decode_fails [of B v] by (auto simp: parseJSON_def)
  have empty: "extractAreaNames B row0 = Inr []"
    if "areas_json row0 = None \<or> decode_fails B (areas_json row0)"
       "production_units_json row0 = None \<or> decode_fails B (production_units_json row0)"
       "generation_units_json row0 = None \<or> decode_fails B (generation_units_json row0)"
       "transmission_units_json row0 = None \<or> decode_fails B (transmission_units_json row0)"
    using that by (intro extractAreaNames_empty e)
  from main s d o empty show ?thesis by blast
qed

text \<open>
  The claim as the specification states it (upper-cased, trimmed, in collection order)
  fails: for a production unit in NO2 and a generation unit in NO1 the code returns NO1
  before NO2, and the padded lower-case name of a unit is returned unchanged.
\<close>

theorem area_collection_order_counterexample:
  "extractAreaNames demo_builtins row_two_areas = Inr [JStr ''NO1'', JStr ''NO2'']
   \<and> extractAreaNames_spec demo_builtins row_two_areas = [''NO2'', ''NO1'']
   \<and> extractAreaNames demo_builtins row_padded = Inr [JStr '' no2 '']
   \<and> extractAreaNames_spec demo_builtins row_padded = [''NO2'']"
  by code_simp

theorem extractAreaNames_sorted_set_witness:
  "list_all (\<lambda>item. item \<noteq> JNull)
       (parseJSON demo_builtins (areas_json row_two_areas)
        @ parseJSON demo_builtins (production_units_json row_two_areas)
        @ parseJSON demo_builtins (generation_units_json row_two_areas)
        @ parseJSON demo_builtins (transmission_units_json row_two_areas))
   \<and> area_candidates demo_builtins row_two_areas = [JStr ''NO2'', JStr ''NO1'']
   \<and> list_all (convertible demo_builtins) (area_candidates demo_builtins row_two_areas)
   \<and> extractAreaNames demo_builtins row_two_areas =
        Inr (sort_key (string_form demo_builtins)
               (foldl set_add [] (area_candidates demo_builtins row_two_areas)))
   \<and> sort_key (string_form demo_builtins)
        (foldl set_add [] (area_candidates demo_builtins row_two_areas))
        = [JStr ''NO1'', JStr ''NO2'']
   \<and> decode_fails demo_builtins (areas_json row_all_broken)
   \<and> decode_fails demo_builtins (production_units_json row_all_broken)
   \<and> decode_fails demo_builtins (generation_units_json row_all_broken)
   \<and> decode_fails demo_builtins (transmission_units_json row_all_broken)
   \<and> extractAreaNames demo_builtins row_all_broken = Inr []"
proof -
  have l: "list_all (\<lambda>item. item \<noteq> JNull)
       (parseJSON demo_builtins (areas_json row_two_areas)
        @ parseJSON demo_builtins (production_units_json row_two_areas)
        @ parseJSON demo_builtins (generation_units_json row_two_areas)
        @ parseJSON demo_builtins (transmission_units_json row_two_areas))"
    by code_simp
  then have h: "\<forall>item \<in> set (parseJSON demo_builtins (areas_json row_two_areas)
              @ parseJSON demo_builtins (production_units_json row_two_areas)
              @ parseJSON demo_builtins (generation_units_json row_two_areas)
              @ parseJSON demo_builtins (transmission_units_json row_two_areas)). item \<noteq> JNull"
    by (simp only: list_all_iff)
  have c: "list_all (convertible demo_builtins) (area_candidates demo_builtins row_two_areas)"
    by code_simp
  then have hc: "\<forall>v \<in> set (area_candidates demo_builtins row_two_areas).
      convertible demo_builtins v"
    by (simp only: list_all_iff)
  have v: "area_candidates demo_builtins row_two_areas = [JStr ''NO2'', JStr ''NO1'']"
    "sort_key (string_form demo_builtins)
        (foldl set_add [] (area_candidates demo_builtins row_two_areas))
        = [JStr ''NO1'', JStr ''NO2'']"
    "decode_fails demo_builtins (areas_json row_all_broken)"
    "decode_fails demo_builtins (production_units_json row_all_broken)"
    "decode_fails demo_builtins (generation_units_json row_all_broken)"
    "decode_fails demo_builtins (transmission_units_json row_all_broken)"
    by code_simp+
  show ?thesis
    using l h c hc v extractAreaNames_sorted_set [of demo_builtins row_two_areas row_all_broken]
    by blast
qed

text \<open>The two hypotheses are needed: reading a property of \<^verbatim>\<open>null\<close> throws, and so
  does the sort when one of two candidates is an object with a key \<^verbatim>\<open>toString\<close>. A
  single such candidate is returned: one element is not compared with anything.\<close>

lemma extractAreaNames_throws:
  "extractAreaNames demo_builtins row_null_item = Inl TypeError
   \<and> extractAreaNames demo_builtins row_own_toString = Inl TypeError
   \<and> extractAreaNames demo_builtins row_one_own_toString
       = Inr [JObj [(''toString'', JNum 1)]]"
  by code_simp

section \<open>The grouped summary\<close>

lemma summary_key_area:
  "summary_key B a y mt st = Inr k \<Longrightarrow> \<exists>s. js_toString (Number_toString B) a = Inr s"
  by (auto simp: summary_key_def bindE_def split: sum.splits)

lemma summary_key_convertible:
  "convertible B a \<Longrightarrow> \<exists>k. summary_key B a y mt st = Inr k"
  by (simp add: summary_key_def bindE_def convertible_form)

lemma summary_add_eq:
  "summary_key B a y mt st = Inr k \<Longrightarrow>
   summary_add B y mt st S a =
     Inr (obj_set S k
       (case obj_get S k of
          None \<Rightarrow> \<lparr>area = a, year = y, messageType = mt, plannedStatus = st, count = 1\<rparr>
        | Some r \<Rightarrow> r\<lparr>count := count r + 1\<rparr>))"
  by (simp add: summary_add_def bindE_def Let_def obj_get_set obj_set_twice split: option.splits)

lemma summary_add_key:
  "summary_add B y mt st S a = Inr S' \<Longrightarrow> \<exists>k. summary_key B a y mt st = Inr k"
  by (cases "summary_key B a y mt st") (simp_all add: summary_add_def bindE_def)

lemma keyed_add:
  assumes I: "keyed B S" and r: "summary_add B y mt st S a = Inr S'"
  shows "keyed B S'"
proof -
  from summary_add_key [OF r] obtain k where k: "summary_key B a y mt st = Inr k" by blast
  let ?v = "case obj_get S k of
          None \<Rightarrow> \<lparr>area = a, year = y, messageType = mt, plannedStatus = st, count = 1\<rparr>
        | Some r \<Rightarrow> r\<lparr>count := count r + 1\<rparr>"
  have S': "S' = obj_set S k ?v" using r summary_add_eq [OF k, of S] by simp
  have d: "distinct (map fst (obj_set S k ?v))"
    using I by (simp add: keyed_def distinct_obj_set)
  have v: "summary_key B (area ?v) (year ?v) (messageType ?v) (plannedStatus ?v) = Inr k"
  proof (cases "obj_get S k")
    case None
    then show ?thesis using k by simp
  next
    case (Some r)
    with I have "(k, r) \<in> set S" by (simp add: keyed_def obj_get_Some_mem)
    with I have "summary_key B (area r) (year r) (messageType r) (plannedStatus r) = Inr k"
      unfolding keyed_def by blast
    with Some show ?thesis by simp
  qed
  have "\<forall>(k', r) \<in> set (obj_set S k ?v).
          summary_key B (area r) (year r) (messageType r) (plannedStatus r) = Inr k'"
    using set_obj_set [of S k ?v] I v unfolding keyed_def by blast
  with d show ?thesis unfolding S' keyed_def by simp
qed

lemma keyed_forEach_add:
  "keyed B S \<Longrightarrow> forEachE (summary_add B y mt st) areas S = Inr S' \<Longrightarrow> keyed B S'"
proof (induction areas arbitrary: S)
  case Nil
  then show ?case by simp
next
  case (Cons a areas)
  then show ?case by (auto split: sum.splits dest: keyed_add)
qed

lemma keyed_step: "keyed B S \<Longrightarrow> summary_step B S row = Inr S' \<Longrightarrow> keyed B S'"
  by (auto simp: summary_step_def bindE_def split: sum.splits dest: keyed_forEach_add)

lemma keyed_forEach:
  "keyed B S \<Longrightarrow> forEachE (summary_step B) rows S = Inr S' \<Longrightarrow> keyed B S'"
proof (induction rows arbitrary: S)
  case Nil
  then show ?case by simp
next
  case (Cons r rows)
  then show ?case by (auto split: sum.splits dest: keyed_step)
qed

lemma keyed_build: "build_summary B rows = Inr S \<Longrightarrow> keyed B S"
  unfolding build_summary_def by (rule keyed_forEach [of B "[]"]) (simp_all add: keyed_def)

lemma keyed_convertible: "keyed B S \<Longrightarrow> (k, r) \<in> set S \<Longrightarrow> convertible B (area r)"
  unfolding keyed_def using summary_key_area js_toString_convertible by blast

lemma keyed_distinct_groups:
  assumes "keyed B S"
  shows "distinct (map (\<lambda>p. grouping_key (snd p)) S)"
proof -
  have "inj_on (\<lambda>p. grouping_key (snd p)) (set S)"
  proof (rule inj_onI)
    fix p q assume p: "p \<in> set S" and q: "q \<in> set S"
      and e: "grouping_key (snd p) = grouping_key (snd q)"
    from assms p have kp: "summary_key B (area (snd p)) (year (snd p))
        (messageType (snd p)) (plannedStatus (snd p)) = Inr (fst p)"
      unfolding keyed_def by (cases p) auto
    from assms q have kq: "summary_key B (area (snd q)) (year (snd q))
        (messageType (snd q)) (plannedStatus (snd q)) = Inr (fst q)"
      unfolding keyed_def by (cases q) auto
    from e kp kq have "fst p = fst q" by (simp add: grouping_key_def)
    moreover from assms have "inj_on fst (set S)"
      by (simp add: keyed_def distinct_map)
    ultimately show "p = q" using p q by (auto dest: inj_onD)
  qed
  moreover have "distinct S" using assms unfolding keyed_def by (auto dest: distinct_map [THEN iffD1])
  ultimately show ?thesis by (simp add: distinct_map)
qed

lemma totals_add_defined:
  "convertible B (area item) \<Longrightarrow> \<exists>T'. totals_add B T item = Inr T'"
  by (simp add: totals_add_def bindE_def convertible_form Let_def)

lemma areaTotals_defined:
  "\<forall>r \<in> set rows. convertible B (area r) \<Longrightarrow> \<exists>T'. forEachE (totals_add B) rows T = Inr T'"
proof (induction rows arbitrary: T)
  case Nil
  then show ?case by simp
next
  case (Cons r rows)
  then obtain T1 where "totals_add B T r = Inr T1" using totals_add_defined by fastforce
  with Cons show ?case by simp
qed

lemma topAreas_defined:
  "\<forall>r \<in> set rows. convertible B (area r) \<Longrightarrow> \<exists>top. topAreas_of B n rows = Inr top"
  using areaTotals_defined [of rows B "[]"]
  by (auto simp: topAreas_of_def areaTotals_of_def bindE_def)

section \<open>Uniqueness of the grouping tuple\<close>

lemma filterE_defined:
  "(\<And>x. x \<in> set xs \<Longrightarrow> \<exists>b. p x = Inr b)
     \<Longrightarrow> \<exists>ys. filterE p xs = Inr ys \<and> set ys \<subseteq> set xs"
proof (induction xs)
  case Nil
  then show ?case by simp
next
  case (Cons x xs)
  from Cons.prems obtain b where b: "p x = Inr b" by auto
  from Cons.IH Cons.prems obtain ys where ys: "filterE p xs = Inr ys" "set ys \<subseteq> set xs"
    by auto
  show ?case using b ys by (auto simp: bindE_def)
qed

lemma filter_rows_defined:
  assumes "\<And>row. row \<in> set data \<Longrightarrow> \<exists>as. extractAreaNames B row = Inr as"
  shows "\<exists>filtered. filter_rows B q data = Inr filtered \<and> set filtered \<subseteq> set data"
proof -
  define f1 where "f1 = filter (is_outage B) data"
  define f2 where "f2 = (case q_year q of None \<Rightarrow> f1
                | Some y \<Rightarrow> if y \<noteq> [] \<and> y \<noteq> ''all''
                            then filter (\<lambda>row. same_number (eventYear B row) (parseInt B y)) f1
                            else f1)"
  define f3 where "f3 = (case q_messageType q of None \<Rightarrow> f2
                | Some m \<Rightarrow> if m \<noteq> []
                            then filter (\<lambda>row. field_is_number (message_type row) (parseInt B m)) f2
                            else f2)"
  have s1: "set f1 \<subseteq> set data" by (auto simp: f1_def)
  have s2: "set f2 \<subseteq> set f1" by (auto simp: f2_def split: option.splits)
  have s3: "set f3 \<subseteq> set f2" by (auto simp: f3_def split: option.splits)
  have sub: "set f3 \<subseteq> set data" using s1 s2 s3 by blast
  have e: "filter_rows B q data =
      (case q_areas q of None \<Rightarrow> Inr f3
          | Some a \<Rightarrow> if a \<noteq> []
                      then filterE (\<lambda>row. bindE (extractAreaNames B row)
                               (\<lambda>rowAreas. Inr (list_ex (in_area_list (split_comma a)) rowAreas))) f3
                      else Inr f3)"
    by (simp only: filter_rows_def Let_def f1_def f2_def f3_def)
  show ?thesis
  proof (cases "\<exists>a. q_areas q = Some a \<and> a \<noteq> []")
    case True
    then obtain a where a: "q_areas q = Some a" "a \<noteq> []" by blast
    have "\<exists>ys. filterE (\<lambda>row. bindE (extractAreaNames B row)
              (\<lambda>rowAreas. Inr (list_ex (in_area_list (split_comma a)) rowAreas))) f3 = Inr ys
            \<and> set ys \<subseteq> set f3"
    proof (rule filterE_defined)
      fix x assume "x \<in> set f3"
      with sub assms obtain as where "extractAreaNames B x = Inr as" by blast
      then show "\<exists>b. bindE (extractAreaNames B x)
              (\<lambda>rowAreas. Inr (list_ex (in_area_list (split_comma a)) rowAreas)) = Inr b"
        by (simp add: bindE_def)
    qed
    then show ?thesis using a sub unfolding e by auto
  next
    case False
    then show ?thesis using sub unfolding e by (auto split: option.splits)
  qed
qed

lemma summary_adds_defined:
  "\<forall>a \<in> set areas. convertible B a
     \<Longrightarrow> \<exists>S'. forEachE (summary_add B y mt st) areas S = Inr S'"
proof (induction areas arbitrary: S)
  case Nil
  then show ?case by simp
next
  case (Cons a areas)
  then obtain k where "summary_key B a y mt st = Inr k"
    using summary_key_convertible by fastforce
  then obtain S1 where "summary_add B y mt st S a = Inr S1"
    using summary_add_eq by blast
  with Cons show ?case by simp
qed

lemma build_summary_defined:
  "(\<And>row. row \<in> set rows \<Longrightarrow>
       \<exists>as. extractAreaNames B row = Inr as \<and> (\<forall>a \<in> set as. convertible B a))
     \<Longrightarrow> \<exists>S'. forEachE (summary_step B) rows S = Inr S'"
proof (induction rows arbitrary: S)
  case Nil
  then show ?case by simp
next
  case (Cons r rows)
  from Cons.prems obtain as where
    as: "extractAreaNames B r = Inr as" "\<forall>a \<in> set as. convertible B a" by auto
  from summary_adds_defined [OF as(2), of "eventYear B r" "message_type r"
      "plannedStatus_of B r" S]
  obtain S1 where "summary_step B S r = Inr S1"
    by (auto simp: summary_step_def bindE_def as(1))
  moreover from Cons.IH [of S1] Cons.prems
  obtain S' where "forEachE (summary_step B) rows S1 = Inr S'" by fastforce
  ultimately show ?case by simp
qed

lemma outage_summary_defined:
  assumes "\<And>row. row \<in> set data \<Longrightarrow>
       \<exists>as. extractAreaNames B row = Inr as \<and> (\<forall>a \<in> set as. convertible B a)"
  shows "\<exists>resp. outage_summary B q data = Inr resp"
proof -
  have "\<exists>filtered. filter_rows B q data = Inr filtered \<and> set filtered \<subseteq> set data"
    by (rule filter_rows_defined) (use assms in blast)
  then obtain filtered where f: "filter_rows B q data = Inr filtered" "set filtered \<subseteq> set data"
    by blast
  have "\<exists>S'. forEachE (summary_step B) filtered [] = Inr S'"
    by (rule build_summary_defined) (use f(2) assms in blast)
  then obtain S' where b: "build_summary B filtered = Inr S'" by (auto simp: build_summary_def)
  have "\<forall>r \<in> set (obj_values S'). convertible B (area r)"
    using keyed_convertible [OF keyed_build [OF b]]
    by (auto simp: obj_values_def set_obj_entries)
  from topAreas_defined [OF this] obtain top where
    "topAreas_of B (topN_number B (q_topN q)) (obj_values S') = Inr top" by blast
  with f(1) b show ?thesis by (simp add: outage_summary_def bindE_def Let_def)
qed

lemma process_rows_loaded:
  "process_rows B rows = Inr loaded \<Longrightarrow>
     map src_row loaded = rows
     \<and> (\<forall>l \<in> set loaded. extractAreaNames B (src_row l) = Inr (area_names l))"
proof (induction rows arbitrary: loaded)
  case Nil
  then show ?case by (simp add: process_rows_def)
next
  case (Cons r rows)
  from Cons.prems obtain x d where x: "process_row B r = Inr x" "process_rows B rows = Inr d"
    "loaded = x # d"
    by (auto simp: process_rows_Cons bindE_def split: sum.splits)
  from x(1) have "src_row x = r \<and> extractAreaNames B r = Inr (area_names x)"
    by (auto simp: process_row_def bindE_def split: sum.splits)
  with Cons.IH [OF x(2)] x(3) show ?case by auto
qed

text \<open>
  Claim C9. Whatever the rows and the query are, no two rows of a summary have the same
  tuple (area, year, message type, planned status); and for every dataset that the loader
  has accepted, whose area names have string forms, and every query the route does
  produce such a summary.
\<close>

theorem summary_groups_unique:
  "(outage_summary B q data = Inr resp \<longrightarrow> distinct (map grouping_key (summary resp)))
   \<and> (process_rows B rows = Inr loaded
        \<and> (\<forall>l \<in> set loaded. \<forall>a \<in> set (area_names l). convertible B a)
        \<longrightarrow> (\<exists>r. outage_summary B q' (map src_row loaded) = Inr r
              \<and> distinct (map grouping_key (summary r))))"
proof -
  have u: "distinct (map grouping_key (summary resp))"
    if r: "outage_summary B q data = Inr resp" for q data resp
  proof -
    from r obtain filtered S where b: "build_summary B filtered = Inr S"
      and s: "summary resp = obj_values S"
      by (auto simp: outage_summary_def bindE_def Let_def split: sum.splits)
    from keyed_build [OF b] have "distinct (map (\<lambda>p. grouping_key (snd p)) S)"
      by (rule keyed_distinct_groups)
    then have "distinct (map (\<lambda>p. grouping_key (snd p)) (obj_entries S))"
      by (rule distinct_map_entries)
    then show ?thesis unfolding s obj_values_def by (simp add: o_def)
  qed
  have d: "\<exists>r. outage_summary B q' (map src_row loaded) = Inr r
              \<and> distinct (map grouping_key (summary r))"
    if p: "process_rows B rows = Inr loaded"
      and c: "\<forall>l \<in> set loaded. \<forall>a \<in> set (area_names l). convertible B a"
  proof -
    have "\<exists>r. outage_summary B q' (map src_row loaded) = Inr r"
    proof (rule outage_summary_defined)
      fix row assume "row \<in> set (map src_row loaded)"
      then obtain l where l: "l \<in> set loaded" "row = src_row l" by auto
      with process_rows_loaded [OF p] c
      show "\<exists>as. extractAreaNames B row = Inr as \<and> (\<forall>a \<in> set as. convertible B a)"
        by auto
    qed
    then show ?thesis using u by blast
  qed
  from u d show ?thesis by blast
qed

theorem summary_groups_unique_witness:
  "outage_summary demo_builtins no_filter [row_units_A, row_two_areas, row_units_A] =
     Inr \<lparr>summary =
        [\<lparr>area = JStr ''NO2'', year = Some 2024, messageType = Some ''1'',
            plannedStatus = Planned, count = 2\<rparr>,
         \<lparr>area = JStr ''NO1'', year = Some 2024, messageType = Some ''1'',
            plannedStatus = Unplanned, count = 1\<rparr>,
         \<lparr>area = JStr ''NO2'', year = Some 2024, messageType = Some ''1'',
            plannedStatus = Unplanned, count = 1\<rparr>],
        topAreas = [''NO2'', ''NO1''], totalRecords = 3\<rparr>
   \<and> distinct (map grouping_key
        [\<lparr>area = JStr ''NO2'', year = Some 2024, messageType = Some ''1'',
            plannedStatus = Planned, count = 2\<rparr>,
         \<lparr>area = JStr ''NO1'', year = Some 2024, messageType = Some ''1'',
            plannedStatus = Unplanned, count = 1\<rparr>,
         \<lparr>area = JStr ''NO2'', year = Some 2024, messageType = Some ''1'',
            plannedStatus = Unplanned, count = 1\<rparr>])
   \<and> process_rows demo_builtins [row_units_A] =
        Inr [\<lparr>src_row = row_units_A, area_names = [JStr ''NO2''], production_unit_names = [],
              generation_unit_names = [],
              capacity = \<lparr>installedMW = None, unavailableMW = Some (TNum (Fin 120)),
                          availableMW = None\<rparr>\<rparr>]
   \<and> convertible demo_builtins (JStr ''NO2'')
   \<and> (\<exists>r. outage_summary demo_builtins no_filter [row_units_A] = Inr r
          \<and> distinct (map grouping_key (summary r)))"
proof -
  let ?resp = "\<lparr>summary =
        [\<lparr>area = JStr ''NO2'', year = Some 2024, messageType = Some ''1'',
            plannedStatus = Planned, count = 2\<rparr>,
         \<lparr>area = JStr ''NO1'', year = Some 2024, messageType = Some ''1'',
            plannedStatus = Unplanned, count = 1\<rparr>,
         \<lparr>area = JStr ''NO2'', year = Some 2024, messageType = Some ''1'',
            plannedStatus = Unplanned, count = 1\<rparr>],
        topAreas = [''NO2'', ''NO1''], totalRecords = 3\<rparr>"
  let ?loaded = "[\<lparr>src_row = row_units_A, area_names = [JStr ''NO2''],
              production_unit_names = [], generation_unit_names = [],
              capacity = \<lparr>installedMW = None, unavailableMW = Some (TNum (Fin 120)),
                          availableMW = None\<rparr>\<rparr>]"
  have h: "outage_summary demo_builtins no_filter [row_units_A, row_two_areas, row_units_A] =
     Inr ?resp"
    by code_simp
  have p: "process_rows demo_builtins [row_units_A] = Inr ?loaded"
    by code_simp
  have c: "convertible demo_builtins (JStr ''NO2'')" by (rule convertible_string)
  show ?thesis
    using h p c
      summary_groups_unique [of demo_builtins no_filter
        "[row_units_A, row_two_areas, row_units_A]" ?resp "[row_units_A]" ?loaded no_filter]
    by simp
qed

text \<open>The hypothesis on the string forms is needed for the second part: a single area
  that is an object with a key \<^verbatim>\<open>toString\<close> passes the loader, whose sort compares
  nothing, and makes the template of the summary key throw; the route answers 500.\<close>

lemma summary_key_throws:
  "process_rows demo_builtins [row_one_own_toString] =
     Inr [\<lparr>src_row = row_one_own_toString, area_names = [JObj [(''toString'', JNum 1)]],
           production_unit_names = [], generation_unit_names = [],
           capacity = \<lparr>installedMW = None, unavailableMW = None, availableMW = None\<rparr>\<rparr>]
   \<and> outage_summary demo_builtins no_filter [row_one_own_toString] = Inl TypeError"
  by code_simp

section \<open>Top-N ranking\<close>

lemma keys_obj_set_list:
  "map fst (obj_set T k v) = (if k \<in> set (map fst T) then map fst T else map fst T @ [k])"
  by (induction T) auto

lemma set_first_seen: "set (first_seen ks) = set ks"
  by (induction ks) auto

lemma distinct_first_seen: "distinct (first_seen ks)"
  by (induction ks) (auto simp: set_first_seen distinct_removeAll)

lemma removeAll_filter_commute: "filter P (removeAll k xs) = removeAll k (filter P xs)"
  by (induction xs) auto

lemma filter_removeAll_mem:
  "k \<in> A \<Longrightarrow> filter (\<lambda>x. x \<notin> A) (removeAll k xs) = filter (\<lambda>x. x \<notin> A) xs"
  by (induction xs) auto

lemma filter_removeAll_other:
  "filter (\<lambda>x. x \<notin> A \<and> x \<noteq> k) xs = filter (\<lambda>x. x \<notin> A) (removeAll k xs)"
  by (induction xs) auto

lemma add_new_old: "k \<in> set acc \<Longrightarrow> add_new acc k = acc"
  by (simp add: add_new_def)

lemma add_new_fresh: "k \<notin> set acc \<Longrightarrow> add_new acc k = acc @ [k]"
  by (simp add: add_new_def)

lemma foldl_add_new:
  "foldl add_new acc ks = acc @ filter (\<lambda>k. k \<notin> set acc) (first_seen ks)"
proof (induction ks arbitrary: acc)
  case Nil
  then show ?case by simp
next
  case (Cons k ks)
  show ?case
  proof (cases "k \<in> set acc")
    case True
    then show ?thesis by (simp add: add_new_old Cons filter_removeAll_mem)
  next
    case False
    then show ?thesis
      by (simp add: add_new_fresh Cons conj_commute filter_removeAll_other [symmetric])
  qed
qed

lemma totals_keys:
  "map fst (foldl (totals_plus B) T rows) = foldl add_new (map fst T) (map (area_key B) rows)"
  by (induction rows arbitrary: T) (simp_all add: totals_plus_def keys_obj_set_list add_new_def)

lemma obj_get_Nil: "obj_get [] k = None"
  by (simp add: obj_get_def)

lemma area_total_Cons:
  "area_total B (r # rows) k = (if area_key B r = k then count r else 0) + area_total B rows k"
  by (simp add: area_total_def)

lemma area_total_Nil: "area_total B [] k = 0"
  by (simp add: area_total_def)

lemma area_total_absent: "k \<notin> area_key B ` set rows \<Longrightarrow> area_total B rows k = 0"
  by (induction rows) (auto simp: area_total_Cons area_total_Nil)

lemma totals_get:
  "obj_get (foldl (totals_plus B) T rows) k =
     (if k \<in> area_key B ` set rows
      then Some ((case obj_get T k of None \<Rightarrow> 0 | Some t \<Rightarrow> t) + area_total B rows k)
      else obj_get T k)"
proof (induction rows arbitrary: T)
  case Nil
  then show ?case by simp
next
  case (Cons r rows)
  have z: "area_total B rows (area_key B r) = 0" if "area_key B r \<notin> area_key B ` set rows"
    using that by (rule area_total_absent)
  show ?case
  proof (cases "k \<in> area_key B ` set rows")
    case True
    then show ?thesis
      unfolding foldl_Cons Cons
      by (simp add: totals_plus_def obj_get_set area_total_Cons split: option.splits)
  next
    case False
    then show ?thesis
      unfolding foldl_Cons Cons
      using z by (auto simp: totals_plus_def obj_get_set area_total_Cons area_total_absent
          split: option.splits)
  qed
qed

lemma totals_distinct: "distinct (map fst T) \<Longrightarrow> distinct (map fst (foldl (totals_plus B) T rows))"
  by (induction rows arbitrary: T) (simp_all add: totals_plus_def distinct_obj_set)

lemma assoc_from_keys:
  assumes "distinct (map fst L)" "\<And>k. k \<in> set (map fst L) \<Longrightarrow> obj_get L k = Some (f k)"
  shows "L = map (\<lambda>k. (k, f k)) (map fst L)"
proof -
  have "p = (fst p, f (fst p))" if "p \<in> set L" for p
  proof -
    from that assms(1) have "obj_get L (fst p) = Some (snd p)"
      by (simp add: obj_get_Some_mem)
    moreover from that have "obj_get L (fst p) = Some (f (fst p))"
      by (intro assms(2)) simp
    ultimately show ?thesis by (cases p) simp
  qed
  then show ?thesis by (simp add: map_idI comp_def)
qed

lemma areaTotals_first_seen:
  "foldl (totals_plus B) [] rows =
     map (\<lambda>k. (k, area_total B rows k)) (first_seen (map (area_key B) rows))"
proof -
  let ?T = "foldl (totals_plus B) [] rows"
  have k: "map fst ?T = first_seen (map (area_key B) rows)"
    by (simp add: totals_keys foldl_add_new)
  have d: "distinct (map fst ?T)" unfolding k by (rule distinct_first_seen)
  have g: "obj_get ?T a = Some (area_total B rows a)" if "a \<in> set (map fst ?T)" for a
    using that unfolding k set_first_seen
    by (simp add: totals_get obj_get_Nil)
  from assoc_from_keys [OF d g] show ?thesis unfolding k by simp
qed

lemma obj_entries_no_index:
  assumes "\<forall>p \<in> set T. \<not> is_array_index (fst p)"
  shows "obj_entries T = T"
proof -
  have "filter (\<lambda>p. is_array_index (fst p)) T = []" using assms by (simp add: filter_empty_conv)
  moreover have "filter (\<lambda>p. \<not> is_array_index (fst p)) T = T" using assms by simp
  ultimately show ?thesis by (simp add: obj_entries_def)
qed

lemma insort_key_map:
  "insort_key f (g x) (map g ys) = map g (insort_key (\<lambda>y. f (g y)) x ys)"
  by (induction ys) auto

lemma sort_key_map: "sort_key f (map g xs) = map g (sort_key (\<lambda>y. f (g y)) xs)"
  by (induction xs) (simp_all add: insort_key_map)

lemma obj_get_counts: "obj_get (counts T) k = map_option Count (obj_get T k)"
  by (induction T) (auto simp: counts_def obj_get_def)

lemma obj_set_counts: "obj_set (counts T) k (Count v) = counts (obj_set T k v)"
  by (induction T) (auto simp: counts_def)

lemma totals_add_counts:
  assumes "convertible B (area item)" "\<not> inherited (area_key B item)"
  shows "totals_add B (counts T) item = Inr (counts (totals_plus B T item))"
proof -
  let ?k = "area_key B item"
  have k: "js_toString (Number_toString B) (area item) = Inr ?k"
    using assms(1) by (simp add: convertible_form area_key_def)
  have l: "obj_lookup (counts T') ?k
             = (case obj_get T' ?k of None \<Rightarrow> Absent | Some v \<Rightarrow> Own (Count v))" for T'
    by (simp add: obj_lookup_plain [OF assms(2)] obj_get_counts split: option.splits)
  show ?thesis
  proof (cases "obj_get T ?k")
    case None
    have "totals_add B (counts T) item
            = Inr (obj_set (obj_set (counts T) ?k (Count 0)) ?k (Count (0 + count item)))"
      unfolding totals_add_def k bindE_def Let_def
      by (simp add: l None obj_set_counts obj_get_set)
    then show ?thesis
      by (simp add: obj_set_twice obj_set_counts totals_plus_def None)
  next
    case (Some v)
    have "totals_add B (counts T) item = Inr (obj_set (counts T) ?k (Count (v + count item)))"
      unfolding totals_add_def k bindE_def Let_def
      by (cases "v = 0") (simp_all add: l Some obj_set_counts obj_get_set obj_set_twice)
    then show ?thesis
      by (simp add: obj_set_counts totals_plus_def Some)
  qed
qed

lemma areaTotals_counts:
  assumes "\<forall>r \<in> set rows. convertible B (area r) \<and> \<not> inherited (area_key B r)"
  shows "forEachE (totals_add B) rows (counts T) = Inr (counts (foldl (totals_plus B) T rows))"
  using assms
proof (induction rows arbitrary: T)
  case Nil
  then show ?case by simp
next
  case (Cons r rows)
  then show ?case by (simp add: totals_add_counts)
qed

lemma topAreas_of_spec:
  assumes "0 \<le> n"
    and "\<forall>r \<in> set rows. convertible B (area r) \<and> \<not> inherited (area_key B r)"
    and "\<forall>r \<in> set rows. \<not> is_array_index (area_key B r)"
  shows "topAreas_of B (Some n) rows = Inr (topAreas_spec B (nat n) rows)"
proof -
  let ?ks = "first_seen (map (area_key B) rows)"
  let ?g = "\<lambda>k. (k, area_total B rows k)"
  let ?T = "foldl (totals_plus B) [] rows"
  have T: "?T = map ?g ?ks" by (rule areaTotals_first_seen)
  have A: "areaTotals_of B rows = Inr (counts ?T)"
    using areaTotals_counts [OF assms(2), of "[]"] by (simp add: areaTotals_of_def counts_def)
  have "\<forall>p \<in> set (counts ?T). \<not> is_array_index (fst p)"
    unfolding T using assms(3) by (auto simp: set_first_seen counts_def)
  then have e: "obj_entries (counts ?T) = counts ?T"
    by (rule obj_entries_no_index)
  have c: "list_all (\<lambda>e. is_count (snd e)) (counts ?T)"
    by (simp add: counts_def list_all_iff is_count_def)
  have m: "counts ?T = map (\<lambda>k. (k, Count (area_total B rows k))) ?ks"
    unfolding T by (simp add: counts_def comp_def)
  have "sort_key (\<lambda>e. - int (count_of (snd e))) (map (\<lambda>k. (k, Count (area_total B rows k))) ?ks)
          = map (\<lambda>k. (k, Count (area_total B rows k)))
              (sort_key (\<lambda>k. - int (area_total B rows k)) ?ks)"
    by (simp add: sort_key_map count_of_def)
  then have s: "sort_totals B (counts ?T)
          = map (\<lambda>k. (k, Count (area_total B rows k)))
              (sort_key (\<lambda>k. - int (area_total B rows k)) ?ks)"
    using c by (simp add: sort_totals_def m)
  show ?thesis
    using assms(1)
    by (simp add: topAreas_of_def A bindE_def e s slice0_def topAreas_spec_def take_map comp_def)
qed

lemma topAreas_spec_length:
  "length (topAreas_spec B m rows) = min m (card (area_key B ` set rows))"
proof -
  have "length (first_seen (map (area_key B) rows)) = card (set (first_seen (map (area_key B) rows)))"
    by (rule distinct_card [symmetric]) (rule distinct_first_seen)
  then show ?thesis by (simp add: topAreas_spec_def set_first_seen min.commute)
qed

lemma topAreas_spec_sorted:
  "sorted_wrt (\<lambda>a b. area_total B rows b \<le> area_total B rows a) (topAreas_spec B m rows)"
proof -
  let ?xs = "sort_key (\<lambda>a. - int (area_total B rows a)) (first_seen (map (area_key B) rows))"
  have "sorted (map (\<lambda>a. - int (area_total B rows a)) ?xs)" by (rule sorted_sort_key)
  then have "sorted (take m (map (\<lambda>a. - int (area_total B rows a)) ?xs))"
    by (rule sorted_wrt_take)
  then have "sorted (map (\<lambda>a. - int (area_total B rows a)) (take m ?xs))" by (simp add: take_map)
  then show ?thesis by (simp add: sorted_map topAreas_spec_def)
qed

text \<open>
  Claim C6, as the code has it. When the requested N is a number that is not negative and
  no area of the grouped result has a name that is an array index or the name of a
  property inherited from \<^verbatim>\<open>Object.prototype\<close>, the list of top areas is the ranking
  the specification describes: the areas in the order in which the grouped rows first
  mention them, each with its counts summed over the other dimensions, sorted by
  descending total with ties left in that order, and cut to N. Its length is the minimum
  of N and the number of distinct areas, and its totals descend.
\<close>

theorem topAreas_ranking:
  assumes "outage_summary B q data = Inr resp"
      and "topN_number B (q_topN q) = Some n" and "0 \<le> n"
      and "\<forall>r \<in> set (summary resp).
             \<not> is_array_index (area_key B r) \<and> \<not> inherited (area_key B r)"
  shows "topAreas resp = topAreas_spec B (nat n) (summary resp)
     \<and> length (topAreas resp) = min (nat n) (card (area_key B ` set (summary resp)))
     \<and> sorted_wrt (\<lambda>a b. area_total B (summary resp) b \<le> area_total B (summary resp) a)
          (topAreas resp)"
proof -
  from assms(1) obtain filtered S where b: "build_summary B filtered = Inr S"
    and s: "summary resp = obj_values S"
    and t: "topAreas_of B (topN_number B (q_topN q)) (summary resp) = Inr (topAreas resp)"
    by (auto simp: outage_summary_def bindE_def Let_def split: sum.splits)
  have c: "\<forall>r \<in> set (summary resp). convertible B (area r)"
    using keyed_convertible [OF keyed_build [OF b]]
    by (auto simp: s obj_values_def set_obj_entries)
  have "topAreas_of B (Some n) (summary resp) = Inr (topAreas_spec B (nat n) (summary resp))"
    by (rule topAreas_of_spec) (use assms(3,4) c in auto)
  with t assms(2) have "topAreas resp = topAreas_spec B (nat n) (summary resp)" by simp
  then show ?thesis
    using topAreas_spec_length [of B "nat n" "summary resp"]
      topAreas_spec_sorted [of B "summary resp" "nat n"] by simp
qed

text \<open>
  Without the provisos on N and on array indices the claim fails. The totals are kept in
  a plain object, whose keys that are array indices are enumerated before all others:
  with one message for area B followed by one for area 7 the tie is broken in favour of 7,
  not of the area seen first. And for N = -1 \<^verbatim>\<open>slice(0, -1)\<close> drops the last
  area: two distinct areas give a list of length 1.
\<close>

theorem top_areas_insertion_order_counterexample:
  "outage_summary demo_builtins no_filter [row_area_B, row_area_7] =
     Inr \<lparr>summary =
        [\<lparr>area = JStr ''B'', year = Some 2024, messageType = Some ''1'',
            plannedStatus = Unknown, count = 1\<rparr>,
         \<lparr>area = JStr ''7'', year = Some 2024, messageType = Some ''1'',
            plannedStatus = Unknown, count = 1\<rparr>],
        topAreas = [''7'', ''B''], totalRecords = 2\<rparr>
   \<and> topAreas_spec demo_builtins 10
        [\<lparr>area = JStr ''B'', year = Some 2024, messageType = Some ''1'',
            plannedStatus = Unknown, count = 1\<rparr>,
         \<lparr>area = JStr ''7'', year = Some 2024, messageType = Some ''1'',
            plannedStatus = Unknown, count = 1\<rparr>] = [''B'', ''7'']
   \<and> outage_summary demo_builtins top_minus_one [row_units_A, row_two_areas] =
     Inr \<lparr>summary =
        [\<lparr>area = JStr ''NO2'', year = Some 2024, messageType = Some ''1'',
            plannedStatus = Planned, count = 1\<rparr>,
         \<lparr>area = JStr ''NO1'', year = Some 2024, messageType = Some ''1'',
            plannedStatus = Unplanned, count = 1\<rparr>,
         \<lparr>area = JStr ''NO2'', year = Some 2024, messageType = Some ''1'',
            plannedStatus = Unplanned, count = 1\<rparr>],
        topAreas = [''NO2''], totalRecords = 2\<rparr>"
  by code_simp
theorem topAreas_ranking_witness:
  "outage_summary demo_builtins no_filter [row_units_A, row_two_areas, row_units_A] =
     Inr \<lparr>summary =
        [\<lparr>area = JStr ''NO2'', year = Some 2024, messageType = Some ''1'',
            plannedStatus = Planned, count = 2\<rparr>,
         \<lparr>area = JStr ''NO1'', year = Some 2024, messageType = Some ''1'',
            plannedStatus = Unplanned, count = 1\<rparr>,
         \<lparr>area = JStr ''NO2'', year = Some 2024, messageType = Some ''1'',
            plannedStatus = Unplanned, count = 1\<rparr>],
        topAreas = [''NO2'', ''NO1''], totalRecords = 3\<rparr>
   \<and> topN_number demo_builtins (q_topN no_filter) = Some 10 \<and> (0::int) \<le> 10
   \<and> list_all (\<lambda>r. \<not> is_array_index (area_key demo_builtins r)
                    \<and> \<not> inherited (area_key demo_builtins r))
        [\<lparr>area = JStr ''NO2'', year = Some 2024, messageType = Some ''1'',
            plannedStatus = Planned, count = 2\<rparr>,
         \<lparr>area = JStr ''NO1'', year = Some 2024, messageType = Some ''1'',
            plannedStatus = Unplanned, count = 1\<rparr>,
         \<lparr>area = JStr ''NO2'', year = Some 2024, messageType = Some ''1'',
            plannedStatus = Unplanned, count = 1\<rparr>]
   \<and> topAreas_spec demo_builtins (nat 10)
        [\<lparr>area = JStr ''NO2'', year = Some 2024, messageType = Some ''1'',
            plannedStatus = Planned, count = 2\<rparr>,
         \<lparr>area = JStr ''NO1'', year = Some 2024, messageType = Some ''1'',
            plannedStatus = Unplanned, count = 1\<rparr>,
         \<lparr>area = JStr ''NO2'', year = Some 2024, messageType = Some ''1'',
            plannedStatus = Unplanned, count = 1\<rparr>] = [''NO2'', ''NO1'']"
proof -
  let ?rows = "[\<lparr>area = JStr ''NO2'', year = Some 2024, messageType = Some ''1'',
            plannedStatus = Planned, count = 2\<rparr>,
         \<lparr>area = JStr ''NO1'', year = Some 2024, messageType = Some ''1'',
            plannedStatus = Unplanned, count = 1\<rparr>,
         \<lparr>area = JStr ''NO2'', year = Some 2024, messageType = Some ''1'',
            plannedStatus = Unplanned, count = 1\<rparr>]"
  have h1: "outage_summary demo_builtins no_filter [row_units_A, row_two_areas, row_units_A] =
     Inr \<lparr>summary = ?rows, topAreas = [''NO2'', ''NO1''], totalRecords = 3\<rparr>"
    by code_simp
  have h2: "topN_number demo_builtins (q_topN no_filter) = Some 10" by code_simp
  have h3: "(0::int) \<le> 10" by simp
  have l: "list_all (\<lambda>r. \<not> is_array_index (area_key demo_builtins r)
                    \<and> \<not> inherited (area_key demo_builtins r)) ?rows"
    by code_simp
  then have h4: "\<forall>r \<in> set (summary \<lparr>summary = ?rows, topAreas = [''NO2'', ''NO1''],
                 totalRecords = 3\<rparr>).
        \<not> is_array_index (area_key demo_builtins r) \<and> \<not> inherited (area_key demo_builtins r)"
    by (simp only: list_all_iff summary_response.simps)
  show ?thesis
    using h1 h2 l topAreas_ranking [OF h1 h2 h3 h4] by simp
qed

text \<open>
  The proviso on inherited names is needed as well: an area named \<^verbatim>\<open>__proto__\<close> gets
  no total at all, so that of two distinct areas only one is listed.
\<close>

lemma top_areas_inherited_name:
  "outage_summary demo_builtins no_filter [row_area_proto, row_area_B] =
     Inr \<lparr>summary =
        [\<lparr>area = JStr ''__proto__'', year = Some 2024, messageType = Some ''1'',
            plannedStatus = Unknown, count = 1\<rparr>,
         \<lparr>area = JStr ''B'', year = Some 2024, messageType = Some ''1'',
            plannedStatus = Unknown, count = 1\<rparr>],
        topAreas = [''B''], totalRecords = 2\<rparr>"
  by code_simp

section \<open>Rounding to a double\<close>

text \<open>\<open>floor_log2\<close> is the exponent of the leading bit, and a finite result of
  \<open>to_double\<close> is within half a unit in the last place of the exact value.\<close>

lemma pow2_powi: "pow2 k = 2 powi k"
  by (simp add: pow2_def power_int_def field_simps)

lemma pow2_pos: "0 < pow2 k"
  by (simp add: pow2_powi)

lemma pow2_diff: "pow2 (i - j) = pow2 i / pow2 j"
  by (simp add: pow2_powi power_int_diff)

lemma pow2_add: "pow2 (i + j) = pow2 i * pow2 j"
  by (simp add: pow2_powi power_int_add)

lemma pow2_half: "pow2 k / 2 = pow2 (k - 1)"
  using pow2_diff [of k 1] by (simp add: pow2_def)

lemma round_half_even_near: "\<bar>of_int (round_half_even m) - m\<bar> \<le> 1 / 2"
proof -
  have "of_int \<lfloor>m\<rfloor> \<le> m" "m < of_int \<lfloor>m\<rfloor> + 1" by linarith+
  then show ?thesis
    by (auto simp: round_half_even_def Let_def abs_le_iff)
qed

lemma bitlen_pos: "0 < n \<Longrightarrow> 0 < bitlen n"
  using bitlen_bounds [of n] by (cases "bitlen n \<le> 0") auto

lemma floor_log2_le:
  assumes "0 < a"
  shows "pow2 (floor_log2 a) \<le> a"
proof -
  obtain n d where nd: "quotient_of a = (n, d)" by (cases "quotient_of a")
  have d: "0 < d" using quotient_of_denom_pos [OF nd] .
  have a: "a = of_int n / of_int d" using quotient_of_div [OF nd] .
  have n: "0 < n" using assms d unfolding a by (simp add: zero_less_divide_iff)
  let ?e = "bitlen n - bitlen d"
  show ?thesis
  proof (cases "pow2 ?e \<le> a")
    case True
    then show ?thesis by (simp add: floor_log2_def nd Let_def)
  next
    case False
    have fl: "floor_log2 a = ?e - 1" using False by (simp add: floor_log2_def nd Let_def)
    have bn: "2 ^ nat (bitlen n - 1) \<le> n" using bitlen_bounds [OF n] by simp
    have bd: "d < 2 ^ nat (bitlen d)" using bitlen_bounds [OF d] by simp
    have pn: "0 < bitlen n" using n by (rule bitlen_pos)
    have pd: "0 < bitlen d" using d by (rule bitlen_pos)
    have n': "pow2 (bitlen n - 1) \<le> of_int n"
    proof -
      have "(of_int (2 ^ nat (bitlen n - 1)) :: rat) \<le> of_int n" using bn by (simp only: of_int_le_iff)
      then show ?thesis using pn by (simp add: pow2_def)
    qed
    have d': "of_int d \<le> pow2 (bitlen d)"
    proof -
      have "(of_int d :: rat) \<le> of_int (2 ^ nat (bitlen d))" using bd by (simp only: of_int_le_iff)
      then show ?thesis using pd by (simp add: pow2_def)
    qed
    have "pow2 (?e - 1) = pow2 (bitlen n - 1) / pow2 (bitlen d)"
      using pow2_diff [of "bitlen n - 1" "bitlen d"] by (simp add: algebra_simps)
    also have "\<dots> \<le> of_int n / of_int d"
      using n' d' d pow2_pos [of "bitlen n - 1"] by (intro frac_le) simp_all
    finally have "pow2 (floor_log2 a) \<le> of_int n / of_int d" unfolding fl .
    then show ?thesis using a by simp
  qed
qed

lemma floor_log2_less:
  assumes "0 < a"
  shows "a < pow2 (floor_log2 a + 1)"
proof -
  obtain n d where nd: "quotient_of a = (n, d)" by (cases "quotient_of a")
  have d: "0 < d" using quotient_of_denom_pos [OF nd] .
  have a: "a = of_int n / of_int d" using quotient_of_div [OF nd] .
  have n: "0 < n" using assms d unfolding a by (simp add: zero_less_divide_iff)
  let ?e = "bitlen n - bitlen d"
  show ?thesis
  proof (cases "pow2 ?e \<le> a")
    case False
    then show ?thesis by (simp add: floor_log2_def nd Let_def)
  next
    case True
    have fl: "floor_log2 a = ?e" using True by (simp add: floor_log2_def nd Let_def)
    have bn: "n < 2 ^ nat (bitlen n)" using bitlen_bounds [OF n] by simp
    have bd: "2 ^ nat (bitlen d - 1) \<le> d" using bitlen_bounds [OF d] by simp
    have pn: "0 < bitlen n" using n by (rule bitlen_pos)
    have pd: "0 < bitlen d" using d by (rule bitlen_pos)
    have n': "of_int n < pow2 (bitlen n)"
    proof -
      have "(of_int n :: rat) < of_int (2 ^ nat (bitlen n))" using bn by (simp only: of_int_less_iff)
      then show ?thesis using pn by (simp add: pow2_def)
    qed
    have d': "pow2 (bitlen d - 1) \<le> of_int d"
    proof -
      have "(of_int (2 ^ nat (bitlen d - 1)) :: rat) \<le> of_int d" using bd by (simp only: of_int_le_iff)
      then show ?thesis using pd by (simp add: pow2_def)
    qed
    have "of_int n / of_int d < pow2 (bitlen n) / pow2 (bitlen d - 1)"
      using n' d' n pow2_pos [of "bitlen d - 1"] by (intro frac_less) simp_all
    also have "\<dots> = pow2 (?e + 1)"
      using pow2_diff [of "bitlen n" "bitlen d - 1"] by (simp add: algebra_simps)
    finally have "of_int n / of_int d < pow2 (floor_log2 a + 1)" unfolding fl .
    then show ?thesis using a by simp
  qed
qed

lemma to_double_error:
  assumes "to_double q = Fin v"
  shows "\<bar>v - q\<bar> \<le> \<bar>q\<bar> * pow2 (- 53) + pow2 (- 1075)"
proof (cases "q = 0")
  case True
  then show ?thesis using assms pow2_pos [of "- 1075"] by (simp add: to_double_def)
next
  case False
  define k where "k = max (floor_log2 \<bar>q\<bar> - 52) (- 1074)"
  define r where "r = round_half_even (\<bar>q\<bar> / pow2 k)"
  have v: "v = (if 0 < q then of_int r * pow2 k else - (of_int r * pow2 k))"
    using assms False unfolding to_double_def Let_def k_def [symmetric] r_def [symmetric]
    by (simp split: if_splits)
  have pk: "0 < pow2 k" by (rule pow2_pos)
  have "\<bar>of_int r - \<bar>q\<bar> / pow2 k\<bar> \<le> 1 / 2" unfolding r_def by (rule round_half_even_near)
  then have "\<bar>of_int r - \<bar>q\<bar> / pow2 k\<bar> * pow2 k \<le> 1 / 2 * pow2 k"
    using pk by (intro mult_right_mono) simp_all
  moreover have "\<bar>of_int r - \<bar>q\<bar> / pow2 k\<bar> * pow2 k = \<bar>of_int r * pow2 k - \<bar>q\<bar>\<bar>"
  proof -
    have "\<bar>of_int r - \<bar>q\<bar> / pow2 k\<bar> * pow2 k = \<bar>(of_int r - \<bar>q\<bar> / pow2 k) * pow2 k\<bar>"
      using pk by (simp add: abs_mult)
    also have "(of_int r - \<bar>q\<bar> / pow2 k) * pow2 k = of_int r * pow2 k - \<bar>q\<bar>"
      using pk by (simp add: left_diff_distrib)
    finally show ?thesis .
  qed
  ultimately have e1: "\<bar>of_int r * pow2 k - \<bar>q\<bar>\<bar> \<le> pow2 (k - 1)"
    by (simp add: pow2_half [symmetric])
  have e2: "\<bar>v - q\<bar> \<le> pow2 (k - 1)"
    using e1 False unfolding v by (cases "0 < q") (simp_all add: abs_le_iff)
  have p53: "0 \<le> \<bar>q\<bar> * pow2 (- 53)" using pow2_pos [of "- 53"] by simp
  have p1075: "0 \<le> pow2 (- 1075)" using pow2_pos [of "- 1075"] by simp
  have "pow2 (k - 1) \<le> \<bar>q\<bar> * pow2 (- 53) + pow2 (- 1075)"
  proof (cases "floor_log2 \<bar>q\<bar> - 52 \<le> - 1074")
    case True
    then have "k - 1 = - 1075" by (simp add: k_def)
    then have "pow2 (k - 1) = pow2 (- 1075)" by (simp only:)
    then show ?thesis using p53 by linarith
  next
    case False
    then have "k - 1 = floor_log2 \<bar>q\<bar> + (- 53)" by (simp add: k_def)
    then have "pow2 (k - 1) = pow2 (floor_log2 \<bar>q\<bar>) * pow2 (- 53)"
      by (simp only: pow2_add)
    also have "\<dots> \<le> \<bar>q\<bar> * pow2 (- 53)"
      using floor_log2_le [of "\<bar>q\<bar>"] \<open>q \<noteq> 0\<close> pow2_pos [of "- 53"]
      by (intro mult_right_mono) simp_all
    finally show ?thesis using p1075 by linarith
  qed
  with e2 show ?thesis by linarith
qed

text \<open>The shares of a capacity divided among \<open>n\<close> areas add up to the capacity, up to
  the rounding of the division.\<close>

lemma share_sum_error:
  assumes "0 < n" "to_double (mw / of_nat n) = Fin s"
  shows "\<bar>of_nat n * s - mw\<bar> \<le> \<bar>mw\<bar> * pow2 (- 53) + of_nat n * pow2 (- 1075)"
proof -
  have n: "(0::rat) < of_nat n" using assms(1) by simp
  have "of_nat n * s - mw = of_nat n * (s - mw / of_nat n)"
    using n by (simp add: right_diff_distrib)
  then have "\<bar>of_nat n * s - mw\<bar> = of_nat n * \<bar>s - mw / of_nat n\<bar>"
    using n by (simp add: abs_mult)
  also have "\<dots> \<le> of_nat n * (\<bar>mw / of_nat n\<bar> * pow2 (- 53) + pow2 (- 1075))"
    using to_double_error [OF assms(2)] n by (intro mult_left_mono) simp_all
  also have "\<dots> = \<bar>mw\<bar> * pow2 (- 53) + of_nat n * pow2 (- 1075)"
    using n by (simp add: distrib_left)
  finally show ?thesis .
qed

section \<open>Contributions of a message that lists several areas\<close>

lemma count_at_add:
  "summary_key B a y mt st = Inr key \<Longrightarrow> summary_add B y mt st S a = Inr S'
     \<Longrightarrow> count_at S' k = count_at S k + (if key = k then 1 else 0)"
  by (auto simp: summary_add_eq count_at_def obj_get_set split: option.splits)

lemma count_at_forEach:
  "map (\<lambda>a. summary_key B a y mt st) areas = map Inr ks
     \<Longrightarrow> \<exists>S'. forEachE (summary_add B y mt st) areas S = Inr S'
           \<and> (\<forall>k. count_at S' k = count_at S k + length (filter (\<lambda>key. key = k) ks))"
proof (induction areas arbitrary: S ks)
  case Nil
  then show ?case by simp
next
  case (Cons a areas)
  from Cons.prems obtain key ks' where ks: "ks = key # ks'"
    "summary_key B a y mt st = Inr key"
    "map (\<lambda>a. summary_key B a y mt st) areas = map Inr ks'"
    by (cases ks) auto
  from summary_add_eq [OF ks(2), of S] obtain S1 where S1: "summary_add B y mt st S a = Inr S1"
    by blast
  from Cons.IH [OF ks(3), of S1] obtain S' where
    S': "forEachE (summary_add B y mt st) areas S1 = Inr S'"
    "\<forall>k. count_at S' k = count_at S1 k + length (filter (\<lambda>key. key = k) ks')"
    by blast
  show ?case
    using S1 S' count_at_add [OF ks(2) S1] by (auto simp: ks(1))
qed

lemma length_filter_distinct:
  "distinct xs \<Longrightarrow> length (filter (\<lambda>x. x = k) xs) = (if k \<in> set xs then 1 else 0)"
  by (induction xs) auto

lemma db_stats_add_eq:
  assumes "\<not> inherited (ev_area e)"
  shows "db_stats_add S e =
     obj_set S (ev_area e)
       (case obj_get S (ev_area e) of
          None \<Rightarrow> \<lparr>db_area = ev_area e, db_totalMW = nan_add (Some (Fin 0)) (ev_mw e),
                   db_count = 1\<rparr>
        | Some r \<Rightarrow> r\<lparr>db_totalMW := nan_add (db_totalMW r) (ev_mw e),
                      db_count := db_count r + 1\<rparr>)"
proof (cases "obj_get S (ev_area e)")
  case None
  then have "obj_lookup S (ev_area e) = Absent"
    by (simp add: obj_lookup_plain [OF assms])
  then show ?thesis
    by (simp add: db_stats_add_def Let_def obj_lookup_set obj_set_twice None)
next
  case (Some r)
  then have "obj_lookup S (ev_area e) = Own r"
    by (simp add: obj_lookup_plain [OF assms])
  then show ?thesis
    by (simp add: db_stats_add_def Let_def Some)
qed

lemma db_stat_count_add:
  "\<not> inherited (ev_area e) \<Longrightarrow>
     db_stat_count (db_stats_add S e) a = db_stat_count S a + (if ev_area e = a then 1 else 0)"
  by (auto simp: db_stats_add_eq db_stat_count_def obj_get_set split: option.splits)

lemma db_stat_total_add:
  "\<not> inherited (ev_area e) \<Longrightarrow>
     db_stat_total (db_stats_add S e) a =
       (if ev_area e = a then nan_add (db_stat_total S a) (ev_mw e) else db_stat_total S a)"
  by (auto simp: db_stats_add_eq db_stat_total_def obj_get_set split: option.splits)

lemma db_stats_fold:
  assumes "distinct (map ev_area es)" "\<forall>e \<in> set es. \<not> inherited (ev_area e) \<and> ev_mw e = m"
  shows "db_stat_count (foldl db_stats_add S es) a
           = db_stat_count S a + (if a \<in> ev_area ` set es then 1 else 0)
       \<and> db_stat_total (foldl db_stats_add S es) a
           = (if a \<in> ev_area ` set es then nan_add (db_stat_total S a) m else db_stat_total S a)"
  using assms
proof (induction es arbitrary: S)
  case Nil
  then show ?case by simp
next
  case (Cons e es)
  from Cons.prems have e: "\<not> inherited (ev_area e)" "ev_mw e = m" "ev_area e \<notin> ev_area ` set es"
    by auto
  from Cons.prems have "distinct (map ev_area es)"
    "\<forall>e \<in> set es. \<not> inherited (ev_area e) \<and> ev_mw e = m" by auto
  from Cons.IH [OF this, of "db_stats_add S e"] e
  show ?case
    by (auto simp: db_stat_count_add db_stat_total_add)
qed

lemma events_of_row_mw: "e \<in> set (events_of_row row) \<Longrightarrow> ev_mw e = mwPerArea row"
  by (auto simp: events_of_row_def)

lemma length_events_of_row: "length (events_of_row row) = length (areaList_of row)"
  by (simp add: events_of_row_def)

lemma db_events_snoc: "db_events (pre @ [row]) = db_events pre @ events_of_row row"
  by (simp add: db_events_def)

lemma db_areaStats_snoc:
  "db_areaStats_of (db_events (pre @ [row])) =
     foldl db_stats_add (db_areaStats_of (db_events pre)) (events_of_row row)"
  by (simp add: db_areaStats_of_def db_events_snoc)

lemma build_summary_snoc:
  "build_summary B pre = Inr Sm \<Longrightarrow> build_summary B (pre @ [r]) = summary_step B Sm r"
  by (simp add: build_summary_def forEachE_append split: sum.splits)

text \<open>
  Claim C1, as the code has it. A message that lists N areas (N at least 1, no area twice,
  none of them the name of a property inherited from \<^verbatim>\<open>Object.prototype\<close>) is
  expanded into N contributions, one for each area. In the area events of
  server-sqlite.js every contribution carries the capacity of the message divided by N,
  a division of doubles; adding the message to the input raises the event count of each
  of its areas by 1 and adds that share to the capacity total of each of its areas, and
  leaves every other area as it was. N times a finite share differs from the capacity of
  the message by no more than the rounding of the division: the capacity times
  \<open>2^-53\<close>, and N times \<open>2^-1075\<close>. In the summary of server.js, which holds counts and
  no capacity, adding the message raises the count of the row of each of its areas by 1
  and no other count. A message of 100 MW for NO1 and NO2 gives 50 and a count of 1 to
  each.
\<close>

theorem multi_area_equal_shares:
  assumes "areaList_of row \<noteq> []"
      and "distinct (map ev_area (events_of_row row))"
      and "\<forall>e \<in> set (events_of_row row). \<not> inherited (ev_area e)"
      and "build_summary B rows = Inr Sm"
      and "extractAreaNames B r = Inr areas"
      and "map (\<lambda>a. summary_key B a (eventYear B r) (message_type r) (plannedStatus_of B r))
             areas = map Inr keys"
      and "distinct keys"
  shows "length (events_of_row row) = length (areaList_of row)
     \<and> (\<forall>e \<in> set (events_of_row row).
           ev_mw e = to_double (message_mw row / of_nat (length (areaList_of row))))
     \<and> (\<forall>a. db_stat_count (db_areaStats_of (db_events (pre @ [row]))) a =
              db_stat_count (db_areaStats_of (db_events pre)) a
              + (if a \<in> ev_area ` set (events_of_row row) then 1 else 0))
     \<and> (\<forall>a. db_stat_total (db_areaStats_of (db_events (pre @ [row]))) a =
              (if a \<in> ev_area ` set (events_of_row row)
               then nan_add (db_stat_total (db_areaStats_of (db_events pre)) a)
                      (to_double (message_mw row / of_nat (length (areaList_of row))))
               else db_stat_total (db_areaStats_of (db_events pre)) a))
     \<and> (\<forall>s. to_double (message_mw row / of_nat (length (areaList_of row))) = Fin s \<longrightarrow>
           \<bar>of_nat (length (areaList_of row)) * s - message_mw row\<bar>
             \<le> \<bar>message_mw row\<bar> * pow2 (- 53)
                + of_nat (length (areaList_of row)) * pow2 (- 1075))
     \<and> (\<exists>S'. build_summary B (rows @ [r]) = Inr S'
          \<and> (\<forall>k. count_at S' k = count_at Sm k + (if k \<in> set keys then 1 else 0)))"
proof -
  let ?es = "events_of_row row"
  let ?n = "length (areaList_of row)"
  let ?m = "to_double (message_mw row / of_nat ?n)"
  have n: "numAreas_of row = ?n" using assms(1) by (simp add: numAreas_of_def)
  have share: "ev_mw e = ?m" if "e \<in> set ?es" for e
    using events_of_row_mw [OF that] by (simp add: mwPerArea_def n)
  have c1: "length ?es = ?n" by (rule length_events_of_row)
  have h: "\<forall>e \<in> set ?es. \<not> inherited (ev_area e) \<and> ev_mw e = ?m"
    using assms(3) share by blast
  note f = db_stats_fold [OF assms(2) h, of "db_areaStats_of (db_events pre)"]
  have c4: "db_stat_count (db_areaStats_of (db_events (pre @ [row]))) a =
              db_stat_count (db_areaStats_of (db_events pre)) a
              + (if a \<in> ev_area ` set ?es then 1 else 0)" for a
    unfolding db_areaStats_snoc using f [of a] by blast
  have c5: "db_stat_total (db_areaStats_of (db_events (pre @ [row]))) a =
              (if a \<in> ev_area ` set ?es
               then nan_add (db_stat_total (db_areaStats_of (db_events pre)) a) ?m
               else db_stat_total (db_areaStats_of (db_events pre)) a)" for a
    unfolding db_areaStats_snoc using f [of a] by blast
  from count_at_forEach [OF assms(6), of Sm] obtain S' where
    S': "forEachE (summary_add B (eventYear B r) (message_type r) (plannedStatus_of B r))
           areas Sm = Inr S'"
    "\<forall>k. count_at S' k = count_at Sm k + length (filter (\<lambda>key. key = k) keys)"
    by blast
  have step: "build_summary B (rows @ [r]) = Inr S'"
    unfolding build_summary_snoc [OF assms(4)]
    by (simp add: summary_step_def assms(5) bindE_def S'(1))
  have cnt: "count_at S' k = count_at Sm k + (if k \<in> set keys then 1 else 0)" for k
    using S'(2) length_filter_distinct [OF assms(7), of k] by simp
  have pos: "0 < ?n" using assms(1) by simp
  have c6: "\<bar>of_nat ?n * s - message_mw row\<bar>
              \<le> \<bar>message_mw row\<bar> * pow2 (- 53) + of_nat ?n * pow2 (- 1075)"
    if "?m = Fin s" for s
    using share_sum_error [OF pos that] .
  from c1 share c4 c5 c6 step cnt show ?thesis by blast
qed

text \<open>
  The claim as the specification states it fails. In server-sqlite.js a message of 100 MW
  that lists \<^verbatim>\<open>__proto__\<close> and NO1 is expanded into two events of 50 MW, but only NO1
  gets a row: the lookup for the other name finds \<^verbatim>\<open>Object.prototype\<close>. In server.js
  the summary of a message for NO1 and NO2 holds a count for each area and no capacity,
  and the threshold view adds the capacity of every row of its file to the area of the row
  as it stands: two rows of 100 MW give 100 to each area.
\<close>

theorem inherited_area_no_row_counterexample:
  "map ev_area (events_of_row message_proto_NO1) = [''__proto__'', ''NO1'']
   \<and> map ev_mw (events_of_row message_proto_NO1) = [Fin 50, Fin 50]
   \<and> db_areaStats_of (db_events [message_proto_NO1]) =
        [(''NO1'', \<lparr>db_area = ''NO1'', db_totalMW = Some (Fin 50), db_count = 1\<rparr>)]
   \<and> outage_summary demo_builtins no_filter [row_two_areas] =
        Inr \<lparr>summary =
          [\<lparr>area = JStr ''NO1'', year = Some 2024, messageType = Some ''1'',
              plannedStatus = Unplanned, count = 1\<rparr>,
           \<lparr>area = JStr ''NO2'', year = Some 2024, messageType = Some ''1'',
              plannedStatus = Unplanned, count = 1\<rparr>],
          topAreas = [''NO1'', ''NO2''], totalRecords = 1\<rparr>
   \<and> ae_summary (area_events demo_builtins threshold_50
          [event_row ''NO1'' ''100'', event_row ''NO2'' ''100'']) =
        [\<lparr>st_area = Some ''NO1'', totalMW = Fin 100, st_count = 1\<rparr>,
         \<lparr>st_area = Some ''NO2'', totalMW = Fin 100, st_count = 1\<rparr>]"
  by code_simp

theorem multi_area_equal_shares_witness:
  "areaList_of scenario_C = [''NO1'', ''NO2'']
   \<and> map ev_area (events_of_row scenario_C) = [''NO1'', ''NO2'']
   \<and> list_all (\<lambda>e. \<not> inherited (ev_area e)) (events_of_row scenario_C)
   \<and> message_mw scenario_C = 100
   \<and> to_double (100 / of_nat 2) = Fin 50
   \<and> list_all (\<lambda>e. ev_mw e = Fin 50) (events_of_row scenario_C)
   \<and> db_stat_total (db_areaStats_of (db_events [scenario_C])) ''NO1'' = Some (Fin 50)
   \<and> db_stat_count (db_areaStats_of (db_events [scenario_C])) ''NO1'' = 1
   \<and> db_stat_total (db_areaStats_of (db_events [scenario_C])) ''NO2'' = Some (Fin 50)
   \<and> db_stat_count (db_areaStats_of (db_events [scenario_C])) ''NO2'' = 1
   \<and> extractAreaNames demo_builtins row_two_areas = Inr [JStr ''NO1'', JStr ''NO2'']
   \<and> (\<exists>S'. build_summary demo_builtins [row_two_areas] = Inr S'
        \<and> count_at S' ''NO1|2024|1|Unplanned'' = 1 \<and> count_at S' ''NO2|2024|1|Unplanned'' = 1)"
proof -
  have h1: "areaList_of scenario_C \<noteq> []" by code_simp
  have h2: "distinct (map ev_area (events_of_row scenario_C))" by code_simp
  have l3: "list_all (\<lambda>e. \<not> inherited (ev_area e)) (events_of_row scenario_C)" by code_simp
  then have h3: "\<forall>e \<in> set (events_of_row scenario_C). \<not> inherited (ev_area e)"
    by (simp only: list_all_iff)
  have h4: "build_summary demo_builtins [] = Inr []" by code_simp
  have h5: "extractAreaNames demo_builtins row_two_areas = Inr [JStr ''NO1'', JStr ''NO2'']"
    by code_simp
  have h6: "map (\<lambda>a. summary_key demo_builtins a (eventYear demo_builtins row_two_areas)
              (message_type row_two_areas) (plannedStatus_of demo_builtins row_two_areas))
              [JStr ''NO1'', JStr ''NO2'']
            = map Inr [''NO1|2024|1|Unplanned'', ''NO2|2024|1|Unplanned'']"
    by code_simp
  have h7: "distinct [''NO1|2024|1|Unplanned'', ''NO2|2024|1|Unplanned'']" by simp
  have v: "areaList_of scenario_C = [''NO1'', ''NO2'']"
      "map ev_area (events_of_row scenario_C) = [''NO1'', ''NO2'']"
      "message_mw scenario_C = 100"
      "db_areaStats_of (db_events []) = []"
      "to_double (100 / of_nat 2) = Fin 50"
      "nan_add (Some (Fin 0)) (Fin 50) = Some (Fin 50)"
    by code_simp+
  have i: "ev_area ` set (events_of_row scenario_C) = {''NO1'', ''NO2''}"
    using arg_cong [OF v(2), of set] by (simp only: set_map list.set)
  have len: "length [''NO1'', ''NO2''] = 2" by simp
  note t = multi_area_equal_shares [OF h1 h2 h3 h4 h5 h6 h7, of "[]",
      unfolded i v(1) v(3) v(4) len]
  from t obtain S' where S': "build_summary demo_builtins ([] @ [row_two_areas]) = Inr S'"
    "\<forall>k. count_at S' k = count_at [] k
       + (if k \<in> set [''NO1|2024|1|Unplanned'', ''NO2|2024|1|Unplanned''] then 1 else 0)"
    by blast
  have c: "build_summary demo_builtins [row_two_areas] = Inr S'
        \<and> count_at S' ''NO1|2024|1|Unplanned'' = 1 \<and> count_at S' ''NO2|2024|1|Unplanned'' = 1"
    using S' by (simp add: count_at_def obj_get_def)
  have s: "list_all (\<lambda>e. ev_mw e = Fin 50) (events_of_row scenario_C)
   \<and> db_stat_total (db_areaStats_of (db_events [scenario_C])) ''NO1'' = Some (Fin 50)
   \<and> db_stat_count (db_areaStats_of (db_events [scenario_C])) ''NO1'' = 1
   \<and> db_stat_total (db_areaStats_of (db_events [scenario_C])) ''NO2'' = Some (Fin 50)
   \<and> db_stat_count (db_areaStats_of (db_events [scenario_C])) ''NO2'' = 1"
    using t v(5) v(6) by (simp add: db_stat_total_def db_stat_count_def obj_get_def list_all_iff)
  from c s v l3 h5 show ?thesis by blast
qed

section \<open>The threshold view\<close>

lemma jsnum_neg_le: "jsnum_neg a \<le> jsnum_neg b \<longleftrightarrow> b \<le> a"
  by (cases a; cases b) (simp_all add: jsnum_neg_def less_eq_jsnum_def)

lemma double_sum_snoc: "double_sum (qs @ [q]) = dadd (double_sum qs) q"
  by (simp add: double_sum_def)

lemma stats_add_eq:
  assumes "\<not> inherited (area_key_of (ce_area e))"
  shows "stats_add S e =
     obj_set S (area_key_of (ce_area e))
       (case obj_get S (area_key_of (ce_area e)) of
          None \<Rightarrow> \<lparr>st_area = ce_area e, totalMW = dadd (Fin 0) (ce_mw e), st_count = 1\<rparr>
        | Some r \<Rightarrow> r\<lparr>totalMW := dadd (totalMW r) (ce_mw e), st_count := st_count r + 1\<rparr>)"
proof (cases "obj_get S (area_key_of (ce_area e))")
  case None
  then have "obj_lookup S (area_key_of (ce_area e)) = Absent"
    by (simp add: obj_lookup_plain [OF assms])
  then show ?thesis
    by (simp add: stats_add_def Let_def obj_lookup_set obj_set_twice None)
next
  case (Some r)
  then have "obj_lookup S (area_key_of (ce_area e)) = Own r"
    by (simp add: obj_lookup_plain [OF assms])
  then show ?thesis
    by (simp add: stats_add_def Let_def Some)
qed

lemma stats_add_inherited:
  "inherited (area_key_of (ce_area e)) \<Longrightarrow> obj_get S (area_key_of (ce_area e)) = None
     \<Longrightarrow> stats_add S e = S"
  by (simp add: stats_add_def Let_def obj_lookup_inherited)

lemma row_for_snoc:
  "row_for (es @ [e]) =
     (case es of [] \<Rightarrow> \<lparr>st_area = ce_area e, totalMW = dadd (Fin 0) (ce_mw e), st_count = 1\<rparr>
      | _ \<Rightarrow> (row_for es)\<lparr>totalMW := dadd (totalMW (row_for es)) (ce_mw e),
                           st_count := st_count (row_for es) + 1\<rparr>)"
  by (cases es) (simp_all add: row_for_def double_sum_def)

text \<open>What \<^verbatim>\<open>areaStats\<close> holds after the loop.\<close>

lemma areaStats_get:
  "distinct (map fst (areaStats_of es))
   \<and> obj_get (areaStats_of es) a =
       (if inherited a \<or> filter (\<lambda>e. area_key_of (ce_area e) = a) es = [] then None
        else Some (row_for (filter (\<lambda>e. area_key_of (ce_area e) = a) es)))"
proof (induction es arbitrary: a rule: rev_induct)
  case Nil
  show ?case by (simp add: areaStats_of_def obj_get_def)
next
  case (snoc e es)
  let ?S = "areaStats_of es"
  let ?k = "area_key_of (ce_area e)"
  let ?F = "\<lambda>a. filter (\<lambda>e. area_key_of (ce_area e) = a) es"
  have step: "areaStats_of (es @ [e]) = stats_add ?S e" by (simp add: areaStats_of_def)
  show ?case
  proof (cases "inherited ?k")
    case True
    with snoc [of ?k] have "stats_add ?S e = ?S" by (simp add: stats_add_inherited)
    with snoc [of a] snoc [of ?k] True show ?thesis unfolding step by auto
  next
    case False
    note eq = stats_add_eq [OF False, of ?S]
    have d: "distinct (map fst (stats_add ?S e))"
      unfolding eq using snoc [of a] by (simp add: distinct_obj_set)
    have g: "obj_get (stats_add ?S e) a =
       (if inherited a \<or> filter (\<lambda>e. area_key_of (ce_area e) = a) (es @ [e]) = [] then None
        else Some (row_for (filter (\<lambda>e. area_key_of (ce_area e) = a) (es @ [e]))))"
    proof (cases "a = ?k")
      case True
      have fs: "filter (\<lambda>e. area_key_of (ce_area e) = ?k) (es @ [e]) = ?F ?k @ [e]" by simp
      show ?thesis
      proof (cases "?F ?k")
        case Nil
        with snoc [of ?k] have "obj_get ?S ?k = None" by simp
        then show ?thesis
          unfolding eq True fs Nil using False
          by (simp add: obj_get_set row_for_def double_sum_def)
      next
        case (Cons x xs)
        with snoc [of ?k] False have "obj_get ?S ?k = Some (row_for (x # xs))" by simp
        then show ?thesis
          unfolding eq True fs Cons using False
          by (simp add: obj_get_set row_for_def double_sum_def)
      qed
    next
      case False
      then show ?thesis
        unfolding eq using snoc [of a] by (auto simp: obj_get_set)
    qed
    from d g show ?thesis unfolding step by blast
  qed
qed

lemma areaStats_entry:
  assumes "(k, r) \<in> set (areaStats_of es)"
  shows "\<not> inherited k" "filter (\<lambda>e. area_key_of (ce_area e) = k) es \<noteq> []"
    "r = row_for (filter (\<lambda>e. area_key_of (ce_area e) = k) es)"
    "area_key_of (st_area r) = k"
proof -
  let ?S = "areaStats_of es"
  have d: "distinct (map fst ?S)" using areaStats_get [of es] by blast
  with assms have "obj_get ?S k = Some r" by (simp add: obj_get_Some_mem)
  with areaStats_get [of es k] have i: "\<not> inherited k"
    and n: "filter (\<lambda>e. area_key_of (ce_area e) = k) es \<noteq> []"
    and r: "r = row_for (filter (\<lambda>e. area_key_of (ce_area e) = k) es)"
    by (auto split: if_splits)
  from n obtain e' es' where f: "filter (\<lambda>e. area_key_of (ce_area e) = k) es = e' # es'"
    by (cases "filter (\<lambda>e. area_key_of (ce_area e) = k) es") auto
  then have "e' \<in> set (filter (\<lambda>e. area_key_of (ce_area e) = k) es)" by simp
  then have "area_key_of (ce_area e') = k" by simp
  then show "area_key_of (st_area r) = k" by (simp add: r f row_for_def)
  from i show "\<not> inherited k" .
  from n show "filter (\<lambda>e. area_key_of (ce_area e) = k) es \<noteq> []" .
  from r show "r = row_for (filter (\<lambda>e. area_key_of (ce_area e) = k) es)" .
qed

lemma areaStats_rows:
  assumes "r \<in> set (obj_values (areaStats_of es))"
  shows "\<not> inherited (area_key_of (st_area r))
     \<and> filter (\<lambda>e. area_key_of (ce_area e) = area_key_of (st_area r)) es \<noteq> []
     \<and> r = row_for (filter (\<lambda>e. area_key_of (ce_area e) = area_key_of (st_area r)) es)"
proof -
  from assms obtain k where k: "(k, r) \<in> set (areaStats_of es)"
    by (auto simp: obj_values_def set_obj_entries)
  note e = areaStats_entry [OF k]
  show ?thesis unfolding e(4) using e(1,2,3) by blast
qed

lemma areaStats_row_exists:
  assumes "\<not> inherited a" "filter (\<lambda>e. area_key_of (ce_area e) = a) es \<noteq> []"
  shows "\<exists>r \<in> set (obj_values (areaStats_of es)). area_key_of (st_area r) = a"
proof -
  let ?r = "row_for (filter (\<lambda>e. area_key_of (ce_area e) = a) es)"
  from areaStats_get [of es a] assms have g: "obj_get (areaStats_of es) a = Some ?r"
    and d: "distinct (map fst (areaStats_of es))" by auto
  then have m: "(a, ?r) \<in> set (areaStats_of es)" by (simp add: obj_get_Some_mem)
  then have "?r \<in> set (obj_values (areaStats_of es))"
    by (force simp: obj_values_def set_obj_entries)
  with areaStats_entry(4) [OF m] show ?thesis by blast
qed

lemma areaStats_distinct_areas:
  "distinct (map (\<lambda>r. area_key_of (st_area r)) (obj_values (areaStats_of es)))"
proof -
  let ?S = "areaStats_of es"
  have d: "distinct (map fst ?S)" using areaStats_get [of es] by blast
  have e: "map (\<lambda>p. area_key_of (st_area (snd p))) ?S = map fst ?S"
  proof (rule map_cong [OF refl])
    fix p assume "p \<in> set ?S"
    then have "(fst p, snd p) \<in> set ?S" by simp
    then show "area_key_of (st_area (snd p)) = fst p" by (rule areaStats_entry(4))
  qed
  have "distinct (map (\<lambda>p. area_key_of (st_area (snd p))) ?S)"
    unfolding e by (rule d)
  then have "distinct (map (\<lambda>p. area_key_of (st_area (snd p))) (obj_entries ?S))"
    by (rule distinct_map_entries)
  then show ?thesis by (simp add: obj_values_def comp_def)
qed

text \<open>
  Claim C5, as the route of server.js has it. The threshold is the number read from the
  query and 400 when the query has none. Every listed event reaches the threshold. For
  every area whose name is not the name of a property inherited from
  \<^verbatim>\<open>Object.prototype\<close> the summary has a row exactly when an event of that area passes
  the filters, and no two rows are for the same area; a row holds the number of these
  events as \<^verbatim>\<open>count\<close> and, as \<^verbatim>\<open>totalMW\<close>, the sum of their capacities, added in
  the order of the file in double arithmetic; the rows are sorted by descending
  \<^verbatim>\<open>totalMW\<close>.
\<close>

theorem area_events_rows:
  "(aq_mwThreshold q = None \<longrightarrow> threshold_of B q = Some 400)
   \<and> (\<forall>e \<in> set (ae_events (area_events B q rows)).
         \<exists>t. threshold_of B q = Some t \<and> t \<le> ce_mw e)
   \<and> ae_totalEvents (area_events B q rows) = length (ae_events (area_events B q rows))
   \<and> (\<not> inherited a \<longrightarrow>
        ((\<exists>r \<in> set (ae_summary (area_events B q rows)). area_key_of (st_area r) = a)
          \<longleftrightarrow> events_in B q rows a \<noteq> []))
   \<and> distinct (map (\<lambda>r. area_key_of (st_area r)) (ae_summary (area_events B q rows)))
   \<and> (\<forall>r \<in> set (ae_summary (area_events B q rows)).
         \<not> inherited (area_key_of (st_area r))
         \<and> st_count r = length (events_in B q rows (area_key_of (st_area r)))
         \<and> totalMW r = double_sum (map ce_mw (events_in B q rows (area_key_of (st_area r)))))
   \<and> sorted_wrt (\<lambda>r s. totalMW s \<le> totalMW r) (ae_summary (area_events B q rows))"
proof -
  let ?es = "filter_events B q (results_of B rows)"
  let ?V = "obj_values (areaStats_of ?es)"
  have sm: "ae_summary (area_events B q rows) = sort_key (\<lambda>r. jsnum_neg (totalMW r)) ?V"
    and ev: "ae_events (area_events B q rows) = ?es"
    and te: "ae_totalEvents (area_events B q rows) = length ?es"
    by (simp_all add: area_events_def area_summary_def Let_def)
  have c1: "aq_mwThreshold q = None \<longrightarrow> threshold_of B q = Some 400"
    by (simp add: threshold_of_def)
  have "set ?es \<subseteq> set (filter (reaches (threshold_of B q)) (results_of B rows))"
    by (auto simp: filter_events_def Let_def split: option.splits)
  then have c2: "\<forall>e \<in> set ?es. \<exists>t. threshold_of B q = Some t \<and> t \<le> ce_mw e"
    by (auto simp: reaches_def split: option.splits)
  have c4: "(\<exists>r \<in> set ?V. area_key_of (st_area r) = a) \<longleftrightarrow> events_in B q rows a \<noteq> []"
    if "\<not> inherited a"
    using areaStats_row_exists [OF that, of ?es] areaStats_rows [of _ ?es]
    unfolding events_in_def by blast
  have c5: "distinct (map (\<lambda>r. area_key_of (st_area r)) (sort_key (\<lambda>r. jsnum_neg (totalMW r)) ?V))"
    using areaStats_distinct_areas [of ?es] by (rule distinct_map_sort_key)
  have c6: "\<not> inherited (area_key_of (st_area r))
         \<and> st_count r = length (events_in B q rows (area_key_of (st_area r)))
         \<and> totalMW r = double_sum (map ce_mw (events_in B q rows (area_key_of (st_area r))))"
    if "r \<in> set ?V" for r
  proof -
    from areaStats_rows [OF that]
    have i: "\<not> inherited (area_key_of (st_area r))"
      and r: "r = row_for (events_in B q rows (area_key_of (st_area r)))"
      unfolding events_in_def by simp_all
    have "st_count r = st_count (row_for (events_in B q rows (area_key_of (st_area r))))"
      "totalMW r = totalMW (row_for (events_in B q rows (area_key_of (st_area r))))"
      using r by simp_all
    with i show ?thesis by (simp add: row_for_def)
  qed
  have "sorted (map (\<lambda>r. jsnum_neg (totalMW r)) (sort_key (\<lambda>r. jsnum_neg (totalMW r)) ?V))"
    by (rule sorted_sort_key)
  then have c7: "sorted_wrt (\<lambda>r s. totalMW s \<le> totalMW r)
      (sort_key (\<lambda>r. jsnum_neg (totalMW r)) ?V)"
    by (simp add: sorted_map jsnum_neg_le)
  from c1 c2 c4 c5 c6 c7 show ?thesis unfolding sm ev te by auto
qed

text \<open>
  The claim as the specification states it fails on the route. Without a threshold in the
  query an event of 80 MW is not listed, the default being 400 and not 50. With the
  threshold 50, events of 60 and 80 MW in SE3 give one row with the sum 140 where the
  claim has the maximum 80. And the rows are ordered by the sum: area A with two events of
  60 MW comes before area B with one event of 100 MW, which has the larger maximum.
\<close>

theorem threshold_default_and_sum_counterexample:
  "area_events demo_builtins default_query [event_row ''SE3'' ''30'', event_row ''SE3'' ''80'']
     = \<lparr>ae_events = [], ae_summary = [], ae_totalEvents = 0\<rparr>
   \<and> ae_summary (area_events demo_builtins threshold_50
        [event_row ''SE3'' ''60'', event_row ''SE3'' ''80''])
     = [\<lparr>st_area = Some ''SE3'', totalMW = Fin 140, st_count = 2\<rparr>]
   \<and> ae_summary (area_events demo_builtins threshold_50
        [event_row ''B'' ''100'', event_row ''A'' ''60'', event_row ''A'' ''60''])
     = [\<lparr>st_area = Some ''A'', totalMW = Fin 120, st_count = 2\<rparr>,
        \<lparr>st_area = Some ''B'', totalMW = Fin 100, st_count = 1\<rparr>]"
  by code_simp

theorem area_events_rows_witness:
  "aq_mwThreshold default_query = None \<and> threshold_of demo_builtins default_query = Some 400
   \<and> threshold_of demo_builtins threshold_50 = Some 50
   \<and> \<not> inherited ''SE3''
   \<and> events_in demo_builtins threshold_50
        [event_row ''SE3'' ''30'', event_row ''SE3'' ''80''] ''SE3''
      = [\<lparr>ce_area = Some ''SE3'', ce_mw = 80, ce_status = Some ''Unplanned'',
           ce_publicationDate = Some ''2024-03-01'', ce_remarks = None\<rparr>]
   \<and> double_sum [80] = Fin 80
   \<and> area_events demo_builtins threshold_50 [event_row ''SE3'' ''30'', event_row ''SE3'' ''80'']
      = \<lparr>ae_events = [\<lparr>ce_area = Some ''SE3'', ce_mw = 80, ce_status = Some ''Unplanned'',
                         ce_publicationDate = Some ''2024-03-01'', ce_remarks = None\<rparr>],
          ae_summary = [\<lparr>st_area = Some ''SE3'', totalMW = Fin 80, st_count = 1\<rparr>],
          ae_totalEvents = 1\<rparr>
   \<and> list_ex (\<lambda>r. area_key_of (st_area r) = ''SE3'')
        (ae_summary (area_events demo_builtins threshold_50
           [event_row ''SE3'' ''30'', event_row ''SE3'' ''80'']))
   \<and> list_all (\<lambda>r. st_count r = 1 \<and> totalMW r = Fin 80)
        (ae_summary (area_events demo_builtins threshold_50
           [event_row ''SE3'' ''30'', event_row ''SE3'' ''80'']))"
proof -
  let ?rows = "[event_row ''SE3'' ''30'', event_row ''SE3'' ''80'']"
  have v: "aq_mwThreshold default_query = None"
    "threshold_of demo_builtins threshold_50 = Some 50"
    "\<not> inherited ''SE3''"
    "events_in demo_builtins threshold_50 ?rows ''SE3''
      = [\<lparr>ce_area = Some ''SE3'', ce_mw = 80, ce_status = Some ''Unplanned'',
           ce_publicationDate = Some ''2024-03-01'', ce_remarks = None\<rparr>]"
    "double_sum [80] = Fin 80"
    "area_events demo_builtins threshold_50 ?rows
      = \<lparr>ae_events = [\<lparr>ce_area = Some ''SE3'', ce_mw = 80, ce_status = Some ''Unplanned'',
                         ce_publicationDate = Some ''2024-03-01'', ce_remarks = None\<rparr>],
          ae_summary = [\<lparr>st_area = Some ''SE3'', totalMW = Fin 80, st_count = 1\<rparr>],
          ae_totalEvents = 1\<rparr>"
    by code_simp+
  have k: "area_key_of (Some ''SE3'') = ''SE3''" by (simp add: area_key_of_def)
  note t = area_events_rows [of default_query demo_builtins ?rows "''SE3''"]
  note u = area_events_rows [of threshold_50 demo_builtins ?rows "''SE3''"]
  from t v(1) have d: "threshold_of demo_builtins default_query = Some 400" by blast
  from u have "\<forall>r \<in> set (ae_summary (area_events demo_builtins threshold_50 ?rows)).
      st_count r = length (events_in demo_builtins threshold_50 ?rows (area_key_of (st_area r)))
      \<and> totalMW r = double_sum (map ce_mw
            (events_in demo_builtins threshold_50 ?rows (area_key_of (st_area r))))"
    by blast
  then have "list_all (\<lambda>r. st_count r = 1 \<and> totalMW r = Fin 80)
        (ae_summary (area_events demo_builtins threshold_50 ?rows))"
    unfolding v(6) by (simp add: k v(4) v(5))
  moreover from u v(3) v(4)
  have "\<exists>r \<in> set (ae_summary (area_events demo_builtins threshold_50 ?rows)).
      area_key_of (st_area r) = ''SE3''"
    by simp
  then have "list_ex (\<lambda>r. area_key_of (st_area r) = ''SE3'')
        (ae_summary (area_events demo_builtins threshold_50 ?rows))"
    by (simp only: list_ex_iff)
  ultimately show ?thesis using v d by blast
qed

section \<open>Load failures\<close>

lemma cache_stays_invalid:
  "\<not> cache_valid now c \<Longrightarrow> now \<le> now' \<Longrightarrow> \<not> cache_valid now' c"
  by (auto simp: cache_valid_def split: option.splits)

text \<open>
  Claim C7, as the code has it. In \<^verbatim>\<open>loadData\<close> of server.js an error reported by the
  CSV parser, met when the cache is empty or expired, rejects the load: the route answers
  500, never an empty dataset; the cache is left as it was; and a later call that finds
  the file readable loads it, answers with the data and fills the cache, with nothing else
  done in between. In the prototype backend \<^verbatim>\<open>loadCSVData\<close> resolves with the empty
  list when the file is missing: the server then counts its data as loaded and serves the
  empty dataset; an error of the parser leaves the data unloaded there, and the requests
  answer 503.
\<close>

theorem load_failure_surfaced_not_cached:
  "(\<not> cache_valid now c \<and> process_rows B seen = Inr part
      \<longrightarrow> loadData B now fin (Unparsable seen) c = (Rejected, c)
        \<and> get_outage_summary B now fin (Unparsable seen) q c
            = (Failed 500 ''Failed to load outage summary'', c)
        \<and> (now \<le> now' \<and> process_rows B rows = Inr data
             \<longrightarrow> loadData B now' fin' (Readable rows)
                     (snd (loadData B now fin (Unparsable seen) c))
                   = (Resolved data, \<lparr>cachedData = Some data, cacheTime = Some fin'\<rparr>)))
   \<and> loadCSVData Missing = Resolved []
   \<and> initData Missing = Some \<lparr>ummMessages = [], dataLoaded = True\<rparr>
   \<and> get_umm_stats \<lparr>ummMessages = [], dataLoaded = True\<rparr>
        = Json \<lparr>totalMessages = 0, activeOutages = 0\<rparr>
   \<and> loadCSVData (Unparsable seen') = Rejected
   \<and> initData (Unparsable seen') = Some \<lparr>ummMessages = [], dataLoaded = False\<rparr>
   \<and> get_umm_stats \<lparr>ummMessages = [], dataLoaded = False\<rparr> = Failed 503 ''Data not loaded yet''"
proof -
  have fail: "loadData B now fin (Unparsable seen) c = (Rejected, c)"
    if "\<not> cache_valid now c" "process_rows B seen = Inr part"
    using that by (simp add: loadData_def)
  have route: "get_outage_summary B now fin (Unparsable seen) q c
                 = (Failed 500 ''Failed to load outage summary'', c)"
    if "\<not> cache_valid now c" "process_rows B seen = Inr part"
    using fail [OF that] by (simp add: get_outage_summary_def)
  have again: "loadData B now' fin' (Readable rows) (snd (loadData B now fin (Unparsable seen) c))
                   = (Resolved data, \<lparr>cachedData = Some data, cacheTime = Some fin'\<rparr>)"
    if "\<not> cache_valid now c" "process_rows B seen = Inr part"
       "now \<le> now'" "process_rows B rows = Inr data"
    using fail [OF that(1,2)] cache_stays_invalid [OF that(1,3)] that(4)
    by (simp add: loadData_def)
  have proto: "loadCSVData Missing = Resolved []"
    "initData Missing = Some \<lparr>ummMessages = [], dataLoaded = True\<rparr>"
    "get_umm_stats \<lparr>ummMessages = [], dataLoaded = True\<rparr>
        = Json \<lparr>totalMessages = 0, activeOutages = 0\<rparr>"
    "loadCSVData (Unparsable seen') = Rejected"
    "initData (Unparsable seen') = Some \<lparr>ummMessages = [], dataLoaded = False\<rparr>"
    "get_umm_stats \<lparr>ummMessages = [], dataLoaded = False\<rparr> = Failed 503 ''Data not loaded yet''"
    by (simp_all add: loadCSVData_def initData_def get_umm_stats_def)
  from fail route again proto show ?thesis by blast
qed

text \<open>
  The claim as the specification states it fails on the prototype backend: with the file
  missing the load succeeds with an empty dataset, which is served as a result.
\<close>

theorem missing_file_empty_dataset_counterexample:
  "loadCSVData Missing = Resolved []
   \<and> initData Missing = Some \<lparr>ummMessages = [], dataLoaded = True\<rparr>
   \<and> map_option get_umm_stats (initData Missing)
        = Some (Json \<lparr>totalMessages = 0, activeOutages = 0\<rparr>)"
  by (simp add: loadCSVData_def initData_def get_umm_stats_def)

theorem load_failure_surfaced_not_cached_witness:
  "\<not> cache_valid 1000 empty_cache
   \<and> process_rows demo_builtins [] = Inr []
   \<and> loadData demo_builtins 1000 1500 (Unparsable []) empty_cache = (Rejected, empty_cache)
   \<and> get_outage_summary demo_builtins 1000 1500 (Unparsable []) no_filter empty_cache
        = (Failed 500 ''Failed to load outage summary'', empty_cache)
   \<and> (1000::int) \<le> 2000
   \<and> process_rows demo_builtins [row_units_A] =
        Inr [\<lparr>src_row = row_units_A, area_names = [JStr ''NO2''], production_unit_names = [],
              generation_unit_names = [],
              capacity = \<lparr>installedMW = None, unavailableMW = Some (TNum (Fin 120)),
                          availableMW = None\<rparr>\<rparr>]
   \<and> loadData demo_builtins 2000 2600 (Readable [row_units_A])
          (snd (loadData demo_builtins 1000 1500 (Unparsable []) empty_cache)) =
        (Resolved [\<lparr>src_row = row_units_A, area_names = [JStr ''NO2''],
               production_unit_names = [], generation_unit_names = [],
               capacity = \<lparr>installedMW = None, unavailableMW = Some (TNum (Fin 120)),
                           availableMW = None\<rparr>\<rparr>],
         \<lparr>cachedData =
            Some [\<lparr>src_row = row_units_A, area_names = [JStr ''NO2''], production_unit_names = [],
                   generation_unit_names = [],
                   capacity = \<lparr>installedMW = None, unavailableMW = Some (TNum (Fin 120)),
                               availableMW = None\<rparr>\<rparr>],
          cacheTime = Some 2600\<rparr>)"
proof -
  have h1: "\<not> cache_valid 1000 empty_cache" by (simp add: cache_valid_def empty_cache_def)
  have h2: "process_rows demo_builtins [] = Inr []" by (simp add: process_rows_def)
  have h3: "(1000::int) \<le> 2000" by simp
  have h4: "process_rows demo_builtins [row_units_A] =
        Inr [\<lparr>src_row = row_units_A, area_names = [JStr ''NO2''], production_unit_names = [],
              generation_unit_names = [],
              capacity = \<lparr>installedMW = None, unavailableMW = Some (TNum (Fin 120)),
                          availableMW = None\<rparr>\<rparr>]"
    by code_simp
  show ?thesis
    using h1 h2 h3 h4
      load_failure_surfaced_not_cached [of 1000 empty_cache demo_builtins "[]" "[]" 1500
        no_filter 2000 "[row_units_A]" _ 2600]
    by blast
qed

text \<open>
  Left out of the claim above: when the file of server.js is missing or cannot be read,
  the error event of the read stream has no listener, the process ends and the request
  gets no answer; an exception of the row handler does the same.
\<close>

lemma unopened_file_ends_process:
  "\<not> cache_valid now c \<Longrightarrow>
     get_outage_summary B now fin Missing q c = (NoResponse, c)
     \<and> get_outage_summary B now fin Unreadable q c = (NoResponse, c)
     \<and> (process_rows B rows = Inl e
          \<longrightarrow> get_outage_summary B now fin (Readable rows) q c = (NoResponse, c))
     \<and> initData Unreadable = None"
  by (simp add: get_outage_summary_def loadData_def initData_def loadCSVData_def)

end
